(* ===== verification/Chat_Prelude.thy ===== *)
theory Chat_Prelude
  imports Main "HOL-Library.Word" "HOL-Library.AList" "HOL-Library.Multiset"
begin

text \<open>
  What every component of the chat server's model shares.

  \<^item> The machine types of the C++ code: \<open>long long\<close>, \<open>int32_t\<close>, \<open>uint32_t\<close>, bytes.
  \<^item> The computation type of a C++ call. A call takes the state it may change and gives an
    outcome together with the state it leaves: it returns, it throws, it blocks for ever (a
    condition variable nobody signals) or it runs into undefined behaviour of the language.
    State changes made before a throw stay made, as in C++.
  \<^item> \<open>std::to_string\<close> on \<open>long long\<close>.
  \<^item> The generic lemmas on maps and association lists that the component proofs use, in the
    collection \<open>chat_simps\<close>.
\<close>

named_theorems chat_simps "rewriting of computations, maps and association lists"

section \<open>Machine types\<close>

type_synonym byte = "8 word"
type_synonym int32 = "32 word"
type_synonym uint32 = "32 word"
type_synonym long_long = "64 word"

lemma byte_less: "unat (b :: byte) < 256"
proof -
  have "unat b < 2 ^ LENGTH(8)" by (rule unsigned_less)
  then show ?thesis by simp
qed

lemma sint_int32: "- (2 ^ 31) \<le> i \<Longrightarrow> i < 2 ^ 31 \<Longrightarrow> sint (word_of_int i :: int32) = i"
  by (simp add: signed_of_int signed_take_bit_int_eq_self)

lemma sint_long_long: "- (2 ^ 63) \<le> i \<Longrightarrow> i < 2 ^ 63 \<Longrightarrow> sint (word_of_int i :: long_long) = i"
  by (simp add: signed_of_int signed_take_bit_int_eq_self)

text \<open>A time point of \<open>std::chrono::system_clock\<close>: ticks since the epoch.\<close>

type_synonym time_point = int

section \<open>Exceptions and outcomes\<close>

text \<open>
  The categories of \<open>soci::soci_error\<close> the code tells apart; all the others are one case.
\<close>

datatype soci_category = No_data | Connection_error | System_error | Other_category nat

datatype exn =
    Soci_error soci_category
  | Runtime_error string
  | Logic_error string
  | Bad_optional_access
  | Std_exception string

datatype 'a outcome =
    Ret 'a
  | Throw exn
  | Block
  | Undef

type_synonym ('s, 'a) comp = "'s \<Rightarrow> 'a outcome \<times> 's"

definition creturn :: "'a \<Rightarrow> ('s, 'a) comp" where
  "creturn a s = (Ret a, s)"

definition cthrow :: "exn \<Rightarrow> ('s, 'a) comp" where
  "cthrow e s = (Throw e, s)"

definition cundef :: "('s, 'a) comp" where
  "cundef s = (Undef, s)"

definition cbind :: "('s, 'a) comp \<Rightarrow> ('a \<Rightarrow> ('s, 'b) comp) \<Rightarrow> ('s, 'b) comp" where
  "cbind m f s =
     (case m s of
        (Ret a, t) \<Rightarrow> f a t
      | (Throw e, t) \<Rightarrow> (Throw e, t)
      | (Block, t) \<Rightarrow> (Block, t)
      | (Undef, t) \<Rightarrow> (Undef, t))"

definition cthen :: "('s, 'a) comp \<Rightarrow> ('s, 'b) comp \<Rightarrow> ('s, 'b) comp" where
  "cthen m n = cbind m (\<lambda>_. n)"

text \<open>The result of a library call that may throw.\<close>

definition cfrom :: "exn + 'a \<Rightarrow> ('s, 'a) comp" where
  "cfrom v = (case v of Inl e \<Rightarrow> cthrow e | Inr a \<Rightarrow> creturn a)"

definition cget :: "('s \<Rightarrow> 'a) \<Rightarrow> ('s, 'a) comp" where
  "cget f s = (Ret (f s), s)"

definition cmodify :: "('s \<Rightarrow> 's) \<Rightarrow> ('s, unit) comp" where
  "cmodify f s = (Ret (), f s)"

fun cmap :: "('a \<Rightarrow> ('s, 'b) comp) \<Rightarrow> 'a list \<Rightarrow> ('s, 'b list) comp" where
  "cmap f [] = creturn []"
| "cmap f (x # xs) = cbind (f x) (\<lambda>y. cbind (cmap f xs) (\<lambda>ys. creturn (y # ys)))"

lemma creturn_apply [chat_simps, simp]: "creturn a s = (Ret a, s)"
  by (simp add: creturn_def)

lemma cthrow_apply [chat_simps, simp]: "cthrow e s = (Throw e, s)"
  by (simp add: cthrow_def)

lemma cundef_apply [chat_simps, simp]: "cundef s = (Undef, s)"
  by (simp add: cundef_def)

lemma cget_apply [chat_simps, simp]: "cget f s = (Ret (f s), s)"
  by (simp add: cget_def)

lemma cmodify_apply [chat_simps, simp]: "cmodify f s = (Ret (), f s)"
  by (simp add: cmodify_def)

lemma cbind_Ret [chat_simps]: "m s = (Ret a, t) \<Longrightarrow> cbind m f s = f a t"
  by (simp add: cbind_def)

lemma cbind_Throw [chat_simps]: "m s = (Throw e, t) \<Longrightarrow> cbind m f s = (Throw e, t)"
  by (simp add: cbind_def)

lemma cbind_creturn [chat_simps, simp]: "cbind (creturn a) f = f a"
  by (simp add: cbind_def fun_eq_iff)

lemma cbind_cget [chat_simps, simp]: "cbind (cget g) f s = f (g s) s"
  by (simp add: cbind_def)

lemma cbind_cmodify [chat_simps, simp]: "cbind (cmodify g) f s = f () (g s)"
  by (simp add: cbind_def)

lemma cthen_cmodify [chat_simps, simp]: "cthen (cmodify g) n s = n (g s)"
  by (simp add: cthen_def)

lemma cfrom_apply [simp]: "cfrom (Inr a) s = (Ret a, s)" "cfrom (Inl e) s = (Throw e, s)"
  by (simp_all add: cfrom_def)

lemma cbind_cfrom: "cbind (cfrom (Inr a)) f s = f a s" "cbind (cfrom (Inl e)) f s = (Throw e, s)"
  by (simp_all add: cbind_def)

lemma cbind_Ret_iff:
  "cbind m f s = (Ret b, t) \<longleftrightarrow> (\<exists>a u. m s = (Ret a, u) \<and> f a u = (Ret b, t))"
  by (auto simp: cbind_def split: outcome.splits prod.splits)

lemma cbind_Throw_iff:
  "cbind m f s = (Throw e, t) \<longleftrightarrow>
     m s = (Throw e, t) \<or> (\<exists>a u. m s = (Ret a, u) \<and> f a u = (Throw e, t))"
  by (auto simp: cbind_def split: outcome.splits prod.splits)

text \<open>
  A frame rule: a property of the state that every part of a computation keeps, whatever its
  outcome, is kept by the whole.
\<close>

definition preserves :: "('s \<Rightarrow> bool) \<Rightarrow> ('s, 'a) comp \<Rightarrow> bool" where
  "preserves P m \<longleftrightarrow> (\<forall>s. P s \<longrightarrow> P (snd (m s)))"

lemma preservesI: "(\<And>s. P s \<Longrightarrow> P (snd (m s))) \<Longrightarrow> preserves P m"
  by (simp add: preserves_def)

lemma preservesD: "preserves P m \<Longrightarrow> P s \<Longrightarrow> P (snd (m s))"
  by (simp add: preserves_def)

lemma preserves_creturn [intro, simp]: "preserves P (creturn a)"
  by (simp add: preserves_def)

lemma preserves_cthrow [intro, simp]: "preserves P (cthrow e)"
  by (simp add: preserves_def)

lemma preserves_cundef [intro, simp]: "preserves P cundef"
  by (simp add: preserves_def)

lemma preserves_cget [intro, simp]: "preserves P (cget f)"
  by (simp add: preserves_def)

lemma preserves_cbind [intro]:
  assumes "preserves P m" and "\<And>a. preserves P (f a)"
  shows "preserves P (cbind m f)"
proof (rule preservesI)
  fix s assume "P s"
  with assms(1) have "P (snd (m s))" by (rule preservesD)
  with assms(2) show "P (snd (cbind m f s))"
    by (auto simp: cbind_def preserves_def split: outcome.splits prod.splits)
qed

lemma preserves_cthen [intro]: "preserves P m \<Longrightarrow> preserves P n \<Longrightarrow> preserves P (cthen m n)"
  by (auto simp: cthen_def)

lemma preserves_cmap [intro]: "(\<And>x. preserves P (f x)) \<Longrightarrow> preserves P (cmap f xs)"
  by (induction xs) auto

section \<open>std::to_string\<close>

fun nat_digits :: "nat \<Rightarrow> string" where
  "nat_digits n =
     (if n < 10 then [char_of (48 + n)] else nat_digits (n div 10) @ [char_of (48 + n mod 10)])"

declare nat_digits.simps [simp del]

definition to_string :: "long_long \<Rightarrow> string" where
  "to_string x =
     (if sint x < 0 then CHR ''-'' # nat_digits (nat (- sint x)) else nat_digits (nat (sint x)))"

lemma char_of_digit_inj:
  assumes "a < 10" "b < 10" "char_of (48 + a) = char_of (48 + b :: nat)"
  shows "a = b"
proof -
  have "of_char (char_of (48 + a)) = (of_char (char_of (48 + b :: nat)) :: nat)"
    using assms(3) by simp
  then show ?thesis using assms(1,2) by (simp add: of_char_of)
qed

lemma digit_not_minus: "d < 10 \<Longrightarrow> char_of (48 + d :: nat) \<noteq> CHR ''-''"
proof
  assume "d < 10" and "char_of (48 + d :: nat) = CHR ''-''"
  then have "of_char (char_of (48 + d :: nat)) = (of_char (CHR ''-'') :: nat)" by simp
  then show False using \<open>d < 10\<close> by (simp add: of_char_of)
qed

lemma nat_digits_nonempty [simp]: "nat_digits n \<noteq> []"
  by (subst nat_digits.simps) simp

lemma nat_digits_nonempty' [simp]: "[] \<noteq> nat_digits n"
  by (metis nat_digits_nonempty)

lemma hd_nat_digits: "hd (nat_digits n) \<noteq> CHR ''-''"
proof (induction n rule: nat_digits.induct)
  case (1 n)
  then show ?case
    by (subst nat_digits.simps) (simp add: digit_not_minus)
qed

lemma nat_digits_inj: "nat_digits m = nat_digits n \<Longrightarrow> m = n"
proof (induction m arbitrary: n rule: nat_digits.induct)
  case (1 m)
  show ?case
  proof (cases "m < 10")
    case True
    with "1.prems" show ?thesis
      by (cases "n < 10") (auto simp: nat_digits.simps [of m] nat_digits.simps [of n] char_of_digit_inj)
  next
    case m: False
    show ?thesis
    proof (cases "n < 10")
      case True
      with m "1.prems" show ?thesis
        by (simp add: nat_digits.simps [of m] nat_digits.simps [of n])
    next
      case n: False
      with m "1.prems" have "nat_digits (m div 10) = nat_digits (n div 10)"
        and last: "char_of (48 + m mod 10) = char_of (48 + n mod 10 :: nat)"
        by (simp_all only: nat_digits.simps [of m] nat_digits.simps [of n] if_False
             append1_eq_conv)
      with m have "m div 10 = n div 10" by (intro "1.IH")
      moreover have "m mod 10 = n mod 10"
        by (rule char_of_digit_inj) (simp_all add: last)
      ultimately have "m div 10 * 10 + m mod 10 = n div 10 * 10 + n mod 10"
        by (simp only:)
      then show ?thesis by (simp only: div_mult_mod_eq)
    qed
  qed
qed

text \<open>Two ids with the same text are the same id.\<close>

lemma to_string_inj: "to_string x = to_string y \<Longrightarrow> x = y"
proof -
  assume eq: "to_string x = to_string y"
  have neg: "(sint x < 0) = (sint y < 0)"
  proof (rule ccontr)
    assume "(sint x < 0) \<noteq> (sint y < 0)"
    then have "\<exists>n. hd (nat_digits n) = CHR ''-''"
      using eq by (auto simp: to_string_def split: if_splits) (metis list.sel(1))+
    then show False using hd_nat_digits by blast
  qed
  then have "sint x = sint y"
    using eq by (auto simp: to_string_def split: if_splits dest!: nat_digits_inj)
  then show "x = y" by (simp add: signed_word_eqI)
qed

section \<open>Association lists\<close>

text \<open>
  A \<open>std::unordered_map\<close> the code iterates over is an association list with distinct keys,
  in the order the container happens to iterate (\<open>AList.update\<close>, \<open>AList.delete\<close>); one that
  is only looked up is a map.
\<close>

lemma map_of_AList_update [chat_simps, simp]: "map_of (AList.update k v al) = (map_of al)(k \<mapsto> v)"
  by (rule update_conv')

lemma map_of_AList_delete [chat_simps, simp]: "map_of (AList.delete k al) = (map_of al)(k := None)"
  by (rule delete_conv')

lemma distinct_keys_update [chat_simps, intro, simp]:
  "distinct (map fst al) \<Longrightarrow> distinct (map fst (AList.update k v al))"
  by (rule distinct_update)

lemma distinct_keys_delete [chat_simps, intro, simp]:
  "distinct (map fst al) \<Longrightarrow> distinct (map fst (AList.delete k al))"
  by (rule distinct_delete)

lemma AList_update_nonempty [chat_simps, simp]: "AList.update k v al \<noteq> []"
  by (cases al) (auto split: prod.splits)

lemma AList_nonempty_if_dom: "map_of al k = Some v \<Longrightarrow> al \<noteq> []"
  by auto

lemma AList_empty_iff_map: "al = [] \<longleftrightarrow> map_of al = Map.empty"
  by (cases al) (auto simp: fun_eq_iff split: prod.splits)

end
