(* ===== verification/Wire_Format.thy ===== *)
theory Wire_Format
  imports Chat_Prelude
begin

unbundle bit_operations_syntax

text \<open>
  The length-prefixed framing of \<open>server/src/session/Session.cpp\<close>: the frame \<open>Session::send\<close>
  builds, and the read loop of \<open>do_read_header\<close> and \<open>do_read_body\<close> that takes a byte stream apart
  again. Protobuf's \<open>SerializeToString\<close> and \<open>ParseFromArray\<close> are parameters (\<open>serialize\<close>,
  \<open>parse\<close>). \<open>asio::async_read\<close> completes when its buffer is full or the connection fails; the
  read loop is therefore driven byte by byte, and a chunk of any size is the sequence of its
  bytes. \<open>uint32_t\<close> values are \<open>32 word\<close>; how they lie in memory depends on the host's byte
  order, which is a parameter (\<open>endian\<close>), so that sender and receiver may differ.
\<close>

section \<open>uint32_t in memory and in network byte order\<close>

datatype endian = Little_endian | Big_endian

definition be_bytes :: "uint32 \<Rightarrow> byte list" where
  "be_bytes w = [ucast (drop_bit 24 w), ucast (drop_bit 16 w), ucast (drop_bit 8 w), ucast w]"

definition be_value :: "byte list \<Rightarrow> uint32" where
  "be_value bs = foldl (\<lambda>acc b. push_bit 8 acc OR ucast b) 0 bs"

definition store_u32 :: "endian \<Rightarrow> uint32 \<Rightarrow> byte list" where
  "store_u32 en w = (case en of Big_endian \<Rightarrow> be_bytes w | Little_endian \<Rightarrow> rev (be_bytes w))"

definition load_u32 :: "endian \<Rightarrow> byte list \<Rightarrow> uint32" where
  "load_u32 en bs = (case en of Big_endian \<Rightarrow> be_value bs | Little_endian \<Rightarrow> be_value (rev bs))"

definition bswap32 :: "uint32 \<Rightarrow> uint32" where
  "bswap32 w = be_value (rev (be_bytes w))"

definition htonl :: "endian \<Rightarrow> uint32 \<Rightarrow> uint32" where
  "htonl en w = (case en of Big_endian \<Rightarrow> w | Little_endian \<Rightarrow> bswap32 w)"

definition ntohl :: "endian \<Rightarrow> uint32 \<Rightarrow> uint32" where
  "ntohl en w = (case en of Big_endian \<Rightarrow> w | Little_endian \<Rightarrow> bswap32 w)"

lemma length_be_bytes [simp]: "length (be_bytes w) = 4"
  by (simp add: be_bytes_def)

lemma be_value_be_bytes [simp]: "be_value (be_bytes w) = w"
proof (rule bit_word_eqI)
  fix n :: nat assume "n < LENGTH(32)"
  then consider "n < 8" | "8 \<le> n" "n < 16" | "16 \<le> n" "n < 24" | "24 \<le> n" "n < 32"
    by fastforce
  then show "bit (be_value (be_bytes w)) n = bit w n"
    by cases (auto simp: be_value_def be_bytes_def bit_simps)
qed

lemma be_bytes_be_value [simp]:
  assumes "length bs = 4"
  shows "be_bytes (be_value bs) = bs"
proof -
  from assms obtain a b c d where bs: "bs = [a, b, c, d]"
    by (auto simp: numeral_eq_Suc length_Suc_conv)
  show ?thesis
    unfolding bs be_value_def be_bytes_def
    by (simp, intro conjI; rule bit_word_eqI; auto simp: bit_simps dest: bit_imp_le_length)
qed

text \<open>Whatever the host, what is sent is big endian and what is read is big endian.\<close>

lemma store_htonl [simp]: "store_u32 en (htonl en w) = be_bytes w"
  by (cases en) (simp_all add: store_u32_def htonl_def bswap32_def)

lemma ntohl_load [simp]: "length bs = 4 \<Longrightarrow> ntohl en (load_u32 en bs) = be_value bs"
  by (cases en) (simp_all add: load_u32_def ntohl_def bswap32_def)

section \<open>Frames\<close>

text \<open>\<open>Session::send\<close>, up to the post: \<open>htonl\<close> takes the size as a \<open>uint32_t\<close>.\<close>

definition frame :: "endian \<Rightarrow> byte list \<Rightarrow> byte list" where
  "frame en body_data =
     store_u32 en (htonl en (word_of_nat (length body_data))) @ body_data"

definition header_length :: nat where
  "header_length = 4"

definition max_body_length :: uint32 where
  "max_body_length = 8192"

lemma frame_eq: "frame en body = be_bytes (word_of_nat (length body)) @ body"
  by (simp add: frame_def)

section \<open>The read loop\<close>

text \<open>\<open>asio::error_code\<close>; \<open>Ec_ok\<close> is the default one, which tests false.\<close>

datatype error_code =
    Ec_ok
  | Ec_eof
  | Ec_connection_reset
  | Ec_operation_aborted
  | Ec_timed_out
  | Ec_other int

text \<open>What the read loop calls: \<open>server.onMessage\<close> and \<open>handle_error\<close>.\<close>

datatype 'e read_event = Deliver 'e | Error string error_code

datatype read_phase = Reading_header | Reading_body uint32 | Stopped

record reader =
  rd_phase :: read_phase
  rd_buf :: "byte list"

definition reader_start :: reader where
  "reader_start = \<lparr>rd_phase = Reading_header, rd_buf = []\<rparr>"

definition header_complete :: "endian \<Rightarrow> byte list \<Rightarrow> read_phase \<times> 'e read_event list" where
  "header_complete en header_buf =
     (let body_length = ntohl en (load_u32 en header_buf)
      in if 0 < body_length \<and> body_length < max_body_length
         then (Reading_body body_length, [])
         else (Stopped, [Error ''Invalid length'' Ec_ok]))"

definition body_complete ::
    "(byte list \<Rightarrow> 'e option) \<Rightarrow> byte list \<Rightarrow> read_phase \<times> 'e read_event list" where
  "body_complete parse body_buf =
     (case parse body_buf of
        Some envelope \<Rightarrow> (Reading_header, [Deliver envelope])
      | None \<Rightarrow> (Stopped, [Error ''Failed to parse'' Ec_ok]))"

text \<open>The completion handlers with an error code.\<close>

definition header_failed :: "error_code \<Rightarrow> 'e read_event list" where
  "header_failed ec =
     (if ec = Ec_eof \<or> ec = Ec_connection_reset
      then [Error ''Client disconnected gracefully during header read.'' ec]
      else if ec = Ec_operation_aborted then [Error ''Server closed'' ec]
      else [Error ''Read header'' ec])"

definition body_failed :: "error_code \<Rightarrow> 'e read_event list" where
  "body_failed ec = [Error ''Read body'' ec]"

text \<open>
  The asynchronous reads: bytes are gathered until the requested number has come, then the
  completion handler decides what is read next.
\<close>

fun wanted :: "read_phase \<Rightarrow> nat" where
  "wanted Reading_header = header_length"
| "wanted (Reading_body body_length) = unat body_length"
| "wanted Stopped = 0"

definition read_byte ::
    "(byte list \<Rightarrow> read_phase \<times> 'e read_event list) \<Rightarrow>
     (byte list \<Rightarrow> read_phase \<times> 'e read_event list) \<Rightarrow>
     reader \<Rightarrow> byte \<Rightarrow> reader \<times> 'e read_event list" where
  "read_byte on_header on_body r b =
     (let buf = rd_buf r @ [b]
      in if rd_phase r = Stopped then (r, [])
         else if length buf < wanted (rd_phase r) then (r\<lparr>rd_buf := buf\<rparr>, [])
         else (let (phase, out) =
                 (case rd_phase r of Reading_header \<Rightarrow> on_header buf | _ \<Rightarrow> on_body buf)
               in (\<lparr>rd_phase = phase, rd_buf = []\<rparr>, out)))"

fun read_bytes ::
    "(byte list \<Rightarrow> read_phase \<times> 'e read_event list) \<Rightarrow>
     (byte list \<Rightarrow> read_phase \<times> 'e read_event list) \<Rightarrow>
     reader \<Rightarrow> byte list \<Rightarrow> reader \<times> 'e read_event list" where
  "read_bytes on_header on_body r [] = (r, [])"
| "read_bytes on_header on_body r (b # bs) =
     (let (r', out) = read_byte on_header on_body r b;
          (r'', out') = read_bytes on_header on_body r' bs
      in (r'', out @ out'))"

text \<open>The stream as TCP delivers it: in chunks cut anywhere.\<close>

fun read_chunks ::
    "(byte list \<Rightarrow> read_phase \<times> 'e read_event list) \<Rightarrow>
     (byte list \<Rightarrow> read_phase \<times> 'e read_event list) \<Rightarrow>
     reader \<Rightarrow> byte list list \<Rightarrow> reader \<times> 'e read_event list" where
  "read_chunks on_header on_body r [] = (r, [])"
| "read_chunks on_header on_body r (c # cs) =
     (let (r', out) = read_bytes on_header on_body r c;
          (r'', out') = read_chunks on_header on_body r' cs
      in (r'', out @ out'))"

abbreviation session_chunks ::
    "endian \<Rightarrow> (byte list \<Rightarrow> 'e option) \<Rightarrow> reader \<Rightarrow> byte list list \<Rightarrow>
     reader \<times> 'e read_event list" where
  "session_chunks en parse \<equiv> read_chunks (header_complete en) (body_complete parse)"

lemma read_bytes_append:
  "read_bytes h d r (xs @ ys) =
     (let (r', out) = read_bytes h d r xs; (r'', out') = read_bytes h d r' ys
      in (r'', out @ out'))"
  by (induction xs arbitrary: r) (auto simp: Let_def split: prod.splits)

lemma read_chunks_concat: "read_chunks h d r cs = read_bytes h d r (concat cs)"
  by (induction cs arbitrary: r) (auto simp: read_bytes_append Let_def split: prod.splits)

lemma read_bytes_Stopped: "rd_phase r = Stopped \<Longrightarrow> read_bytes h d r bs = (r, [])"
  by (induction bs) (auto simp: read_byte_def)

text \<open>Gathering: a buffer that stays short of the wanted number only grows.\<close>

lemma read_bytes_gather:
  "rd_phase r \<noteq> Stopped \<Longrightarrow> length (rd_buf r) + length bs < wanted (rd_phase r) \<Longrightarrow>
   read_bytes h d r bs = (r\<lparr>rd_buf := rd_buf r @ bs\<rparr>, [])"
  by (induction bs arbitrary: r) (auto simp: read_byte_def)

lemma read_bytes_fill:
  assumes "rd_phase r \<noteq> Stopped" "rd_buf r = []" "length bs = wanted (rd_phase r)" "bs \<noteq> []"
  shows "read_bytes h d r bs =
    (let (phase, out) = (case rd_phase r of Reading_header \<Rightarrow> h bs | _ \<Rightarrow> d bs)
     in (\<lparr>rd_phase = phase, rd_buf = []\<rparr>, out))"
proof -
  obtain xs b where bs: "bs = xs @ [b]"
    using assms(4) by (metis append_butlast_last_id)
  have "read_bytes h d r xs = (r\<lparr>rd_buf := xs\<rparr>, [])"
    using read_bytes_gather [of r xs] assms by (simp add: bs)
  then show ?thesis
    using assms
    by (cases "rd_phase r") (simp_all add: bs read_bytes_append read_byte_def Let_def
        split: prod.splits)
qed

section \<open>The contract of a frame reader\<close>

text \<open>
  The server's session and the client read frames with completion handlers of their own. What
  the framing needs of them: a header with a length in range starts the body, any other ends
  the loop without delivering, a body is delivered when it parses and ends the loop otherwise.
\<close>

locale frame_reader =
  fixes on_header :: "byte list \<Rightarrow> read_phase \<times> 'e read_event list"
    and on_body :: "byte list \<Rightarrow> read_phase \<times> 'e read_event list"
    and parse :: "byte list \<Rightarrow> 'e option"
  assumes header_accepts:
      "length h = header_length \<Longrightarrow> 0 < be_value h \<Longrightarrow> be_value h < max_body_length \<Longrightarrow>
       on_header h = (Reading_body (be_value h), [])"
    and header_rejects:
      "length h = header_length \<Longrightarrow> \<not> (0 < be_value h \<and> be_value h < max_body_length) \<Longrightarrow>
       fst (on_header h) = Stopped \<and> (\<forall>e. Deliver e \<notin> set (snd (on_header h)))"
    and body_accepts: "parse b = Some e \<Longrightarrow> on_body b = (Reading_header, [Deliver e])"
    and body_rejects:
      "parse b = None \<Longrightarrow>
       fst (on_body b) = Stopped \<and> (\<forall>e. Deliver e \<notin> set (snd (on_body b)))"
begin

lemma read_header:
  "length h = header_length \<Longrightarrow>
   read_bytes on_header on_body reader_start h =
     (\<lparr>rd_phase = fst (on_header h), rd_buf = []\<rparr>, snd (on_header h))"
  by (subst read_bytes_fill) (auto simp: reader_start_def header_length_def split: prod.splits)

lemma read_frame:
  assumes "parse body = Some e" "body \<noteq> []" "length body < unat max_body_length"
  shows "read_bytes on_header on_body reader_start (frame en body) = (reader_start, [Deliver e])"
proof -
  let ?n = "word_of_nat (length body) :: uint32"
  have n: "unat ?n = length body"
    using assms(3) by (simp add: unat_of_nat max_body_length_def take_bit_eq_mod)
  have "0 < ?n" "?n < max_body_length"
    using n assms(2,3) by (auto simp: word_less_nat_alt simp del: unat_of_nat)
  then have "read_bytes on_header on_body reader_start (be_bytes ?n) =
      (\<lparr>rd_phase = Reading_body ?n, rd_buf = []\<rparr>, [])"
    using read_header [of "be_bytes ?n"] header_accepts [of "be_bytes ?n"]
    by (simp add: header_length_def)
  moreover have "read_bytes on_header on_body \<lparr>rd_phase = Reading_body ?n, rd_buf = []\<rparr> body =
      (reader_start, [Deliver e])"
    using n assms by (subst read_bytes_fill)
      (simp_all add: body_accepts reader_start_def del: unat_of_nat)
  ultimately show ?thesis
    by (simp add: frame_eq read_bytes_append)
qed

lemma read_frames:
  assumes "\<And>b. b \<in> set bodies \<Longrightarrow> b \<noteq> [] \<and> length b < unat max_body_length \<and> parse b = Some (dec b)"
  shows "read_bytes on_header on_body reader_start (concat (map (frame en) bodies)) =
    (reader_start, map (\<lambda>b. Deliver (dec b)) bodies)"
  using assms
proof (induction bodies)
  case Nil
  then show ?case by simp
next
  case (Cons b bodies)
  then show ?case
    using read_frame [of b "dec b" en] by (simp add: read_bytes_append)
qed

lemma frame_out_of_range:
  assumes "body = [] \<or> unat max_body_length \<le> length body" "length body < 2 ^ 32"
  shows "rd_phase (fst (read_bytes on_header on_body reader_start (frame en body @ rest))) = Stopped
    \<and> (\<forall>e. Deliver e \<notin> set (snd (read_bytes on_header on_body reader_start (frame en body @ rest))))"
proof -
  let ?n = "word_of_nat (length body) :: uint32"
  have n: "unat ?n = length body"
    using assms(2) by (simp add: unat_of_nat take_bit_eq_mod)
  have "\<not> (0 < ?n \<and> ?n < max_body_length)"
    using n assms(1) by (auto simp: word_less_nat_alt simp del: unat_of_nat)
  then have "fst (on_header (be_bytes ?n)) = Stopped
      \<and> (\<forall>e. Deliver e \<notin> set (snd (on_header (be_bytes ?n))))"
    using header_rejects [of "be_bytes ?n"] by (simp add: header_length_def)
  then show ?thesis
    by (auto simp: frame_eq read_bytes_append read_header header_length_def read_bytes_Stopped
        Let_def split: prod.splits)
qed

text \<open>What is delivered from a prefix of the stream is a prefix of what is delivered.\<close>

lemma prefix_delivers_prefix:
  assumes "\<And>b. b \<in> set bodies \<Longrightarrow> b \<noteq> [] \<and> length b < unat max_body_length \<and> parse b = Some (dec b)"
    and "got @ missing = concat (map (frame en) bodies)"
  shows "\<exists>k. snd (read_bytes on_header on_body reader_start got) =
    map (\<lambda>b. Deliver (dec b)) (take k bodies)"
proof -
  have "snd (read_bytes on_header on_body reader_start (got @ missing)) =
      map (\<lambda>b. Deliver (dec b)) bodies"
    by (simp add: assms(2) read_frames [OF assms(1)])
  then obtain rest where "snd (read_bytes on_header on_body reader_start got) @ rest =
      map (\<lambda>b. Deliver (dec b)) bodies"
    by (auto simp: read_bytes_append Let_def split: prod.splits)
  then have "snd (read_bytes on_header on_body reader_start got) =
      take (length (snd (read_bytes on_header on_body reader_start got)))
        (map (\<lambda>b. Deliver (dec b)) bodies)"
    by (metis append_eq_conv_conj)
  then show ?thesis by (auto simp: take_map)
qed

end

interpretation session_reader:
  frame_reader "header_complete en" "body_complete parse" parse for en parse
  by unfold_locales
    (auto simp: header_complete_def body_complete_def header_length_def Let_def)


section \<open>Properties\<close>

text \<open>C1. Framing round trip. Envelopes whose serialised form is neither empty nor 8192 bytes or
  longer, framed one after the other by a sender of any byte order, are read back by a receiver
  of any byte order as exactly these envelopes in this order, however TCP cuts the stream into
  chunks; afterwards the receiver waits for the next header.\<close>

theorem framing_roundtrip:
  assumes parse: "\<And>e. e \<in> set es \<Longrightarrow> parse (serialize e) = Some e"
    and size: "\<And>e. e \<in> set es \<Longrightarrow> 0 < length (serialize e) \<and> length (serialize e) < 8192"
    and stream: "concat chunks = concat (map (\<lambda>e. frame en_s (serialize e)) es)"
  shows "session_chunks en_r parse reader_start chunks = (reader_start, map Deliver es)"
proof -
  have "read_bytes (header_complete en_r) (body_complete parse) reader_start
      (concat (map (frame en_s) (map serialize es))) =
      (reader_start, map (\<lambda>b. Deliver (the (parse b))) (map serialize es))"
    by (rule session_reader.read_frames) (use parse size in \<open>auto simp: max_body_length_def\<close>)
  moreover have "map (\<lambda>b. Deliver (the (parse b))) (map serialize es) = map Deliver es"
    using parse by simp
  ultimately show ?thesis
    by (simp add: read_chunks_concat stream comp_def)
qed

lemma framing_roundtrip_witness:
  "session_chunks Big_endian (Some :: byte list \<Rightarrow> byte list option) reader_start
     [[0, 0, 0], [2, 7], [8, 0, 0, 0, 1, 9]] = (reader_start, map Deliver [[7, 8], [9]])"
  by (rule framing_roundtrip [where serialize = id and en_s = Little_endian])
    (auto simp: frame_eq be_bytes_def)

text \<open>C4. A frame whose body is empty, or is 8192 bytes or longer, ends the read loop: nothing of
  it and nothing that follows it on the connection is delivered, however the stream is cut. The
  sender has no such bound: \<open>frame\<close> accepts bodies of any size.\<close>

theorem frame_out_of_range_rejected:
  assumes "body = [] \<or> 8192 \<le> length body" and "length body < 2 ^ 32"
    and "concat chunks = frame en_s body @ rest"
  shows "rd_phase (fst (session_chunks en_r parse reader_start chunks)) = Stopped
    \<and> (\<forall>e. Deliver e \<notin> set (snd (session_chunks en_r parse reader_start chunks)))"
  using session_reader.frame_out_of_range [of body en_r parse en_s rest] assms
  by (auto simp: read_chunks_concat max_body_length_def)

lemma frame_out_of_range_rejected_witness:
  "rd_phase (fst (session_chunks Little_endian (\<lambda>b. Some b) reader_start
      [frame Little_endian (replicate 8192 65), [0, 0, 0, 1, 66]])) = Stopped
   \<and> (\<forall>e. Deliver e \<notin> set (snd (session_chunks Little_endian (\<lambda>b. Some b) reader_start
      [frame Little_endian (replicate 8192 65), [0, 0, 0, 1, 66]])))"
  using frame_out_of_range_rejected [where body = "replicate 8192 65" and rest = "[0, 0, 0, 1, 66]"
      and en_s = Little_endian and en_r = Little_endian and parse = "\<lambda>b. Some b"
      and chunks = "[frame Little_endian (replicate 8192 65), [0, 0, 0, 1, 66]]"]
  by simp

text \<open>C5. A connection that breaks anywhere delivers a prefix: of a stream of well-sized frames,
  the bytes received so far give the first few envelopes, whole and in order, never a part of
  one and never another one.\<close>

theorem partial_stream_delivers_prefix:
  assumes parse: "\<And>e. e \<in> set es \<Longrightarrow> parse (serialize e) = Some e"
    and size: "\<And>e. e \<in> set es \<Longrightarrow> 0 < length (serialize e) \<and> length (serialize e) < 8192"
    and got: "concat chunks @ missing = concat (map (\<lambda>e. frame en_s (serialize e)) es)"
  shows "\<exists>k. snd (session_chunks en_r parse reader_start chunks) = map Deliver (take k es)"
proof -
  have "concat chunks @ missing = concat (map (frame en_s) (map serialize es))"
    by (simp add: got comp_def)
  moreover have "\<And>b. b \<in> set (map serialize es) \<Longrightarrow>
      b \<noteq> [] \<and> length b < unat max_body_length \<and> parse b = Some ((the \<circ> parse) b)"
    using parse size by (auto simp: max_body_length_def)
  ultimately obtain k where "snd (session_chunks en_r parse reader_start chunks) =
      map (\<lambda>b. Deliver (the (parse b))) (take k (map serialize es))"
    using session_reader.prefix_delivers_prefix [of "map serialize es" parse "the \<circ> parse"
        "concat chunks" missing en_s en_r]
    unfolding read_chunks_concat comp_def by blast
  moreover have "map (\<lambda>b. Deliver (the (parse b))) (take k (map serialize es)) =
      map Deliver (take k es)"
    using parse by (auto simp: take_map dest!: in_set_takeD)
  ultimately show ?thesis by auto
qed

lemma partial_stream_delivers_prefix_witness:
  "\<exists>k. snd (session_chunks Little_endian (Some :: byte list \<Rightarrow> byte list option) reader_start
     [[0, 0], [0, 2, 7, 8, 0]]) = map Deliver (take k [[7, 8], [9]])"
  by (rule partial_stream_delivers_prefix [where serialize = id and en_s = Big_endian
        and missing = "[0, 0, 1, 9]"]) (auto simp: frame_eq be_bytes_def)

end
