(* ===== verification/Session.thy ===== *)
theory Session
  imports Wire_Format "HOL-Library.Sublist"
begin

text \<open>
  The rest of \<open>server/src/session/Session.cpp\<close>: the queue of outgoing frames
  (\<open>message_queue\<close>, the handler \<open>send\<close> posts to the strand, \<open>do_write\<close>, \<open>handle_write\<close>), the
  closing of a session by \<open>handle_error\<close>, and its authentication state. Each operation is the
  code's; undefined behaviour (\<open>front\<close> or \<open>pop\<close> on an empty queue) is the value \<open>None\<close>. The
  locale \<open>frame_writer\<close> is what the order of the bytes on a connection needs of a write queue;
  it is interpreted for the session here and for the client in its own theory.
\<close>

section \<open>The write queue\<close>

text \<open>
  \<open>wq_writing\<close> holds the frames handed to \<open>asio::async_write\<close> whose completion has not come
  yet, \<open>wq_wire\<close> the frames written completely, \<open>wq_broken\<close> the bytes of a frame whose write
  failed half way.
\<close>

record write_queue =
  wq_queue :: "byte list list"
  wq_writing :: "byte list list"
  wq_wire :: "byte list list"
  wq_broken :: "byte list option"

definition wq_empty :: write_queue where
  "wq_empty = \<lparr>wq_queue = [], wq_writing = [], wq_wire = [], wq_broken = None\<rparr>"

definition do_write :: "write_queue \<Rightarrow> write_queue option" where
  "do_write q =
     (case wq_queue q of
        [] \<Rightarrow> None
      | write_buf # _ \<Rightarrow> Some (q\<lparr>wq_writing := wq_writing q @ [write_buf]\<rparr>))"

definition post_send :: "byte list \<Rightarrow> write_queue \<Rightarrow> write_queue option" where
  "post_send package q =
     (let write_in_progress = (wq_queue q \<noteq> []);
          q' = q\<lparr>wq_queue := wq_queue q @ [package]\<rparr>
      in if \<not> write_in_progress then do_write q' else Some q')"

text \<open>The failure branch goes on to \<open>handle_error\<close>, which does not touch the queue.\<close>

definition handle_write :: "error_code \<Rightarrow> write_queue \<Rightarrow> write_queue option" where
  "handle_write ec q =
     (if ec = Ec_ok then
        (case wq_queue q of
           [] \<Rightarrow> None
         | _ # rest \<Rightarrow>
             (let q' = q\<lparr>wq_queue := rest\<rparr>
              in if rest \<noteq> [] then do_write q' else Some q'))
      else Some q)"

text \<open>
  The runs of a write queue: frames are posted, and an outstanding write completes or fails.
  The first argument lists the frames posted so far.
\<close>

inductive wq_run ::
    "(byte list \<Rightarrow> write_queue \<Rightarrow> write_queue option) \<Rightarrow>
     (error_code \<Rightarrow> write_queue \<Rightarrow> write_queue option) \<Rightarrow>
     byte list list \<Rightarrow> write_queue \<Rightarrow> bool" for post done' where
  wq_start: "wq_run post done' [] wq_empty"
| wq_post: "wq_run post done' sent q \<Longrightarrow> post f q = Some q' \<Longrightarrow> wq_run post done' (sent @ [f]) q'"
| wq_written:
    "wq_run post done' sent q \<Longrightarrow> wq_writing q = ws @ f # ws' \<Longrightarrow>
     done' Ec_ok (q\<lparr>wq_writing := ws @ ws', wq_wire := wq_wire q @ [f]\<rparr>) = Some q' \<Longrightarrow>
     wq_run post done' sent q'"
| wq_failed:
    "wq_run post done' sent q \<Longrightarrow> wq_writing q = ws @ f # ws' \<Longrightarrow> ec \<noteq> Ec_ok \<Longrightarrow>
     done' ec (q\<lparr>wq_writing := ws @ ws', wq_broken := Some (take n f)\<rparr>) = Some q' \<Longrightarrow>
     wq_run post done' sent q'"

text \<open>The outstanding write completes; so many writes complete one after the other.\<close>

definition complete_write ::
    "(error_code \<Rightarrow> write_queue \<Rightarrow> write_queue option) \<Rightarrow> write_queue \<Rightarrow> write_queue option" where
  "complete_write done' q =
     (case wq_writing q of
        [] \<Rightarrow> None
      | f # ws \<Rightarrow> done' Ec_ok (q\<lparr>wq_writing := ws, wq_wire := wq_wire q @ [f]\<rparr>))"

fun complete_writes ::
    "(error_code \<Rightarrow> write_queue \<Rightarrow> write_queue option) \<Rightarrow> nat \<Rightarrow> write_queue \<Rightarrow> write_queue option" where
  "complete_writes done' 0 q = Some q"
| "complete_writes done' (Suc n) q =
     (case complete_write done' q of None \<Rightarrow> None | Some q' \<Rightarrow> complete_writes done' n q')"

definition wire_bytes :: "write_queue \<Rightarrow> byte list" where
  "wire_bytes q = concat (wq_wire q) @ (case wq_broken q of None \<Rightarrow> [] | Some p \<Rightarrow> p)"

definition wq_inv :: "byte list list \<Rightarrow> write_queue \<Rightarrow> bool" where
  "wq_inv sent q \<longleftrightarrow>
     wq_wire q @ wq_queue q = sent \<and>
     (case wq_broken q of
        None \<Rightarrow> wq_writing q = take 1 (wq_queue q)
      | Some p \<Rightarrow> wq_writing q = [] \<and> wq_queue q \<noteq> [] \<and> prefix p (hd (wq_queue q)))"

locale frame_writer =
  fixes post :: "byte list \<Rightarrow> write_queue \<Rightarrow> write_queue option"
    and done' :: "error_code \<Rightarrow> write_queue \<Rightarrow> write_queue option"
  assumes post_idle:
      "wq_queue q = [] \<Longrightarrow>
       post f q = Some (q\<lparr>wq_queue := [f], wq_writing := wq_writing q @ [f]\<rparr>)"
    and post_busy: "wq_queue q \<noteq> [] \<Longrightarrow> post f q = Some (q\<lparr>wq_queue := wq_queue q @ [f]\<rparr>)"
    and done_last: "wq_queue q = [f] \<Longrightarrow> done' Ec_ok q = Some (q\<lparr>wq_queue := []\<rparr>)"
    and done_more:
      "wq_queue q = f # g # fs \<Longrightarrow>
       done' Ec_ok q = Some (q\<lparr>wq_queue := g # fs, wq_writing := wq_writing q @ [g]\<rparr>)"
    and done_failed: "ec \<noteq> Ec_ok \<Longrightarrow> done' ec q = Some q"
begin

lemma post_inv: "wq_inv sent q \<Longrightarrow> post f q = Some q' \<Longrightarrow> wq_inv (sent @ [f]) q'"
  by (cases "wq_queue q = []")
    (auto simp: wq_inv_def post_idle post_busy take_Cons' Suc_le_eq split: option.splits)

lemma written_inv:
  assumes "wq_inv sent q" "wq_writing q = ws @ f # ws'"
    and "done' Ec_ok (q\<lparr>wq_writing := ws @ ws', wq_wire := wq_wire q @ [f]\<rparr>) = Some q'"
  shows "wq_inv sent q'"
proof -
  from assms(1,2) obtain fs where q: "wq_queue q = f # fs" "ws = []" "ws' = []" "wq_broken q = None"
    by (cases "wq_queue q") (auto simp: wq_inv_def Cons_eq_append_conv split: option.splits)
  then show ?thesis
    using assms(1,3) by (cases fs) (auto simp: wq_inv_def done_last done_more)
qed

lemma failed_inv:
  assumes "wq_inv sent q" "wq_writing q = ws @ f # ws'" "ec \<noteq> Ec_ok"
    and "done' ec (q\<lparr>wq_writing := ws @ ws', wq_broken := Some (take n f)\<rparr>) = Some q'"
  shows "wq_inv sent q'"
proof -
  from assms(1,2) obtain fs where "wq_queue q = f # fs" "ws = []" "ws' = []"
    by (cases "wq_queue q") (auto simp: wq_inv_def Cons_eq_append_conv split: option.splits)
  then show ?thesis
    using assms(1,3,4) by (auto simp: wq_inv_def done_failed take_is_prefix)
qed

lemma run_inv: "wq_run post done' sent q \<Longrightarrow> wq_inv sent q"
proof (induction rule: wq_run.induct)
  case wq_start
  show ?case by (simp add: wq_inv_def wq_empty_def)
qed (blast intro: post_inv written_inv failed_inv)+

lemma run_wire_prefix:
  assumes "wq_run post done' sent q"
  shows "prefix (wire_bytes q) (concat sent)"
proof -
  have inv: "wq_inv sent q" by (rule run_inv) fact
  then have sent: "sent = wq_wire q @ wq_queue q" by (simp add: wq_inv_def)
  show ?thesis
  proof (cases "wq_broken q")
    case None
    then show ?thesis by (simp add: wire_bytes_def sent)
  next
    case (Some p)
    with inv obtain f fs where "wq_queue q = f # fs" "prefix p f"
      by (cases "wq_queue q") (auto simp: wq_inv_def)
    with Some show ?thesis by (auto simp: wire_bytes_def sent prefix_def)
  qed
qed

lemma run_one_write: "wq_run post done' sent q \<Longrightarrow> length (wq_writing q) \<le> 1"
  using run_inv [of sent q] by (auto simp: wq_inv_def split: option.splits)

lemma run_defined:
  assumes "wq_run post done' sent q"
  shows "post f q \<noteq> None"
    and "wq_writing q = ws @ g # ws' \<Longrightarrow>
         done' ec (q\<lparr>wq_writing := ws @ ws', wq_wire := w, wq_broken := b\<rparr>) \<noteq> None"
proof -
  show "post f q \<noteq> None"
    by (cases "wq_queue q = []") (simp_all add: post_idle post_busy)
  assume w: "wq_writing q = ws @ g # ws'"
  from run_inv [OF assms] w obtain fs where "wq_queue q = g # fs"
    by (cases "wq_queue q") (auto simp: wq_inv_def Cons_eq_append_conv split: option.splits)
  then show "done' ec (q\<lparr>wq_writing := ws @ ws', wq_wire := w, wq_broken := b\<rparr>) \<noteq> None"
    by (cases "ec = Ec_ok"; cases fs) (auto simp: done_last done_more done_failed)
qed

text \<open>If the writes keep completing, everything posted gets out.\<close>

lemma run_drains:
  assumes "wq_run post done' sent q" "wq_broken q = None"
  shows "\<exists>q'. complete_writes done' (length (wq_queue q)) q = Some q' \<and> wq_run post done' sent q' \<and>
    wq_wire q' = sent \<and> wq_queue q' = [] \<and> wq_broken q' = None"
  using assms
proof (induction "wq_queue q" arbitrary: q)
  case Nil
  then show ?case using run_inv [of sent q] by (auto simp: wq_inv_def)
next
  case (Cons f fs)
  have writing: "wq_writing q = [] @ f # []"
    using run_inv [OF Cons.prems(1)] Cons.prems(2) Cons.hyps(2) [symmetric] by (simp add: wq_inv_def)
  let ?q = "q\<lparr>wq_writing := [] @ [], wq_wire := wq_wire q @ [f]\<rparr>"
  obtain q' where q': "done' Ec_ok ?q = Some q'" "wq_queue q' = fs" "wq_broken q' = None"
  proof (cases fs)
    case Nil
    with Cons.hyps(2) have "wq_queue ?q = [f]" by simp
    with Nil show ?thesis using that Cons.prems(2) by (simp add: done_last)
  next
    case (Cons g gs)
    with \<open>f # fs = wq_queue q\<close> have "wq_queue ?q = f # g # gs" by simp
    with Cons show ?thesis using that \<open>wq_broken q = None\<close> by (simp add: done_more)
  qed
  have "wq_run post done' sent q'"
    using wq_run.wq_written [OF Cons.prems(1) writing q'(1)] .
  moreover have "complete_write done' q = Some q'"
    using writing q'(1) by (simp add: complete_write_def)
  ultimately show ?case using Cons.hyps(1) [of q'] Cons.hyps(2) [symmetric] q'(2,3) by simp
qed

end

interpretation session_writer: frame_writer post_send handle_write
  by unfold_locales (auto simp: post_send_def handle_write_def do_write_def Let_def)

section \<open>The session object\<close>

record session =
  is_closed :: bool
  userId :: "long_long option"
  username :: "string option"
  Authenticated :: bool

definition new_session :: session where
  "new_session = \<lparr>is_closed = False, userId = None, username = None, Authenticated = False\<rparr>"

text \<open>The second component says whether \<open>server.onDisconnect\<close> is called.\<close>

definition handle_error :: "string \<Rightarrow> error_code \<Rightarrow> session \<Rightarrow> session \<times> bool" where
  "handle_error what ec s =
     (if is_closed s then (s, False)
      else if ec = Ec_operation_aborted then (s, False)
      else (s\<lparr>is_closed := True\<rparr>, True))"

definition setAuthenticated :: "long_long \<Rightarrow> string \<Rightarrow> session \<Rightarrow> session" where
  "setAuthenticated uid name s = s\<lparr>userId := Some uid, username := Some name, Authenticated := True\<rparr>"

definition isAuthenticated :: "session \<Rightarrow> bool" where
  "isAuthenticated s = Authenticated s"

definition getUserId :: "session \<Rightarrow> long_long outcome" where
  "getUserId s =
     (case userId s of None \<Rightarrow> Throw (Logic_error ''User ID not set'') | Some uid \<Rightarrow> Ret uid)"

definition getUsername :: "session \<Rightarrow> string outcome" where
  "getUsername s = (case username s of None \<Rightarrow> Throw Bad_optional_access | Some n \<Rightarrow> Ret n)"

definition setUsername :: "string \<Rightarrow> session \<Rightarrow> session" where
  "setUsername newUsername s = s\<lparr>username := Some newUsername\<rparr>"

definition clearAuthentication :: "session \<Rightarrow> session" where
  "clearAuthentication s = s\<lparr>userId := None, username := None, Authenticated := False\<rparr>"

text \<open>The class invariant: an authenticated session has a user id and a name, so that the getters
  return. Every operation keeps it; no operation takes the authentication away but
  \<open>clearAuthentication\<close>.\<close>

definition session_ok :: "session \<Rightarrow> bool" where
  "session_ok s \<longleftrightarrow> Authenticated s = (userId s \<noteq> None) \<and> Authenticated s = (username s \<noteq> None)"

lemma session_ok_new [simp]: "session_ok new_session"
  by (simp add: session_ok_def new_session_def)

lemma session_ok_setAuthenticated [simp]: "session_ok (setAuthenticated uid n s)"
  by (simp add: session_ok_def setAuthenticated_def)

lemma session_ok_setUsername: "session_ok s \<Longrightarrow> Authenticated s \<Longrightarrow> session_ok (setUsername n s)"
  by (simp add: session_ok_def setUsername_def)

lemma session_ok_clear [simp]: "session_ok (clearAuthentication s)"
  by (simp add: session_ok_def clearAuthentication_def)

lemma session_ok_handle_error: "session_ok s \<Longrightarrow> session_ok (fst (handle_error w ec s))"
  by (auto simp: session_ok_def handle_error_def)

lemma session_ok_getters:
  "session_ok s \<Longrightarrow> Authenticated s \<Longrightarrow> \<exists>uid n. getUserId s = Ret uid \<and> getUsername s = Ret n
     \<and> userId s = Some uid \<and> username s = Some n"
  by (auto simp: session_ok_def getUserId_def getUsername_def)

text \<open>A sequence of errors reported to one session, and how often it called \<open>onDisconnect\<close>.\<close>

fun handle_errors :: "(string \<times> error_code) list \<Rightarrow> session \<Rightarrow> session \<times> nat" where
  "handle_errors [] s = (s, 0)"
| "handle_errors ((what, ec) # es) s =
     (let (s', called) = handle_error what ec s; (s'', n) = handle_errors es s'
      in (s'', n + (if called then 1 else 0)))"

lemma handle_errors_closed: "is_closed s \<Longrightarrow> handle_errors es s = (s, 0)"
  by (induction es) (auto simp: handle_error_def)


section \<open>Properties\<close>

text \<open>C2. Ordering on the wire. Whatever the interleaving of sends, completed and failed writes, at
  most one \<open>async_write\<close> of a session is outstanding, the bytes written are a prefix of the
  concatenation of the frames in the order they were sent (no frame is lost, repeated, reordered
  or mixed with another), and no operation runs into the undefined behaviour of an empty queue.\<close>

theorem session_writes_in_order:
  assumes "wq_run post_send handle_write sent q"
  shows "prefix (wire_bytes q) (concat sent) \<and> length (wq_writing q) \<le> 1
    \<and> (\<forall>f. post_send f q \<noteq> None)
    \<and> (wq_writing q \<noteq> [] \<longrightarrow> (\<forall>ec. handle_write ec (q\<lparr>wq_writing := []\<rparr>) \<noteq> None))"
proof -
  have "handle_write ec (q\<lparr>wq_writing := []\<rparr>) \<noteq> None" if "wq_writing q \<noteq> []" for ec
  proof -
    from that session_writer.run_one_write [OF assms] obtain g where g: "wq_writing q = [] @ g # []"
      by (cases "wq_writing q") auto
    have "q\<lparr>wq_writing := []\<rparr> =
        q\<lparr>wq_writing := [] @ [], wq_wire := wq_wire q, wq_broken := wq_broken q\<rparr>" by simp
    then show ?thesis
      using session_writer.run_defined(2) [OF assms g] by metis
  qed
  then show ?thesis
    using session_writer.run_wire_prefix [OF assms] session_writer.run_one_write [OF assms]
      session_writer.run_defined(1) [OF assms] by blast
qed

lemma session_writes_in_order_witness:
  "\<exists>q. wq_run post_send handle_write [[1], [2, 3]] q \<and> wire_bytes q = [1, 2]
     \<and> prefix (wire_bytes q) (concat [[1], [2, 3]])"
proof -
  let ?q1 = "wq_empty\<lparr>wq_queue := [[1]], wq_writing := [[1]]\<rparr>"
  let ?q2 = "?q1\<lparr>wq_queue := [[1], [2, 3]]\<rparr>"
  let ?q3 = "?q2\<lparr>wq_queue := [[2, 3]], wq_writing := [[2, 3]], wq_wire := [[1]]\<rparr>"
  let ?q4 = "?q3\<lparr>wq_writing := [], wq_broken := Some [2]\<rparr>"
  have "wq_run post_send handle_write ([] @ [[1]]) ?q1"
    by (rule wq_post [OF wq_start]) (simp add: post_send_def do_write_def wq_empty_def)
  then have "wq_run post_send handle_write (([] @ [[1]]) @ [[2, 3]]) ?q2"
    by (rule wq_post) (simp add: post_send_def do_write_def wq_empty_def)
  then have "wq_run post_send handle_write (([] @ [[1]]) @ [[2, 3]]) ?q3"
    by (rule wq_written [where ws = "[]" and ws' = "[]" and f = "[1]"])
      (simp_all add: handle_write_def do_write_def wq_empty_def)
  then have q4: "wq_run post_send handle_write (([] @ [[1]]) @ [[2, 3]]) ?q4"
    by (rule wq_failed [where ws = "[]" and ws' = "[]" and f = "[2, 3]" and ec = Ec_eof and n = 1])
      (simp_all add: handle_write_def wq_empty_def)
  from session_writes_in_order [OF q4]
  have "prefix (wire_bytes ?q4) (concat [[1], [2, 3]])" by simp
  with q4 show ?thesis
    by (intro exI [of _ ?q4]) (simp add: wire_bytes_def wq_empty_def)
qed

text \<open>C3. Nothing stays behind. Take any state of a session's write queue in which no write has failed.
  As long as a frame is queued, a write is outstanding that can complete; and after as many of them
  have completed as frames were queued, one after the other from that very state, all that was sent
  is on the wire in order, the queue is empty and no write is outstanding.\<close>

theorem session_writes_drain:
  assumes "wq_run post_send handle_write sent q" and "wq_broken q = None"
  shows "(wq_queue q \<noteq> [] \<longrightarrow> complete_write handle_write q \<noteq> None) \<and>
    (\<exists>q'. complete_writes handle_write (length (wq_queue q)) q = Some q' \<and>
      wire_bytes q' = concat sent \<and> wq_queue q' = [] \<and> wq_writing q' = [])"
proof -
  obtain q' where q': "complete_writes handle_write (length (wq_queue q)) q = Some q'"
    "wq_run post_send handle_write sent q'" "wq_wire q' = sent" "wq_queue q' = []" "wq_broken q' = None"
    using session_writer.run_drains [OF assms] by blast
  then have "wire_bytes q' = concat sent" "wq_writing q' = []"
    using session_writer.run_inv [OF q'(2)] by (simp_all add: wire_bytes_def wq_inv_def)
  moreover have "complete_write handle_write q \<noteq> None" if "wq_queue q \<noteq> []"
    using q'(1) that by (cases "wq_queue q") (auto split: option.splits)
  ultimately show ?thesis using q'(1,4) by blast
qed

lemma session_writes_drain_witness:
  "\<exists>q q'. post_send [2] (wq_empty\<lparr>wq_queue := [[1]], wq_writing := [[1]]\<rparr>) = Some q \<and>
     wq_queue q = [[1], [2]] \<and> complete_writes handle_write 2 q = Some q' \<and> wire_bytes q' = [1, 2]"
proof -
  let ?q1 = "wq_empty\<lparr>wq_queue := [[1]], wq_writing := [[1]]\<rparr>"
  let ?q2 = "?q1\<lparr>wq_queue := [[1], [2]]\<rparr>"
  have 1: "wq_run post_send handle_write ([] @ [[1]]) ?q1"
    by (rule wq_post [OF wq_start]) (simp add: post_send_def do_write_def wq_empty_def)
  have q: "post_send [2] ?q1 = Some ?q2" by (simp add: post_send_def wq_empty_def)
  have "wq_broken ?q2 = None" by (simp add: wq_empty_def)
  from session_writes_drain [OF wq_post [OF 1 q] this] q show ?thesis
    by (auto simp: numeral_2_eq_2 wq_empty_def)
qed

text \<open>C6. A session is closed at most once: however many of its pending operations fail and with
  whatever codes, \<open>server.onDisconnect\<close> is called at most once, and it is called exactly when
  the session was open and some code was not \<open>operation_aborted\<close>.\<close>

theorem disconnect_at_most_once:
  "snd (handle_errors es s) =
     (if \<not> is_closed s \<and> (\<exists>(what, ec) \<in> set es. ec \<noteq> Ec_operation_aborted) then 1 else 0)"
proof (induction es arbitrary: s)
  case Nil
  then show ?case by simp
next
  case (Cons e es)
  obtain what ec where e: "e = (what, ec)" by (cases e)
  show ?case
  proof (cases "is_closed s \<or> ec = Ec_operation_aborted")
    case True
    then have "handle_error what ec s = (s, False)" by (auto simp: handle_error_def)
    then have "snd (handle_errors (e # es) s) = snd (handle_errors es s)"
      by (simp add: e split: prod.splits)
    also have "\<dots> = (if \<not> is_closed s \<and> (\<exists>(what, ec) \<in> set (e # es). ec \<noteq> Ec_operation_aborted)
        then 1 else 0)"
      using True unfolding Cons.IH e by (cases "is_closed s") simp_all
    finally show ?thesis .
  next
    case False
    then have "handle_error what ec s = (s\<lparr>is_closed := True\<rparr>, True)"
      by (simp add: handle_error_def)
    with False show ?thesis by (auto simp: e handle_errors_closed)
  qed
qed

end
