(* ===== verification/Domain_Model.thy ===== *)
theory Domain_Model
  imports Chat_Prelude
begin

text \<open>
  The data the parts of the system exchange: the entity classes of \<open>common/src/domain\<close> and the
  messages of \<open>common/proto/chat.proto\<close>. A C++ default constructor leaves an id indeterminate; it
  is the argument \<open>junk\<close> of the model's constructors. A protobuf message is a record whose
  default value has every field empty, zero or absent; \<open>mutable_x()->set_y(v)\<close> selects the
  payload and updates the field. Enumerations of proto3 are open, so a request may hold an
  operation the schema does not name.
\<close>

section \<open>Entities\<close>

record user =
  u_id :: long_long
  u_username :: string
  u_hashed_password :: string
  u_salt :: string
  u_created_at :: time_point

record room =
  r_id :: long_long
  r_name :: string
  r_creator_id :: long_long
  r_created_at :: time_point

record message =
  m_id :: long_long
  m_room_id :: long_long
  m_sender_id :: long_long
  m_content :: string
  m_created_at :: time_point

definition new_user :: "long_long \<Rightarrow> user" where
  "new_user junk =
     \<lparr>u_id = junk, u_username = '''', u_hashed_password = '''', u_salt = '''', u_created_at = 0\<rparr>"

definition new_room :: "long_long \<Rightarrow> room" where
  "new_room junk = \<lparr>r_id = junk, r_name = '''', r_creator_id = junk, r_created_at = 0\<rparr>"

definition new_message :: "long_long \<Rightarrow> message" where
  "new_message junk =
     \<lparr>m_id = junk, m_room_id = junk, m_sender_id = junk, m_content = '''', m_created_at = 0\<rparr>"

section \<open>Protocol messages\<close>

record timestamp =
  ts_seconds :: long_long
  ts_nanos :: int32

datatype room_operation = JOIN | LEAVE | CREATE | Other_operation nat

datatype user_event_type = USER_JOINED | USER_LEFT

record login_request =
  lq_username :: string
  lq_password :: string

record login_response =
  lp_success :: bool
  lp_message :: string
  lp_user_id :: string

record registration_request =
  gq_username :: string
  gq_password :: string

record registration_response =
  gp_success :: bool
  gp_message :: string

record change_password_request =
  pq_old_password :: string
  pq_new_password :: string

record change_password_response =
  pp_success :: bool
  pp_message :: string

record change_username_request =
  nq_new_username :: string

record change_username_response =
  np_success :: bool
  np_message :: string
  np_new_username :: string

record public_message =
  pm_content :: string

record message_broadcast =
  mb_from_user_id :: string
  mb_from_username :: string
  mb_content :: string
  mb_timestamp :: "timestamp option"
  mb_room_name :: "string option"

record private_message_request =
  vq_to_username :: string
  vq_content :: string

record room_operation_request =
  oq_operation :: room_operation
  oq_room_name :: string

record room_operation_response =
  op_success :: bool
  op_operation :: room_operation
  op_room_name :: string
  op_message :: string

record history_message_request =
  hq_room_name :: string
  hq_limit :: int32

record history_message_response =
  hp_room_name :: string
  hp_messages :: "message_broadcast list"

record server_notification =
  sn_event_type :: user_event_type
  sn_user_id :: string
  sn_username :: string
  sn_message :: string

record error_response =
  er_original_message_id :: string
  er_error_code :: int32
  er_error_message :: string

datatype payload =
    LoginRequest login_request
  | LoginResponse login_response
  | RegistrationRequest registration_request
  | RegistrationResponse registration_response
  | ChangePasswordRequest change_password_request
  | ChangePasswordResponse change_password_response
  | ChangeUsernameRequest change_username_request
  | ChangeUsernameResponse change_username_response
  | PublicMessage public_message
  | MessageBroadcast message_broadcast
  | PrivateMessageRequest private_message_request
  | RoomOperationRequest room_operation_request
  | RoomOperationResponse room_operation_response
  | HistoryMessageRequest history_message_request
  | HistoryMessageResponse history_message_response
  | ServerNotification server_notification
  | ErrorResponse error_response

text \<open>No payload set is \<open>None\<close>.\<close>

record envelope =
  message_id :: string
  payload :: "payload option"

definition envelope_with :: "payload \<Rightarrow> envelope" where
  "envelope_with p = \<lparr>message_id = '''', payload = Some p\<rparr>"

definition error_response_default :: error_response where
  "error_response_default =
     \<lparr>er_original_message_id = '''', er_error_code = 0, er_error_message = ''''\<rparr>"

definition room_operation_response_default :: room_operation_response where
  "room_operation_response_default =
     \<lparr>op_success = False, op_operation = JOIN, op_room_name = '''', op_message = ''''\<rparr>"

definition message_broadcast_default :: message_broadcast where
  "message_broadcast_default =
     \<lparr>mb_from_user_id = '''', mb_from_username = '''', mb_content = '''',
      mb_timestamp = None, mb_room_name = None\<rparr>"

definition change_username_response_default :: change_username_response where
  "change_username_response_default =
     \<lparr>np_success = False, np_message = '''', np_new_username = ''''\<rparr>"

text \<open>An envelope with an error message, and one with a code as well.\<close>

definition error_envelope :: "string \<Rightarrow> envelope" where
  "error_envelope msg =
     envelope_with (ErrorResponse (error_response_default\<lparr>er_error_message := msg\<rparr>))"

definition error_code_envelope :: "string \<Rightarrow> int32 \<Rightarrow> envelope" where
  "error_code_envelope msg code =
     envelope_with (ErrorResponse
       (error_response_default\<lparr>er_error_message := msg, er_error_code := code\<rparr>))"

definition notification_envelope ::
    "user_event_type \<Rightarrow> string \<Rightarrow> string \<Rightarrow> string \<Rightarrow> envelope" where
  "notification_envelope ev uid name msg =
     envelope_with (ServerNotification
       \<lparr>sn_event_type = ev, sn_user_id = uid, sn_username = name, sn_message = msg\<rparr>)"

lemma message_id_envelope_with [simp]: "message_id (envelope_with p) = ''''"
  by (simp add: envelope_with_def)

lemma payload_envelope_with [simp]: "payload (envelope_with p) = Some p"
  by (simp add: envelope_with_def)

text \<open>No envelope of these names the request it answers.\<close>

definition anonymous_reply :: "envelope \<Rightarrow> bool" where
  "anonymous_reply e \<longleftrightarrow> message_id e = '''' \<and>
     (case payload e of Some (ErrorResponse r) \<Rightarrow> er_original_message_id r = '''' | _ \<Rightarrow> True)"

lemma anonymous_replies [simp]:
  "anonymous_reply (error_envelope msg)"
  "anonymous_reply (error_code_envelope msg code)"
  "anonymous_reply (notification_envelope ev uid name msg)"
  "(\<And>r. p \<noteq> ErrorResponse r) \<Longrightarrow> anonymous_reply (envelope_with p)"
  by (auto simp: anonymous_reply_def error_envelope_def error_code_envelope_def
      notification_envelope_def error_response_default_def split: payload.splits)

end
