(* ===== verification/Connection_Pool.thy ===== *)
theory Connection_Pool
  imports Chat_Prelude
begin

text \<open>
  \<open>server/src/data/ConnectionPool.h\<close> and \<open>.cpp\<close>: the pool of database connections and the wrapper
  that gives a connection back at the end of a scope. A connection is a handle (\<open>conn\<close>); the
  constructor of \<open>soci::session\<close>, which connects, is the parameter \<open>connect\<close>: what the n-th
  attempt with a connection string gives. \<open>getConnection\<close> waits on a condition variable while
  the pool is empty; with nobody to signal it the call does not return (\<open>Block\<close>).
\<close>

type_synonym conn = nat
type_synonym connector = "string \<Rightarrow> nat \<Rightarrow> exn + conn"

text \<open>
  \<open>cp_instance\<close>: the singleton exists; \<open>cp_free\<close>: the vector \<open>ConPool\<close>; \<open>cp_pending\<close>: the
  replenishing handlers posted to the io_context and not run yet; \<open>cp_attempts\<close>: the connections
  attempted so far.
\<close>

record pool =
  cp_instance :: bool
  cp_free :: "conn list"
  cp_connectionString :: string
  cp_poolSize :: int
  cp_pending :: nat
  cp_attempts :: nat

definition no_pool :: pool where
  "no_pool = \<lparr>cp_instance = False, cp_free = [], cp_connectionString = '''', cp_poolSize = 0,
     cp_pending = 0, cp_attempts = 0\<rparr>"

definition initInstance :: "pool \<Rightarrow> pool" where
  "initInstance p = (if \<not> cp_instance p then no_pool\<lparr>cp_instance := True\<rparr> else p)"

definition getInstance :: "pool \<Rightarrow> unit outcome" where
  "getInstance p =
     (if \<not> cp_instance p
      then Throw (Runtime_error
        ''ConnectionPool has not been initialized. Call initInstance first.'')
      else Ret ())"

definition connect_once :: "connector \<Rightarrow> pool \<Rightarrow> (exn + conn) \<times> pool" where
  "connect_once connect p =
     (connect (cp_connectionString p) (cp_attempts p), p\<lparr>cp_attempts := Suc (cp_attempts p)\<rparr>)"

fun init_loop :: "connector \<Rightarrow> nat \<Rightarrow> pool \<Rightarrow> unit outcome \<times> pool" where
  "init_loop connect 0 p = (Ret (), p)"
| "init_loop connect (Suc n) p =
     (case connect_once connect p of
        (Inl e, p') \<Rightarrow> (Throw e, p')
      | (Inr c, p') \<Rightarrow> init_loop connect n (p'\<lparr>cp_free := cp_free p' @ [c]\<rparr>))"

definition init :: "connector \<Rightarrow> string \<Rightarrow> int \<Rightarrow> pool \<Rightarrow> unit outcome \<times> pool" where
  "init connect connStr sz p =
     (if cp_free p \<noteq> [] then (Ret (), p)
      else init_loop connect (nat sz) (p\<lparr>cp_connectionString := connStr, cp_poolSize := sz\<rparr>))"

definition getConnection :: "pool \<Rightarrow> conn outcome \<times> pool" where
  "getConnection p =
     (if cp_free p = [] then (Block, p)
      else (Ret (last (cp_free p)), p\<lparr>cp_free := butlast (cp_free p)\<rparr>))"

definition returnConnection :: "conn \<Rightarrow> pool \<Rightarrow> pool" where
  "returnConnection c p = p\<lparr>cp_free := cp_free p @ [c]\<rparr>"

definition replenishConnectionAsync :: "pool \<Rightarrow> pool" where
  "replenishConnectionAsync p = p\<lparr>cp_pending := Suc (cp_pending p)\<rparr>"

text \<open>The posted handler; the second component says whether it brought a connection.\<close>

definition replenish_task :: "connector \<Rightarrow> pool \<Rightarrow> pool \<times> bool" where
  "replenish_task connect p =
     (let p0 = p\<lparr>cp_pending := cp_pending p - 1\<rparr>
      in case connect_once connect p0 of
           (Inr new_conn, p') \<Rightarrow> (returnConnection new_conn p', True)
         | (Inl e, p') \<Rightarrow> (p', False))"

text \<open>The destructor of \<open>ConnectionWrapper\<close>.\<close>

definition wrapper_destroy :: "conn \<Rightarrow> bool \<Rightarrow> pool \<Rightarrow> pool" where
  "wrapper_destroy c is_valid p =
     (if is_valid then returnConnection c p else replenishConnectionAsync p)"

text \<open>What the pool can still count on: connections in the vector and connections promised.\<close>

definition capacity :: "pool \<Rightarrow> nat" where
  "capacity p = length (cp_free p) + cp_pending p"

lemma capacity_getConnection:
  "getConnection p = (Ret c, p') \<Longrightarrow> capacity p = Suc (capacity p')"
  by (auto simp: getConnection_def capacity_def split: if_splits)

lemma capacity_destroy [simp]: "capacity (wrapper_destroy c v p) = Suc (capacity p)"
  by (simp add: wrapper_destroy_def returnConnection_def replenishConnectionAsync_def capacity_def)

lemma instance_getConnection [simp]: "cp_instance (snd (getConnection p)) = cp_instance p"
  by (simp add: getConnection_def)

lemma instance_destroy [simp]: "cp_instance (wrapper_destroy c v p) = cp_instance p"
  by (simp add: wrapper_destroy_def returnConnection_def replenishConnectionAsync_def)

lemma capacity_replenish:
  "0 < cp_pending p \<Longrightarrow> replenish_task connect p = (p', ok) \<Longrightarrow>
   capacity p' + (if ok then 0 else 1) = capacity p"
  by (auto simp: replenish_task_def connect_once_def returnConnection_def capacity_def Let_def
      split: sum.splits)

lemma init_loop_ok:
  "init_loop connect n p = (Ret (), p') \<Longrightarrow>
   length (cp_free p') = length (cp_free p) + n \<and> cp_pending p' = cp_pending p
   \<and> cp_instance p' = cp_instance p"
  by (induction n arbitrary: p) (auto simp: connect_once_def split: sum.splits)

lemma init_loop_string:
  "init_loop connect n p = (Ret (), p') \<Longrightarrow> cp_connectionString p' = cp_connectionString p"
  by (induction n arbitrary: p) (auto simp: connect_once_def split: sum.splits)

lemma init_fresh:
  assumes "init connect str sz (initInstance no_pool) = (Ret (), p)"
  shows "length (cp_free p) = nat sz" "cp_pending p = 0" "cp_connectionString p = str"
  using assms init_loop_ok [of connect "nat sz" _ p] init_loop_string [of connect "nat sz" _ p]
  by (auto simp: init_def initInstance_def no_pool_def)

lemma fresh_instance:
  "init connect str sz (initInstance no_pool) = (Ret (), p) \<Longrightarrow> cp_instance p"
  using init_loop_ok [of connect "nat sz" _ p]
  by (auto simp: init_def initInstance_def no_pool_def)

section \<open>Properties\<close>

text \<open>A handler's use of the pool: one connection taken, kept for a scope, released.\<close>

datatype pool_use = Scope bool | Replenish

fun pool_event :: "connector \<Rightarrow> pool_use \<Rightarrow> pool \<Rightarrow> pool option" where
  "pool_event connect (Scope is_valid) p =
     (case getConnection p of (Ret c, p') \<Rightarrow> Some (wrapper_destroy c is_valid p') | _ \<Rightarrow> None)"
| "pool_event connect Replenish p =
     (if 0 < cp_pending p then Some (fst (replenish_task connect p)) else None)"

fun pool_events :: "connector \<Rightarrow> pool_use list \<Rightarrow> pool \<Rightarrow> pool option" where
  "pool_events connect [] p = Some p"
| "pool_events connect (e # es) p =
     (case pool_event connect e p of None \<Rightarrow> None | Some p' \<Rightarrow> pool_events connect es p')"

text \<open>C7. Connections are conserved. After \<open>init\<close> with a size, whatever handlers use connections in
  whatever order, valid or broken at the end of their scope, and whenever the replenishing tasks
  run, the connections in the pool and those promised to it stay as many as that size, provided
  the replenishing attempts succeed; so a handler never waits while none is being replenished.\<close>

theorem pool_conservation:
  assumes "init connect str sz (initInstance no_pool) = (Ret (), p)" and "0 \<le> sz"
    and "pool_events connect es p = Some q"
    and "\<And>n. \<exists>c. connect str n = Inr c"
  shows "int (capacity q) = sz \<and> (cp_pending q = 0 \<longrightarrow> int (length (cp_free q)) = sz)"
proof -
  have p: "capacity p = nat sz" "cp_connectionString p = str"
    using init_fresh [OF assms(1)] by (simp_all add: capacity_def)
  have "pool_events connect es p0 = Some q \<Longrightarrow> cp_connectionString p0 = str \<Longrightarrow>
      capacity q = capacity p0" for p0
  proof (induction es arbitrary: p0)
    case Nil
    then show ?case by simp
  next
    case (Cons e es)
    then obtain p1 where step: "pool_event connect e p0 = Some p1"
      and rest: "pool_events connect es p1 = Some q" by (auto split: option.splits)
    have "capacity p1 = capacity p0 \<and> cp_connectionString p1 = str"
    proof (cases e)
      case (Scope v)
      with step Cons.prems(2) show ?thesis
        by (auto simp: getConnection_def wrapper_destroy_def returnConnection_def
            replenishConnectionAsync_def capacity_def split: if_splits)
    next
      case Replenish
      obtain c where "connect str (cp_attempts p0) = Inr c" using assms(4) by blast
      with Replenish step Cons.prems(2) show ?thesis
        by (auto simp: replenish_task_def connect_once_def returnConnection_def capacity_def Let_def
            split: if_splits)
    qed
    with Cons.IH [OF rest] show ?case by simp
  qed
  from this [OF assms(3) p(2)] p(1) assms(2) have "int (capacity q) = sz" by simp
  then show ?thesis by (auto simp: capacity_def)
qed

lemma pool_conservation_witness:
  "\<exists>p q. init (\<lambda>s n. Inr n) ''db'' 2 (initInstance no_pool) = (Ret (), p)
     \<and> pool_events (\<lambda>s n. Inr n) [Scope False, Scope True, Replenish] p = Some q
     \<and> int (capacity q) = 2 \<and> cp_free q = [0, 2]"
proof -
  let ?c = "\<lambda>s n. Inr n :: exn + conn"
  let ?p = "snd (init ?c ''db'' 2 (initInstance no_pool))"
  let ?q = "the (pool_events ?c [Scope False, Scope True, Replenish] ?p)"
  have ev: "init ?c ''db'' 2 (initInstance no_pool) = (Ret (), ?p)"
    "pool_events ?c [Scope False, Scope True, Replenish] ?p = Some ?q" "cp_free ?q = [0, 2]"
    by (simp_all add: init_def initInstance_def no_pool_def connect_once_def getConnection_def
        wrapper_destroy_def returnConnection_def replenishConnectionAsync_def replenish_task_def
        numeral_2_eq_2)
  have "int (capacity ?q) = 2"
    using pool_conservation [OF ev(1) _ ev(2)] by simp
  with ev show ?thesis by (intro exI conjI)
qed

end
