(* ===== verification/Util_Functions.thy ===== *)
theory Util_Functions
  imports Domain_Model "HOL-Library.Signed_Division"
begin

text \<open>
  \<open>server/src/util\<close>: the conversion of time points to protobuf timestamps (\<open>TimeConvert.cpp\<close>) and
  the salts and password hashes of \<open>Crypto.cpp\<close>. The number of clock ticks in a second depends on
  the C++ library (a thousand million for libstdc++), so it is a parameter. SHA-256 and the
  random source of OpenSSL are parameters.
\<close>

section \<open>Time points\<close>

text \<open>
  \<open>duration_cast\<close> to a coarser unit divides and truncates towards zero, to a finer one it
  multiplies. \<open>tps\<close>: ticks per second.
\<close>

definition convertTimePointToTimestamp :: "int \<Rightarrow> time_point \<Rightarrow> timestamp" where
  "convertTimePointToTimestamp tps tp =
     (let duration = tp;
          seconds = duration sdiv tps;
          nanoseconds = (duration - seconds * tps) * (10 ^ 9 div tps)
      in \<lparr>ts_seconds = word_of_int seconds, ts_nanos = word_of_int nanoseconds\<rparr>)"

definition from_time_t :: "int \<Rightarrow> int \<Rightarrow> time_point" where
  "from_time_t tps t = t * tps"

lemma sdiv_remainder:
  fixes a :: int
  assumes "0 < b"
  shows "\<bar>a - a sdiv b * b\<bar> < b" and "0 \<le> a \<Longrightarrow> 0 \<le> a - a sdiv b * b"
    and "a \<le> 0 \<Longrightarrow> a - a sdiv b * b \<le> 0" and "\<bar>a sdiv b\<bar> \<le> \<bar>a\<bar>"
proof -
  have pos: "a sdiv b = (if 0 \<le> a then a div b else - (- a div b))"
    using assms by (simp add: signed_divide_int_def sgn_if)
  have m: "x - x div b * b = x mod b" for x :: int
    by (simp add: minus_div_mult_eq_mod)
  have neg: "a - - (- a div b) * b = - (- a mod b)"
    using m [of "- a"] by simp
  have bnd: "0 \<le> x mod b" "x mod b < b" for x
    using assms by simp_all
  show "\<bar>a - a sdiv b * b\<bar> < b"
    using bnd [of a] bnd [of "- a"] by (simp only: pos m neg split: if_split) auto
  show "0 \<le> a \<Longrightarrow> 0 \<le> a - a sdiv b * b"
    using bnd [of a] by (simp only: pos m if_True)
  show "a \<le> 0 \<Longrightarrow> a - a sdiv b * b \<le> 0"
    using bnd [of "- a"] by (cases "a = 0") (simp_all only: pos neg split: if_split, auto)
  have "x div b \<le> x" if "0 \<le> x" for x
    using that assms zdiv_mono2 [of x 1 b] by simp
  then show "\<bar>a sdiv b\<bar> \<le> \<bar>a\<bar>"
    using assms by (simp add: pos pos_imp_zdiv_nonneg_iff)
qed

section \<open>Hexadecimal text\<close>

definition hex_digits :: string where
  "hex_digits = ''0123456789abcdef''"

text \<open>\<open>std::hex\<close> prints no leading zero; \<open>setw(2)\<close> and \<open>setfill('0')\<close> pad on the left.\<close>

fun hex_nat :: "nat \<Rightarrow> string" where
  "hex_nat n =
     (if n < 16 then [hex_digits ! n] else hex_nat (n div 16) @ [hex_digits ! (n mod 16)])"

declare hex_nat.simps [simp del]

definition setw_fill :: "nat \<Rightarrow> char \<Rightarrow> string \<Rightarrow> string" where
  "setw_fill w c s = replicate (w - length s) c @ s"

definition hex_byte :: "byte \<Rightarrow> string" where
  "hex_byte b = setw_fill 2 CHR ''0'' (hex_nat (unat b))"

definition to_hex :: "byte list \<Rightarrow> string" where
  "to_hex bs = concat (map hex_byte bs)"

lemma hex_digit_inj:
  assumes "a < 16" "b < 16" "hex_digits ! a = hex_digits ! b"
  shows "a = b"
proof -
  have "distinct hex_digits" "length hex_digits = 16" by (simp_all add: hex_digits_def)
  with assms show ?thesis by (simp add: nth_eq_iff_index_eq)
qed

lemma hex_byte_eq: "hex_byte b = [hex_digits ! (unat b div 16), hex_digits ! (unat b mod 16)]"
proof -
  have "unat b < 256" by (rule byte_less)
  then have "unat b div 16 < 16" by simp
  moreover have "hex_digits ! 0 = CHR ''0''" by (simp add: hex_digits_def)
  ultimately show ?thesis
    by (auto simp: hex_byte_def setw_fill_def hex_nat.simps [of "unat b"]
        hex_nat.simps [of "unat b div 16"])
qed

lemma length_hex_byte [simp]: "length (hex_byte b) = 2"
  by (simp add: hex_byte_eq)

lemma hex_byte_inj: "hex_byte a = hex_byte b \<Longrightarrow> a = b"
proof -
  assume "hex_byte a = hex_byte b"
  moreover have "unat a < 256" "unat b < 256"
    by (rule byte_less)+
  ultimately have "unat a div 16 = unat b div 16" "unat a mod 16 = unat b mod 16"
    by (auto simp: hex_byte_eq intro: hex_digit_inj)
  then have "unat a div 16 * 16 + unat a mod 16 = unat b div 16 * 16 + unat b mod 16"
    by (simp only:)
  then have "unat a = unat b" by (simp only: div_mult_mod_eq)
  then show "a = b" by (rule unsigned_word_eqI)
qed

lemma length_to_hex [simp]: "length (to_hex bs) = 2 * length bs"
  by (induction bs) (auto simp: to_hex_def)

lemma to_hex_inj: "to_hex xs = to_hex ys \<Longrightarrow> xs = ys"
proof (induction xs arbitrary: ys)
  case Nil
  then show ?case by (cases ys) (auto simp: to_hex_def hex_byte_eq)
next
  case (Cons x xs)
  then obtain y ys' where ys: "ys = y # ys'"
    by (cases ys) (auto simp: to_hex_def hex_byte_eq)
  with Cons.prems have "hex_byte x @ to_hex xs = hex_byte y @ to_hex ys'"
    by (simp add: to_hex_def)
  then have "hex_byte x = hex_byte y" "to_hex xs = to_hex ys'"
    by (simp_all add: append_eq_append_conv)
  then show ?case using Cons.IH ys by (auto dest: hex_byte_inj)
qed

section \<open>Crypto\<close>

text \<open>\<open>rand n\<close>: what \<open>RAND_bytes\<close> puts into a buffer of \<open>n\<close> bytes, or its failure.\<close>

definition generateSalt :: "(nat \<Rightarrow> byte list option) \<Rightarrow> nat \<Rightarrow> string outcome" where
  "generateSalt rand len =
     (case rand len of
        None \<Rightarrow> Throw (Runtime_error ''Failed to generate random salt.'')
      | Some buffer \<Rightarrow> Ret (to_hex buffer))"

definition default_salt_length :: nat where
  "default_salt_length = 16"

definition sha256_digest_length :: nat where
  "sha256_digest_length = 32"

text \<open>\<open>sha256 s\<close>: the digest array that \<open>SHA256_Final\<close> fills after one update with \<open>s\<close>.\<close>

definition hashPassword :: "(string \<Rightarrow> byte list) \<Rightarrow> string \<Rightarrow> string \<Rightarrow> string" where
  "hashPassword sha256 password salt =
     (let to_hash = password @ salt; hash = sha256 to_hash
      in concat (map (\<lambda>i. hex_byte (hash ! i)) [0..<sha256_digest_length]))"

lemma hashPassword_to_hex:
  assumes "length (sha256 (p @ s)) = sha256_digest_length"
  shows "hashPassword sha256 p s = to_hex (sha256 (p @ s))"
proof -
  have "map (\<lambda>i. hex_byte (sha256 (p @ s) ! i)) [0..<sha256_digest_length] =
      map hex_byte (map ((!) (sha256 (p @ s))) [0..<length (sha256 (p @ s))])"
    by (simp add: assms)
  then show ?thesis
    by (simp add: hashPassword_def to_hex_def map_nth Let_def del: map_map)
qed

section \<open>Properties\<close>

text \<open>C9. The timestamp of a time point denotes the same instant: seconds and nanoseconds add up to
  the ticks, no conversion to a protobuf field loses a bit, and the nanoseconds are between minus
  and plus one second and carry the sign of the instant. From the epoch on they are in
  protobuf's range; before it they are not, unless the instant is a whole second.\<close>

theorem timestamp_exact:
  assumes "0 < tps" "tps dvd 10 ^ 9" "- (2 ^ 63) \<le> tp" "tp < 2 ^ 63"
    and ts: "ts = convertTimePointToTimestamp tps tp"
  shows "sint (ts_seconds ts) * 10 ^ 9 + sint (ts_nanos ts) = tp * (10 ^ 9 div tps)
    \<and> \<bar>sint (ts_nanos ts)\<bar> < 10 ^ 9
    \<and> (0 \<le> tp \<longrightarrow> 0 \<le> sint (ts_nanos ts))
    \<and> (tp < 0 \<longrightarrow> sint (ts_nanos ts) \<le> 0 \<and> (sint (ts_nanos ts) = 0 \<longleftrightarrow> tps dvd tp))"
proof -
  let ?q = "tp sdiv tps" and ?k = "10 ^ 9 div tps :: int"
  let ?r = "tp - ?q * tps"
  note d = sdiv_remainder [OF assms(1), of tp]
  have k: "?k * tps = 10 ^ 9" using assms(2) by simp
  have kpos: "0 < ?k" using k assms(1) by (metis zero_less_mult_pos2 zero_less_numeral zero_less_power)
  have "\<bar>?q\<bar> \<le> 2 ^ 63" using d(4) assms(3,4) by linarith
  moreover have "?q \<noteq> 2 ^ 63"
  proof
    assume "?q = 2 ^ 63"
    with d(4) assms(3,4) have "tp = - (2 ^ 63)" by linarith
    with d(3) \<open>?q = 2 ^ 63\<close> assms(1) have "- (2 ^ 63) - 2 ^ 63 * tps \<le> 0"
      and "\<bar>- (2 ^ 63) - 2 ^ 63 * tps\<bar> < tps"
      using d(1) by simp_all
    then show False using assms(1) by simp
  qed
  ultimately have q: "- (2 ^ 63) \<le> ?q" "?q < 2 ^ 63" by linarith+
  have abs_nk: "\<bar>?r * ?k\<bar> = \<bar>?r\<bar> * ?k" using kpos by (simp add: abs_mult)
  have "\<bar>?r\<bar> * ?k < tps * ?k" using d(1) kpos by (rule mult_strict_right_mono)
  with abs_nk k have n: "\<bar>?r * ?k\<bar> < 10 ^ 9" by (simp add: mult.commute)
  have sec: "sint (ts_seconds ts) = ?q"
    by (simp only: ts convertTimePointToTimestamp_def Let_def timestamp.simps sint_long_long q)
  have nan: "sint (ts_nanos ts) = ?r * ?k"
    using n by (simp only: ts convertTimePointToTimestamp_def Let_def timestamp.simps)
      (rule sint_int32, simp_all)
  have "?q * (?k * tps) + ?r * ?k = tp * ?k"
    by (simp add: algebra_simps)
  then have "?q * 10 ^ 9 + ?r * ?k = tp * ?k" by (simp only: k)
  moreover have "?r * ?k = 0 \<longleftrightarrow> tps dvd tp"
  proof
    assume "?r * ?k = 0"
    with kpos have "tp = ?q * tps" by simp
    then show "tps dvd tp" by (metis dvd_triv_right)
  next
    assume "tps dvd tp"
    then have "tps dvd ?r" by (simp add: dvd_diff)
    with d(1) have "?r = 0" using zdvd_not_zless [of "\<bar>?r\<bar>" tps] by fastforce
    then show "?r * ?k = 0" by simp
  qed
  moreover have "0 \<le> tp \<Longrightarrow> 0 \<le> ?r * ?k" "tp < 0 \<Longrightarrow> ?r * ?k \<le> 0"
    using d(2,3) kpos by (simp_all add: mult_nonpos_nonneg)
  ultimately show ?thesis using sec nan n by simp
qed

lemma timestamp_exact_witness:
  "sint (ts_seconds (convertTimePointToTimestamp (10 ^ 9) (- 1500000000))) * 10 ^ 9
     + sint (ts_nanos (convertTimePointToTimestamp (10 ^ 9) (- 1500000000)))
   = - 1500000000 * (10 ^ 9 div 10 ^ 9)"
  using timestamp_exact [of "10 ^ 9" "- 1500000000", OF _ _ _ _ refl] by simp

text \<open>C10. Salts and hashes are text of fixed length over the hexadecimal digits, and the encoding
  loses nothing: different byte strings have different text.\<close>

theorem hex_encoding_injective:
  "length (to_hex xs) = 2 * length xs \<and> set (to_hex xs) \<subseteq> set hex_digits
   \<and> (to_hex xs = to_hex ys \<longleftrightarrow> xs = ys)"
proof -
  have "set (hex_byte b) \<subseteq> set hex_digits" for b
  proof -
    have "unat b < 256" by (rule byte_less)
    then have "unat b div 16 < length hex_digits" "unat b mod 16 < length hex_digits"
      by (simp_all add: hex_digits_def)
    then show ?thesis by (simp add: hex_byte_eq)
  qed
  then have "set (to_hex xs) \<subseteq> set hex_digits" by (auto simp: to_hex_def)
  then show ?thesis using to_hex_inj by auto
qed

end
