(* ===== verification/Data_Access.thy ===== *)
theory Data_Access
  imports Connection_Pool Util_Functions
begin

text \<open>
  What the three MySQL repositories (\<open>server/src/data\<close>) share: the database behind SOCI as a
  parameter, the borrowing of a connection, the transaction, and the ladder of \<open>catch\<close> clauses
  that ends every repository method.

  SOCI and the MySQL server are not part of the repository: they are the fields of \<open>env\<close>, one
  function per kind of statement, over an arbitrary type \<open>'db\<close> of database states. Each
  statement text of the source is a constructor of a query type, with the values bound to its
  placeholders. A row holds the columns as the schema types them; an absent value is the
  indicator \<open>i_null\<close>. The predicate \<open>engine_ok\<close> states what MySQL documents of these statements
  for the schema of \<open>schema.sql\<close>; it is a hypothesis of the properties that need it.
\<close>

section \<open>Rows and statements\<close>

record tm =
  tm_sec :: int
  tm_min :: int
  tm_hour :: int
  tm_mday :: int
  tm_mon :: int
  tm_year :: int

record user_row =
  ur_id :: "int32 option"
  ur_username :: "string option"
  ur_hashed_password :: "string option"
  ur_salt :: "string option"
  ur_created_at :: "tm option"

record room_row =
  rr_id :: "int32 option"
  rr_name :: "string option"
  rr_creator_id :: "int32 option"
  rr_created_at :: "tm option"

record message_row =
  mr_id :: "long_long option"
  mr_room_id :: "int32 option"
  mr_sender_id :: "int32 option"
  mr_content :: "string option"
  mr_created_at :: "tm option"

datatype sql_value = V_text string | V_int long_long

datatype user_query = Users_by_username string | Users_by_id long_long | Users_all

datatype room_query = Rooms_by_name sql_value | Rooms_by_creator long_long | Rooms_all

datatype message_query =
    Messages_by_id long_long
  | Messages_by_sender long_long
  | Messages_by_room long_long
  | Messages_by_content string
  | Messages_latest long_long int32

datatype table = T_users | T_rooms | T_messages

datatype sql_insert =
    Insert_user string string string
  | Insert_room string long_long
  | Insert_message long_long long_long string

datatype sql_change =
    Update_user string string string long_long
  | Update_room string long_long
  | Delete_row table long_long

text \<open>
  \<open>db_created\<close> is the query for \<open>created_at\<close> of a row just inserted: no row, or the value.
\<close>

record 'db env =
  db_begin :: "conn \<Rightarrow> 'db \<Rightarrow> (exn + unit) \<times> 'db"
  db_commit :: "conn \<Rightarrow> 'db \<Rightarrow> (exn + unit) \<times> 'db"
  db_rollback :: "conn \<Rightarrow> 'db \<Rightarrow> 'db"
  db_users :: "conn \<Rightarrow> user_query \<Rightarrow> 'db \<Rightarrow> (exn + user_row list) \<times> 'db"
  db_rooms :: "conn \<Rightarrow> room_query \<Rightarrow> 'db \<Rightarrow> (exn + room_row list) \<times> 'db"
  db_messages :: "conn \<Rightarrow> message_query \<Rightarrow> 'db \<Rightarrow> (exn + message_row list) \<times> 'db"
  db_insert :: "conn \<Rightarrow> sql_insert \<Rightarrow> 'db \<Rightarrow> (exn + unit) \<times> 'db"
  db_last_id :: "conn \<Rightarrow> table \<Rightarrow> 'db \<Rightarrow> (exn + long_long option) \<times> 'db"
  db_created :: "conn \<Rightarrow> table \<Rightarrow> long_long \<Rightarrow> 'db \<Rightarrow> (exn + tm option option) \<times> 'db"
  db_change :: "conn \<Rightarrow> sql_change \<Rightarrow> 'db \<Rightarrow> (exn + nat) \<times> 'db"
  e_connect :: connector
  e_mktime :: "tm \<Rightarrow> int"
  e_tps :: int
  e_now :: "nat \<Rightarrow> time_point"
  e_proto_now :: "nat \<Rightarrow> timestamp"
  e_rand :: "nat \<Rightarrow> nat \<Rightarrow> byte list option"
  e_sha256 :: "string \<Rightarrow> byte list"
  e_junk :: long_long

text \<open>
  The state a repository works on: the database, the pool, and how often the clock and the
  random source have been read (their n-th readings are \<open>e_now n\<close> and \<open>e_rand n\<close>).
\<close>

record 'db data_state =
  ds_db :: 'db
  ds_pool :: pool
  ds_clock :: nat
  ds_draws :: nat

section \<open>Borrowing a connection\<close>

definition read_clock :: "'db env \<Rightarrow> (('db, 'z) data_state_scheme, time_point) comp" where
  "read_clock E s = (Ret (e_now E (ds_clock s)), s\<lparr>ds_clock := Suc (ds_clock s)\<rparr>)"

definition db_call ::
    "('db \<Rightarrow> (exn + 'a) \<times> 'db) \<Rightarrow> (('db, 'z) data_state_scheme, 'a) comp" where
  "db_call f s =
     (case f (ds_db s) of
        (Inl e, d) \<Rightarrow> (Throw e, s\<lparr>ds_db := d\<rparr>)
      | (Inr a, d) \<Rightarrow> (Ret a, s\<lparr>ds_db := d\<rparr>))"

text \<open>
  The \<open>catch\<close> clauses, in their order: a \<open>soci_error\<close> by category (no data; connection and
  system errors, which mark the connection invalid; all others, which are thrown on), then any
  other standard exception. The result is the method's outcome and the wrapper's \<open>is_valid\<close>.
\<close>

fun catch_db_errors :: "'a \<Rightarrow> 'a outcome \<Rightarrow> 'a outcome \<times> bool" where
  "catch_db_errors dflt (Throw (Soci_error No_data)) = (Ret dflt, True)"
| "catch_db_errors dflt (Throw (Soci_error Connection_error)) = (Ret dflt, False)"
| "catch_db_errors dflt (Throw (Soci_error System_error)) = (Ret dflt, False)"
| "catch_db_errors dflt (Throw (Soci_error (Other_category n))) =
     (Throw (Soci_error (Other_category n)), True)"
| "catch_db_errors dflt (Throw e) = (Ret dflt, False)"
| "catch_db_errors dflt out = (out, True)"

text \<open>
  A repository method: take a connection from the pool (outside the \<open>try\<close>), run the body under
  the \<open>catch\<close> clauses, and let the wrapper's destructor give the connection back.
\<close>

definition with_connection ::
    "'a \<Rightarrow> (conn \<Rightarrow> (('db, 'z) data_state_scheme, 'a) comp) \<Rightarrow>
     (('db, 'z) data_state_scheme, 'a) comp" where
  "with_connection dflt body s =
     (case getInstance (ds_pool s) of
        Ret _ \<Rightarrow>
          (case getConnection (ds_pool s) of
             (Ret c, p) \<Rightarrow>
               (let (out, t) = body c (s\<lparr>ds_pool := p\<rparr>);
                    (out', is_valid) = catch_db_errors dflt out
                in (out', t\<lparr>ds_pool := wrapper_destroy c is_valid (ds_pool t)\<rparr>))
           | (_, p) \<Rightarrow> (Block, s\<lparr>ds_pool := p\<rparr>))
      | Throw e \<Rightarrow> (Throw e, s)
      | _ \<Rightarrow> (Undef, s))"

text \<open>
  A scope with a \<open>soci::transaction\<close>. The body says with its result whether it committed;
  leaving the scope without a commit, by a return or by an exception, rolls back.
\<close>

definition transaction_scope ::
    "'db env \<Rightarrow> conn \<Rightarrow> (('db, 'z) data_state_scheme, 'a \<times> bool) comp \<Rightarrow>
     (('db, 'z) data_state_scheme, 'a) comp" where
  "transaction_scope E c body s =
     (case body s of
        (Ret (a, committed), t) \<Rightarrow>
          (Ret a, if committed then t else t\<lparr>ds_db := db_rollback E c (ds_db t)\<rparr>)
      | (Throw e, t) \<Rightarrow> (Throw e, t\<lparr>ds_db := db_rollback E c (ds_db t)\<rparr>)
      | (Block, t) \<Rightarrow> (Block, t)
      | (Undef, t) \<Rightarrow> (Undef, t))"

definition with_transaction ::
    "'db env \<Rightarrow> conn \<Rightarrow> (('db, 'z) data_state_scheme, 'a \<times> bool) comp \<Rightarrow>
     (('db, 'z) data_state_scheme, 'a) comp" where
  "with_transaction E c body =
     cbind (db_call (db_begin E c)) (\<lambda>_. transaction_scope E c body)"

definition ctry :: "('s, 'a) comp \<Rightarrow> (exn \<Rightarrow> ('s, 'a) comp) \<Rightarrow> ('s, 'a) comp" where
  "ctry m handler s = (case m s of (Throw e, t) \<Rightarrow> handler e t | r \<Rightarrow> r)"

section \<open>created_at\<close>

text \<open>A single row: the column, or the current time when it is null.\<close>

definition created_or_now ::
    "'db env \<Rightarrow> tm option \<Rightarrow> (('db, 'z) data_state_scheme, time_point) comp" where
  "created_or_now E c =
     (case c of
        Some t \<Rightarrow> creturn (from_time_t (e_tps E) (e_mktime E t))
      | None \<Rightarrow> read_clock E)"

text \<open>A row of a result set: the current time as well when \<open>mktime\<close> fails.\<close>

definition created_checked ::
    "'db env \<Rightarrow> tm option \<Rightarrow> (('db, 'z) data_state_scheme, time_point) comp" where
  "created_checked E c =
     (case c of
        Some t \<Rightarrow>
          (let tt = e_mktime E t
           in if tt \<noteq> -1 then creturn (from_time_t (e_tps E) tt) else read_clock E)
      | None \<Rightarrow> read_clock E)"

text \<open>
  \<open>type_conversion<time_point>::from_base\<close> for a time point read after an insert: a null or
  missing value leaves the default-constructed time point, the epoch.
\<close>

definition created_from_base :: "'db env \<Rightarrow> tm option option \<Rightarrow> time_point" where
  "created_from_base E c =
     (case c of Some (Some t) \<Rightarrow> from_time_t (e_tps E) (e_mktime E t) | _ \<Rightarrow> 0)"

text \<open>A null column leaves the variable bound to it as it was.\<close>

definition fetch_into :: "'a option \<Rightarrow> 'a \<Rightarrow> 'a" where
  "fetch_into column var = (case column of None \<Rightarrow> var | Some v \<Rightarrow> v)"

lemma fetch_into_simps [simp]: "fetch_into None v = v" "fetch_into (Some x) v = x"
  by (simp_all add: fetch_into_def)

section \<open>The pool across a repository method\<close>

text \<open>
  What the body of a repository method is: a computation that leaves the pool as it finds it
  and does not wait; and, separately, one without undefined behaviour.
\<close>

definition pool_silent :: "(('db, 'z) data_state_scheme, 'a) comp \<Rightarrow> bool" where
  "pool_silent m \<longleftrightarrow> (\<forall>s out t. m s = (out, t) \<longrightarrow> ds_pool t = ds_pool s \<and> out \<noteq> Block)"

definition well_defined :: "('s, 'a) comp \<Rightarrow> bool" where
  "well_defined m \<longleftrightarrow> (\<forall>s. fst (m s) \<noteq> Undef)"

lemma pool_silentD: "pool_silent m \<Longrightarrow> m s = (out, t) \<Longrightarrow> ds_pool t = ds_pool s \<and> out \<noteq> Block"
  by (simp add: pool_silent_def)

lemma well_definedD: "well_defined m \<Longrightarrow> m s = (out, t) \<Longrightarrow> out \<noteq> Undef"
  by (metis fst_conv well_defined_def)

lemma pool_silent_basic [simp]:
  "pool_silent (creturn a)" "pool_silent (cthrow e)" "pool_silent cundef"
  "pool_silent (read_clock E)" "pool_silent (db_call f)"
  "pool_silent (created_or_now E c)" "pool_silent (created_checked E c)"
  by (auto simp: pool_silent_def read_clock_def db_call_def created_or_now_def created_checked_def
      Let_def split: sum.splits prod.splits option.splits if_splits)

lemma well_defined_basic [simp]:
  "well_defined (creturn a)" "well_defined (cthrow e)"
  "well_defined (read_clock E)" "well_defined (db_call f)"
  "well_defined (created_or_now E c)" "well_defined (created_checked E c)"
  by (auto simp: well_defined_def read_clock_def db_call_def created_or_now_def created_checked_def
      Let_def split: sum.splits prod.splits option.splits)

lemma pool_silent_cbind [intro, simp]:
  assumes "pool_silent m" "\<And>a. pool_silent (f a)"
  shows "pool_silent (cbind m f)"
  unfolding pool_silent_def
proof (intro allI impI)
  fix s out t assume run: "cbind m f s = (out, t)"
  obtain o1 u where m: "m s = (o1, u)" by (cases "m s")
  show "ds_pool t = ds_pool s \<and> out \<noteq> Block"
    using run pool_silentD [OF assms(1) m] pool_silentD [OF assms(2), of _ u out t]
    by (cases o1) (auto simp: cbind_def m)
qed

lemma well_defined_cbind [intro, simp]:
  assumes "well_defined m" "\<And>a. well_defined (f a)"
  shows "well_defined (cbind m f)"
  unfolding well_defined_def
proof
  fix s
  obtain o1 u where m: "m s = (o1, u)" by (cases "m s")
  then show "fst (cbind m f s) \<noteq> Undef"
    using well_definedD [OF assms(1) m] assms(2) by (cases o1) (auto simp: cbind_def well_defined_def)
qed

lemma pool_silent_ctry [intro, simp]:
  assumes "pool_silent m" "\<And>e. pool_silent (h e)"
  shows "pool_silent (ctry m h)"
  unfolding pool_silent_def
proof (intro allI impI)
  fix s out t assume run: "ctry m h s = (out, t)"
  obtain o1 u where m: "m s = (o1, u)" by (cases "m s")
  show "ds_pool t = ds_pool s \<and> out \<noteq> Block"
    using run pool_silentD [OF assms(1) m] pool_silentD [OF assms(2), of _ u out t]
    by (cases o1) (auto simp: ctry_def m)
qed

lemma well_defined_ctry [intro, simp]:
  assumes "well_defined m" "\<And>e. well_defined (h e)"
  shows "well_defined (ctry m h)"
  unfolding well_defined_def
proof
  fix s
  obtain o1 u where m: "m s = (o1, u)" by (cases "m s")
  then show "fst (ctry m h s) \<noteq> Undef"
    using well_definedD [OF assms(1) m] assms(2) by (cases o1) (auto simp: ctry_def well_defined_def)
qed

lemma pool_silent_transaction [intro, simp]:
  assumes "pool_silent body"
  shows "pool_silent (with_transaction E c body)"
proof -
  have "pool_silent (transaction_scope E c body)"
    unfolding pool_silent_def
  proof (intro allI impI)
    fix s out t assume run: "transaction_scope E c body s = (out, t)"
    obtain o1 u where b: "body s = (o1, u)" by (cases "body s")
    show "ds_pool t = ds_pool s \<and> out \<noteq> Block"
      using run pool_silentD [OF assms b]
      by (cases o1) (auto simp: transaction_scope_def b split: prod.splits if_splits)
  qed
  then show ?thesis by (simp add: with_transaction_def)
qed

lemma well_defined_transaction [intro, simp]:
  assumes "well_defined body"
  shows "well_defined (with_transaction E c body)"
proof -
  have "well_defined (transaction_scope E c body)"
    unfolding well_defined_def
  proof
    fix s
    obtain o1 u where b: "body s = (o1, u)" by (cases "body s")
    then show "fst (transaction_scope E c body s) \<noteq> Undef"
      using well_definedD [OF assms b]
      by (cases o1) (auto simp: transaction_scope_def split: prod.splits)
  qed
  then show ?thesis by (simp add: with_transaction_def)
qed

text \<open>
  What a repository method does to the pool. It blocks when no connection is free and throws
  when there is no pool; otherwise the pool is afterwards as before, or its last connection is
  being replaced because it broke.
\<close>

definition borrows :: "('db, 'z) data_state_scheme \<Rightarrow> ('db, 'z) data_state_scheme \<Rightarrow> bool" where
  "borrows s t \<longleftrightarrow>
     ds_pool t = ds_pool s \<or>
     (cp_free (ds_pool s) \<noteq> [] \<and>
      ds_pool t = (ds_pool s)\<lparr>cp_free := butlast (cp_free (ds_pool s)),
        cp_pending := Suc (cp_pending (ds_pool s))\<rparr>)"

lemma borrows_refl [simp]: "borrows s s"
  by (simp add: borrows_def)

lemma borrows_capacity: "borrows s t \<Longrightarrow> capacity (ds_pool t) = capacity (ds_pool s)"
  by (auto simp: borrows_def capacity_def)

lemma borrows_instance: "borrows s t \<Longrightarrow> cp_instance (ds_pool t) = cp_instance (ds_pool s)"
  by (auto simp: borrows_def)

lemma catch_db_errors_Block: "catch_db_errors d out = (out', v) \<Longrightarrow> out' = Block \<longleftrightarrow> out = Block"
  by (induction d out rule: catch_db_errors.induct) auto

lemma catch_db_errors_Undef: "catch_db_errors d out = (out', v) \<Longrightarrow> out' = Undef \<longleftrightarrow> out = Undef"
  by (induction d out rule: catch_db_errors.induct) auto

text \<open>The three ways a repository method can go.\<close>

lemma with_connection_no_pool:
  "\<not> cp_instance (ds_pool s) \<Longrightarrow> with_connection d body s = (Throw (Runtime_error
     ''ConnectionPool has not been initialized. Call initInstance first.''), s)"
  by (simp add: with_connection_def getInstance_def)

lemma with_connection_empty:
  "cp_instance (ds_pool s) \<Longrightarrow> cp_free (ds_pool s) = [] \<Longrightarrow> with_connection d body s = (Block, s)"
  by (simp add: with_connection_def getInstance_def getConnection_def)

lemma with_connection_run:
  assumes "cp_instance (ds_pool s)" "cp_free (ds_pool s) \<noteq> []"
    and "body (last (cp_free (ds_pool s)))
      (s\<lparr>ds_pool := (ds_pool s)\<lparr>cp_free := butlast (cp_free (ds_pool s))\<rparr>\<rparr>) = (o1, u)"
    and "catch_db_errors d o1 = (o2, v)"
  shows "with_connection d body s =
    (o2, u\<lparr>ds_pool := wrapper_destroy (last (cp_free (ds_pool s))) v (ds_pool u)\<rparr>)"
  using assms by (simp add: with_connection_def getInstance_def getConnection_def)

text \<open>
  The discipline of a repository method: it borrows at most one connection and releases it, and
  it waits only when the pool is empty.
\<close>

definition repository_method :: "(('db, 'z) data_state_scheme, 'a) comp \<Rightarrow> bool" where
  "repository_method m \<longleftrightarrow>
     (\<forall>s out t. m s = (out, t) \<longrightarrow>
        borrows s t \<and> (out = Block \<longrightarrow> cp_instance (ds_pool s) \<and> cp_free (ds_pool s) = []))"

lemma repository_method_creturn [simp]: "repository_method (creturn a)"
  by (auto simp: repository_method_def)

lemma repository_method_with_connection [intro]:
  fixes body :: "conn \<Rightarrow> (('db, 'z) data_state_scheme, 'a) comp"
  assumes silent: "\<And>c. pool_silent (body c)"
  shows "repository_method (with_connection d body)"
  unfolding repository_method_def
proof (intro allI impI)
  fix s t :: "('db, 'z) data_state_scheme" and out
  assume run: "with_connection d body s = (out, t)"
  let ?p = "ds_pool s"
  consider "\<not> cp_instance ?p" | "cp_instance ?p" "cp_free ?p = []"
    | "cp_instance ?p" "cp_free ?p \<noteq> []" by blast
  then show "borrows s t \<and> (out = Block \<longrightarrow> cp_instance ?p \<and> cp_free ?p = [])"
  proof cases
    case 3
    obtain o1 u where b: "body (last (cp_free ?p))
        (s\<lparr>ds_pool := ?p\<lparr>cp_free := butlast (cp_free ?p)\<rparr>\<rparr>) = (o1, u)" by fastforce
    obtain o2 v where k: "catch_db_errors d o1 = (o2, v)" by fastforce
    from pool_silentD [OF silent b] catch_db_errors_Block [OF k]
    have "ds_pool u = ?p\<lparr>cp_free := butlast (cp_free ?p)\<rparr>" "o2 \<noteq> Block" by auto
    moreover have "out = o2" "t = u\<lparr>ds_pool := wrapper_destroy (last (cp_free ?p)) v (ds_pool u)\<rparr>"
      using run with_connection_run [of s body o1 u d o2 v, OF 3 b k] by auto
    ultimately show ?thesis
      using 3 by (cases v) (auto simp: borrows_def wrapper_destroy_def returnConnection_def
          replenishConnectionAsync_def)
  qed (use run with_connection_no_pool [of s d body] with_connection_empty [of s d body] in auto)
qed

lemma repository_method_borrows: "repository_method m \<Longrightarrow> m s = (out, t) \<Longrightarrow> borrows s t"
  by (simp add: repository_method_def)

lemma well_defined_with_connection [intro, simp]:
  fixes body :: "conn \<Rightarrow> (('db, 'z) data_state_scheme, 'a) comp"
  assumes "\<And>c. well_defined (body c)"
  shows "well_defined (with_connection d body)"
  unfolding well_defined_def
proof
  fix s :: "('db, 'z) data_state_scheme"
  let ?p = "ds_pool s"
  consider "\<not> cp_instance ?p" | "cp_instance ?p" "cp_free ?p = []"
    | "cp_instance ?p" "cp_free ?p \<noteq> []" by blast
  then show "fst (with_connection d body s) \<noteq> Undef"
  proof cases
    case 3
    obtain o1 u where b: "body (last (cp_free ?p))
        (s\<lparr>ds_pool := ?p\<lparr>cp_free := butlast (cp_free ?p)\<rparr>\<rparr>) = (o1, u)" by fastforce
    obtain o2 v where k: "catch_db_errors d o1 = (o2, v)" by fastforce
    show ?thesis
      using with_connection_run [of s body o1 u d o2 v, OF 3 b k] catch_db_errors_Undef [OF k] well_definedD [OF assms b]
      by simp
  qed (simp_all add: with_connection_no_pool with_connection_empty)
qed

section \<open>The frame of a repository method\<close>

text \<open>Computations that touch nothing but the data layer, and ones that leave the database alone.\<close>

definition data_only :: "(('db, 'z) data_state_scheme, 'a) comp \<Rightarrow> bool" where
  "data_only m \<longleftrightarrow> (\<forall>s. data_state.more (snd (m s)) = data_state.more s)"

definition db_silent :: "(('db, 'z) data_state_scheme, 'a) comp \<Rightarrow> bool" where
  "db_silent m \<longleftrightarrow> (\<forall>s. ds_db (snd (m s)) = ds_db s \<and> (\<exists>a. fst (m s) = Ret a))"

lemma data_onlyD: "data_only m \<Longrightarrow> m s = (out, t) \<Longrightarrow> data_state.more t = data_state.more s"
  by (metis data_only_def snd_conv)

lemma db_silentD: "db_silent m \<Longrightarrow> \<exists>a t. m s = (Ret a, t) \<and> ds_db t = ds_db s"
  by (metis db_silent_def prod.collapse)

lemma data_only_basic [simp]:
  "data_only (creturn a)" "data_only (cthrow e)" "data_only cundef"
  "data_only (read_clock E)" "data_only (db_call f)"
  "data_only (created_or_now E c)" "data_only (created_checked E c)"
  by (auto simp: data_only_def read_clock_def db_call_def created_or_now_def created_checked_def
      Let_def split: sum.splits prod.splits option.splits)

lemma db_silent_basic [simp]:
  "db_silent (creturn a)" "db_silent (read_clock E)"
  "db_silent (created_or_now E c)" "db_silent (created_checked E c)"
  by (auto simp: db_silent_def read_clock_def created_or_now_def created_checked_def
      Let_def split: option.splits)

lemma data_only_cbind [intro, simp]:
  assumes "data_only m" "\<And>a. data_only (f a)"
  shows "data_only (cbind m f)"
  unfolding data_only_def
proof
  fix s
  obtain o1 u where m: "m s = (o1, u)" by (cases "m s")
  then show "data_state.more (snd (cbind m f s)) = data_state.more s"
    using data_onlyD [OF assms(1) m] assms(2) by (cases o1) (auto simp: cbind_def data_only_def)
qed

lemma db_silent_cbind [intro, simp]:
  assumes "db_silent m" "\<And>a. db_silent (f a)"
  shows "db_silent (cbind m f)"
  unfolding db_silent_def
proof
  fix s
  obtain a u where m: "m s = (Ret a, u)" "ds_db u = ds_db s"
    using db_silentD [OF assms(1)] by blast
  then show "ds_db (snd (cbind m f s)) = ds_db s \<and> (\<exists>b. fst (cbind m f s) = Ret b)"
    using assms(2) [of a] by (auto simp: cbind_def db_silent_def)
qed

lemma data_only_ctry [intro, simp]:
  assumes "data_only m" "\<And>e. data_only (h e)"
  shows "data_only (ctry m h)"
  unfolding data_only_def
proof
  fix s
  obtain o1 u where m: "m s = (o1, u)" by (cases "m s")
  then show "data_state.more (snd (ctry m h s)) = data_state.more s"
    using data_onlyD [OF assms(1) m] assms(2) by (cases o1) (auto simp: ctry_def data_only_def)
qed

lemma data_only_transaction [intro, simp]:
  assumes "data_only body"
  shows "data_only (with_transaction E c body)"
proof -
  have "data_only (transaction_scope E c body)"
    unfolding data_only_def
  proof
    fix s
    obtain o1 u where b: "body s = (o1, u)" by (cases "body s")
    then show "data_state.more (snd (transaction_scope E c body s)) = data_state.more s"
      using data_onlyD [OF assms b]
      by (cases o1) (auto simp: transaction_scope_def split: prod.splits)
  qed
  then show ?thesis by (simp add: with_transaction_def)
qed

text \<open>
  How a repository method ends: without having had a connection, or as its body on some
  connection ended, under the \<open>catch\<close> clauses.
\<close>

lemma with_connectionE:
  fixes s t :: "('db, 'z) data_state_scheme"
  assumes "with_connection dflt body s = (out, t)"
  obtains (unavailable) "t = s" "out = Block \<or> (\<exists>e. out = Throw e)"
      "\<not> cp_instance (ds_pool s) \<or> cp_free (ds_pool s) = []"
    | (ran) c p o1 u p' v where "cp_free (ds_pool s) \<noteq> []"
      "body c (s\<lparr>ds_pool := p\<rparr>) = (o1, u)"
      "catch_db_errors dflt o1 = (out, v)" "t = u\<lparr>ds_pool := p'\<rparr>"
proof -
  let ?p = "ds_pool s"
  consider "\<not> cp_instance ?p" | "cp_instance ?p" "cp_free ?p = []"
    | "cp_instance ?p" "cp_free ?p \<noteq> []" by blast
  then show thesis
  proof cases
    case 3
    obtain o1 u where b: "body (last (cp_free ?p))
        (s\<lparr>ds_pool := ?p\<lparr>cp_free := butlast (cp_free ?p)\<rparr>\<rparr>) = (o1, u)" by fastforce
    obtain o2 v where k: "catch_db_errors dflt o1 = (o2, v)" by fastforce
    show thesis
      using with_connection_run [of s body o1 u dflt o2 v, OF 3 b k] assms k
      by (intro ran [OF 3(2) b]) auto
  qed (use assms unavailable with_connection_no_pool [of s dflt body]
      with_connection_empty [of s dflt body] in auto)
qed

lemma data_only_with_connection [intro, simp]:
  fixes body :: "conn \<Rightarrow> (('db, 'z) data_state_scheme, 'a) comp"
  assumes "\<And>c. data_only (body c)"
  shows "data_only (with_connection d body)"
  unfolding data_only_def
proof
  fix s :: "('db, 'z) data_state_scheme"
  obtain out t where run: "with_connection d body s = (out, t)" by (cases "with_connection d body s")
  then show "data_state.more (snd (with_connection d body s)) = data_state.more s"
  proof (cases rule: with_connectionE)
    case (ran c p o1 u p' v)
    from data_onlyD [OF assms ran(2)] ran(4) run show ?thesis by simp
  qed (simp add: run)
qed

text \<open>The outcomes the \<open>catch\<close> clauses let through.\<close>

lemma catch_db_errors_Ret:
  "catch_db_errors d out = (Ret a, v) \<Longrightarrow> out = Ret a \<or> (a = d \<and> (\<exists>e. out = Throw e))"
  by (induction d out rule: catch_db_errors.induct) auto

lemma catch_db_errors_Throw:
  "catch_db_errors d out = (Throw e, v) \<Longrightarrow> out = Throw e \<and> (\<exists>n. e = Soci_error (Other_category n))"
  by (induction d out rule: catch_db_errors.induct) auto

end
