(* ===== verification/Session_Manager.thy ===== *)
theory Session_Manager
  imports Session Domain_Model Data_Access
begin

text \<open>
  The state the services share: the session objects, what each of them was told to send, and the
  registry of \<open>SessionManager\<close>. A \<open>std::shared_ptr<Session>\<close> is a session number; a null pointer
  is \<open>None\<close>. \<open>Session::send\<close> puts the envelope at the end of the session's outbox; how the outbox
  reaches the peer is the model of \<open>Session\<close> (\<open>post_send\<close>, \<open>handle_write\<close>) and of \<open>Wire_Format\<close>.

  The registry's two lookup tables are maps. The set \<open>sessions\<close> is iterated over, so it is a list
  in the order of the container.
\<close>

section \<open>State\<close>

type_synonym sid = nat

record 'db session_state = "'db data_state" +
  ss_session :: "sid \<Rightarrow> session"
  ss_outbox :: "sid \<Rightarrow> envelope list"
  ss_sessions :: "sid list"
  ss_byUserId :: "long_long \<Rightarrow> sid option"
  ss_byUsername :: "string \<Rightarrow> sid option"

definition session_send :: "sid \<Rightarrow> envelope \<Rightarrow> (('db, 'z) session_state_scheme, unit) comp" where
  "session_send i e = cmodify (\<lambda>s. s\<lparr>ss_outbox := (ss_outbox s)(i := ss_outbox s i @ [e])\<rparr>)"

definition on_session ::
    "sid \<Rightarrow> (session \<Rightarrow> session) \<Rightarrow> (('db, 'z) session_state_scheme, unit) comp" where
  "on_session i f = cmodify (\<lambda>s. s\<lparr>ss_session := (ss_session s)(i := f (ss_session s i))\<rparr>)"

text \<open>The getters of a session, which throw when the field is not set.\<close>

definition session_user_id :: "sid \<Rightarrow> (('db, 'z) session_state_scheme, long_long) comp" where
  "session_user_id i s = (getUserId (ss_session s i), s)"

definition session_username :: "sid \<Rightarrow> (('db, 'z) session_state_scheme, string) comp" where
  "session_username i s = (getUsername (ss_session s i), s)"

definition session_authenticated :: "sid \<Rightarrow> (('db, 'z) session_state_scheme, bool) comp" where
  "session_authenticated i = cget (\<lambda>s. isAuthenticated (ss_session s i))"

section \<open>SessionManager\<close>

definition manager_add :: "sid \<Rightarrow> (('db, 'z) session_state_scheme, unit) comp" where
  "manager_add i = cmodify (\<lambda>s. s\<lparr>ss_sessions := List.insert i (ss_sessions s)\<rparr>)"

definition manager_remove :: "sid \<Rightarrow> (('db, 'z) session_state_scheme, unit) comp" where
  "manager_remove i =
     cbind (session_authenticated i) (\<lambda>auth.
     cthen
       (if auth then
          cbind (session_user_id i) (\<lambda>uid.
          cthen (cmodify (\<lambda>s. s\<lparr>ss_byUserId := (ss_byUserId s)(uid := None)\<rparr>))
          (cbind (session_username i) (\<lambda>name.
           cmodify (\<lambda>s. s\<lparr>ss_byUsername := (ss_byUsername s)(name := None)\<rparr>))))
        else creturn ())
       (cmodify (\<lambda>s. s\<lparr>ss_sessions := removeAll i (ss_sessions s)\<rparr>)))"

definition manager_updateUsername ::
    "sid \<Rightarrow> string \<Rightarrow> (('db, 'z) session_state_scheme, unit) comp" where
  "manager_updateUsername i newUsername =
     cbind (session_username i) (\<lambda>old.
     cthen (cmodify (\<lambda>s. s\<lparr>ss_byUsername := (ss_byUsername s)(old := None)\<rparr>))
     (cthen (on_session i (setUsername newUsername))
     (cmodify (\<lambda>s. s\<lparr>ss_byUsername := (ss_byUsername s)(newUsername := Some i)\<rparr>))))"

definition manager_registerAuthenticatedSession ::
    "sid \<Rightarrow> long_long \<Rightarrow> string \<Rightarrow> (('db, 'z) session_state_scheme, unit) comp" where
  "manager_registerAuthenticatedSession i uid name =
     cthen (cmodify (\<lambda>s. s\<lparr>ss_byUserId := (ss_byUserId s)(uid := Some i)\<rparr>))
     (cthen (cmodify (\<lambda>s. s\<lparr>ss_byUsername := (ss_byUsername s)(name := Some i)\<rparr>))
     (on_session i (setAuthenticated uid name)))"

definition manager_findByUsername ::
    "string \<Rightarrow> (('db, 'z) session_state_scheme, sid option) comp" where
  "manager_findByUsername name = cget (\<lambda>s. ss_byUsername s name)"

definition manager_findByUserId ::
    "long_long \<Rightarrow> (('db, 'z) session_state_scheme, sid option) comp" where
  "manager_findByUserId uid = cget (\<lambda>s. ss_byUserId s uid)"

text \<open>A loop that sends an envelope to the sessions of a list that satisfy a condition.\<close>

fun send_each ::
    "(('db, 'z) session_state_scheme \<Rightarrow> sid \<Rightarrow> bool) \<Rightarrow> envelope \<Rightarrow> sid list \<Rightarrow>
     (('db, 'z) session_state_scheme, unit) comp" where
  "send_each cond e [] = creturn ()"
| "send_each cond e (i # is) =
     cbind (cget (\<lambda>s. cond s i)) (\<lambda>b.
     cthen (if b then session_send i e else creturn ()) (send_each cond e is))"

definition manager_broadcast :: "envelope \<Rightarrow> (('db, 'z) session_state_scheme, unit) comp" where
  "manager_broadcast e =
     cbind (cget ss_sessions) (send_each (\<lambda>s i. isAuthenticated (ss_session s i)) e)"

section \<open>Lemmas\<close>

lemma session_send_apply [chat_simps]:
  "session_send i e s = (Ret (), s\<lparr>ss_outbox := (ss_outbox s)(i := ss_outbox s i @ [e])\<rparr>)"
  by (simp add: session_send_def)

lemma on_session_apply [chat_simps]:
  "on_session i f s = (Ret (), s\<lparr>ss_session := (ss_session s)(i := f (ss_session s i))\<rparr>)"
  by (simp add: on_session_def)

lemma session_authenticated_apply [chat_simps]:
  "session_authenticated i s = (Ret (isAuthenticated (ss_session s i)), s)"
  by (simp add: session_authenticated_def)

lemma cthen_apply [chat_simps]: "m s = (Ret a, t) \<Longrightarrow> cthen m n s = n t"
  by (simp add: cthen_def cbind_def)

text \<open>What a repository leaves alone.\<close>

lemma frame_session_state:
  fixes s t :: "('db, 'z) session_state_scheme"
  assumes "data_state.more t = data_state.more s"
  shows "ss_session t = ss_session s" "ss_outbox t = ss_outbox s" "ss_sessions t = ss_sessions s"
    "ss_byUserId t = ss_byUserId s" "ss_byUsername t = ss_byUsername s"
    "session_state.more t = session_state.more s"
  using assms by (cases s; cases t; simp)+

text \<open>
  The registry's invariant: a registered session is authenticated, and every session object obeys
  its class invariant. A registered session is not always registered under its own id: a session
  that logs in twice leaves its first entry behind.
\<close>

definition registry_ok :: "('db, 'z) session_state_scheme \<Rightarrow> bool" where
  "registry_ok s \<longleftrightarrow>
     (\<forall>i. session_ok (ss_session s i)) \<and>
     (\<forall>u i. ss_byUserId s u = Some i \<longrightarrow> isAuthenticated (ss_session s i)) \<and>
     (\<forall>n i. ss_byUsername s n = Some i \<longrightarrow> isAuthenticated (ss_session s i))"

lemma registry_ok_getters:
  assumes "registry_ok s" "isAuthenticated (ss_session s i)"
  obtains uid n where "session_user_id i s = (Ret uid, s)" "session_username i s = (Ret n, s)"
    "userId (ss_session s i) = Some uid" "username (ss_session s i) = Some n"
proof -
  have "session_ok (ss_session s i)" using assms(1) by (simp add: registry_ok_def)
  from session_ok_getters [OF this] assms(2)
  obtain uid n where "getUserId (ss_session s i) = Ret uid"
    "getUsername (ss_session s i) = Ret n" "userId (ss_session s i) = Some uid"
    "username (ss_session s i) = Some n"
    unfolding isAuthenticated_def by metis
  with that [of uid n] show thesis by (simp add: session_user_id_def session_username_def)
qed

lemma registry_ok_frame:
  fixes s t :: "('db, 'z) session_state_scheme"
  assumes "data_state.more t = data_state.more s"
  shows "registry_ok t = registry_ok s"
  by (simp only: registry_ok_def frame_session_state [OF assms])

lemma registry_ok_send [simp]: "registry_ok (snd (session_send i e s)) = registry_ok s"
  by (simp add: registry_ok_def session_send_apply)

lemma register_run:
  "manager_registerAuthenticatedSession i uid name s =
     (Ret (), s\<lparr>ss_byUserId := (ss_byUserId s)(uid \<mapsto> i), ss_byUsername := (ss_byUsername s)(name \<mapsto> i),
        ss_session := (ss_session s)(i := setAuthenticated uid name (ss_session s i))\<rparr>)"
  by (simp add: manager_registerAuthenticatedSession_def on_session_apply)

lemma isAuthenticated_set [simp]:
  "isAuthenticated (setAuthenticated uid name x)"
  "isAuthenticated (setUsername name x) = isAuthenticated x"
  by (simp_all add: isAuthenticated_def setAuthenticated_def setUsername_def)

lemma registry_ok_register:
  "registry_ok s \<Longrightarrow> registry_ok (snd (manager_registerAuthenticatedSession i uid name s))"
  by (auto simp: register_run registry_ok_def)

lemma updateUsername_run:
  assumes "session_username i s = (Ret old, s)"
  shows "manager_updateUsername i new s =
    (Ret (), s\<lparr>ss_byUsername := (ss_byUsername s)(old := None, new \<mapsto> i),
       ss_session := (ss_session s)(i := setUsername new (ss_session s i))\<rparr>)"
  using assms by (simp add: manager_updateUsername_def cbind_def cthen_def on_session_def)

lemma registry_ok_updateUsername:
  assumes "registry_ok s" "isAuthenticated (ss_session s i)"
  shows "registry_ok (snd (manager_updateUsername i new s))"
proof -
  obtain uid old where "session_username i s = (Ret old, s)"
    using registry_ok_getters [OF assms] by metis
  with assms show ?thesis
    by (auto simp: updateUsername_run registry_ok_def isAuthenticated_def
        intro!: session_ok_setUsername) (auto simp: setUsername_def)
qed

lemma remove_run:
  assumes "registry_ok s"
  shows "manager_remove i s =
    (Ret (), s\<lparr>ss_byUserId := (case userId (ss_session s i) of
           None \<Rightarrow> ss_byUserId s | Some u \<Rightarrow> (ss_byUserId s)(u := None)),
       ss_byUsername := (case username (ss_session s i) of
           None \<Rightarrow> ss_byUsername s | Some n \<Rightarrow> (ss_byUsername s)(n := None)),
       ss_sessions := removeAll i (ss_sessions s)\<rparr>)"
proof (cases "isAuthenticated (ss_session s i)")
  case True
  obtain uid n where g: "session_user_id i s = (Ret uid, s)" "session_username i s = (Ret n, s)"
    "userId (ss_session s i) = Some uid" "username (ss_session s i) = Some n"
    using registry_ok_getters [OF assms True] by metis
  then have "session_username i (s\<lparr>ss_byUserId := f\<rparr>) = (Ret n, s\<lparr>ss_byUserId := f\<rparr>)" for f
    by (simp add: session_username_def)
  with True g show ?thesis
    by (simp add: manager_remove_def session_authenticated_apply cbind_def cthen_def)
next
  case False
  moreover have "session_ok (ss_session s i)" using assms by (simp add: registry_ok_def)
  ultimately have "userId (ss_session s i) = None" "username (ss_session s i) = None"
    by (auto simp: session_ok_def isAuthenticated_def)
  with False show ?thesis
    by (simp add: manager_remove_def session_authenticated_apply cbind_def cthen_def)
qed

lemma registry_ok_remove: "registry_ok s \<Longrightarrow> registry_ok (snd (manager_remove i s))"
  by (auto simp: remove_run) (auto simp: registry_ok_def split: option.splits if_splits)

text \<open>What the loop does: each listed session that satisfies the condition gets one copy.\<close>

lemma send_each_run:
  assumes "\<And>s j f. cond (s\<lparr>ss_outbox := f\<rparr>) j = cond s j"
  shows "send_each cond e is s =
    (Ret (), s\<lparr>ss_outbox := (\<lambda>j. ss_outbox s j @
       (if cond s j then replicate (count_list is j) e else []))\<rparr>)"
proof (induction "is" arbitrary: s)
  case Nil
  have "(\<lambda>j. ss_outbox s j @ (if cond s j then replicate (count_list [] j) e else [])) = ss_outbox s"
    by (rule ext) simp
  then show ?case by simp
next
  case (Cons i "is")
  show ?case
  proof (cases "cond s i")
    case True
    let ?t = "s\<lparr>ss_outbox := (ss_outbox s)(i := ss_outbox s i @ [e])\<rparr>"
    have "send_each cond e (i # is) s = send_each cond e is ?t"
      using True by (simp add: cthen_def cbind_def session_send_apply)
    also have "\<dots> = (Ret (), ?t\<lparr>ss_outbox := (\<lambda>j. ss_outbox ?t j @
       (if cond s j then replicate (count_list is j) e else []))\<rparr>)"
      by (simp add: Cons.IH assms)
    finally show ?thesis using True by (auto simp: fun_eq_iff)
  next
    case False
    then have "send_each cond e (i # is) s = send_each cond e is s"
      by (simp add: cthen_def cbind_def)
    with False show ?thesis by (auto simp: Cons.IH fun_eq_iff)
  qed
qed

end
