(* ===== verification/User_Repository.thy ===== *)
theory User_Repository
  imports Data_Access
begin

text \<open>
  The interface \<open>IUserRepository\<close> as a record of methods, which is what the services are given,
  and its implementation \<open>MySQLUserRepository\<close>. \<open>addUser\<close> returns its success and fills in the
  id and the creation time of the user it is handed by reference; the model returns the user so
  filled in, and \<open>None\<close> for \<open>false\<close>, as no caller looks at the object after a failure.
\<close>

record 's user_repository =
  findByUsername :: "string \<Rightarrow> ('s, user option) comp"
  findByUserId :: "long_long \<Rightarrow> ('s, user option) comp"
  getAllUsers :: "('s, user list) comp"
  updateUser :: "user \<Rightarrow> ('s, bool) comp"
  addUser :: "user \<Rightarrow> ('s, user option) comp"
  removeUser :: "long_long \<Rightarrow> ('s, bool) comp"

text \<open>The single-row reads: the first row, if its id is not null.\<close>

definition user_of_first_row ::
    "'db env \<Rightarrow> user_row list \<Rightarrow> (('db, 'z) data_state_scheme, user option) comp" where
  "user_of_first_row E rows =
     (case rows of
        [] \<Rightarrow> creturn None
      | r # _ \<Rightarrow>
          (case ur_id r of
             None \<Rightarrow> creturn None
           | Some db_id \<Rightarrow>
               cbind (created_or_now E (ur_created_at r)) (\<lambda>t.
                 creturn (Some
                   \<lparr>u_id = scast db_id,
                    u_username = fetch_into (ur_username r) '''',
                    u_hashed_password = fetch_into (ur_hashed_password r) '''',
                    u_salt = fetch_into (ur_salt r) '''',
                    u_created_at = t\<rparr>))))"

definition MySQL_findByUsername ::
    "'db env \<Rightarrow> string \<Rightarrow> (('db, 'z) data_state_scheme, user option) comp" where
  "MySQL_findByUsername E name =
     with_connection None (\<lambda>c.
       cbind (db_call (db_users E c (Users_by_username name))) (user_of_first_row E))"

definition MySQL_findByUserId ::
    "'db env \<Rightarrow> long_long \<Rightarrow> (('db, 'z) data_state_scheme, user option) comp" where
  "MySQL_findByUserId E i =
     with_connection None (\<lambda>c.
       with_transaction E c
         (cbind (db_call (db_users E c (Users_by_id i))) (\<lambda>rows.
          cbind (user_of_first_row E rows) (\<lambda>u. creturn (u, False)))))"

text \<open>
  The loop over a result set. The variables bound to the columns live outside the loop, so a
  null column leaves the value of the row before; \<open>v\<close> holds them.
\<close>

fun fetch_users ::
    "'db env \<Rightarrow> user \<Rightarrow> user_row list \<Rightarrow> (('db, 'z) data_state_scheme, user list) comp" where
  "fetch_users E v [] = creturn []"
| "fetch_users E v (r # rs) =
     (let v' = v\<lparr>u_id := fetch_into (map_option scast (ur_id r)) (u_id v),
                u_username := fetch_into (ur_username r) (u_username v),
                u_hashed_password := fetch_into (ur_hashed_password r) (u_hashed_password v),
                u_salt := fetch_into (ur_salt r) (u_salt v)\<rparr>
      in cbind (created_checked E (ur_created_at r)) (\<lambda>t.
         cbind (fetch_users E v' rs) (\<lambda>users. creturn (v'\<lparr>u_created_at := t\<rparr> # users))))"

definition MySQL_getAllUsers :: "'db env \<Rightarrow> (('db, 'z) data_state_scheme, user list) comp" where
  "MySQL_getAllUsers E =
     with_connection [] (\<lambda>c.
       cbind (db_call (db_users E c Users_all)) (fetch_users E (new_user (e_junk E))))"

definition MySQL_updateUser ::
    "'db env \<Rightarrow> user \<Rightarrow> (('db, 'z) data_state_scheme, bool) comp" where
  "MySQL_updateUser E u =
     with_connection False (\<lambda>c.
       with_transaction E c
         (cbind (db_call (db_change E c
            (Update_user (u_username u) (u_hashed_password u) (u_salt u) (u_id u)))) (\<lambda>affected.
          if affected > 0
          then cbind (db_call (db_commit E c)) (\<lambda>_. creturn (True, True))
          else creturn (False, False))))"

definition MySQL_addUser ::
    "'db env \<Rightarrow> user \<Rightarrow> (('db, 'z) data_state_scheme, user option) comp" where
  "MySQL_addUser E u =
     with_connection None (\<lambda>c.
       with_transaction E c
         (cbind (db_call (db_insert E c
            (Insert_user (u_username u) (u_hashed_password u) (u_salt u)))) (\<lambda>_.
          cbind (db_call (db_last_id E c T_users)) (\<lambda>last.
          case last of
            None \<Rightarrow> creturn (None, False)
          | Some newId \<Rightarrow>
              ctry
                (cbind (db_call (db_created E c T_users newId)) (\<lambda>created.
                 cbind (db_call (db_commit E c)) (\<lambda>_.
                   creturn (Some (u\<lparr>u_id := newId, u_created_at := created_from_base E created\<rparr>),
                     True))))
                (\<lambda>e. creturn (None, False))))))"

definition MySQL_removeUser ::
    "'db env \<Rightarrow> long_long \<Rightarrow> (('db, 'z) data_state_scheme, bool) comp" where
  "MySQL_removeUser E i =
     with_connection False (\<lambda>c.
       with_transaction E c
         (cbind (db_call (db_change E c (Delete_row T_users i))) (\<lambda>_.
          cbind (db_call (db_commit E c)) (\<lambda>_. creturn (True, True)))))"

definition MySQLUserRepository :: "'db env \<Rightarrow> ('db, 'z) data_state_scheme user_repository" where
  "MySQLUserRepository E =
     \<lparr>findByUsername = MySQL_findByUsername E,
      findByUserId = MySQL_findByUserId E,
      getAllUsers = MySQL_getAllUsers E,
      updateUser = MySQL_updateUser E,
      addUser = MySQL_addUser E,
      removeUser = MySQL_removeUser E\<rparr>"

lemma pool_silent_user_of_first_row [simp]: "pool_silent (user_of_first_row E rows)"
  by (auto simp: user_of_first_row_def split: list.splits option.splits)

lemma pool_silent_fetch_users [simp]: "pool_silent (fetch_users E v rows)"
  by (induction rows arbitrary: v) (auto simp: Let_def)

lemma user_methods [simp]:
  "repository_method (MySQL_findByUsername E name)"
  "repository_method (MySQL_findByUserId E i)"
  "repository_method (MySQL_getAllUsers E)"
  "repository_method (MySQL_updateUser E u)"
  "repository_method (MySQL_addUser E u)"
  "repository_method (MySQL_removeUser E i)"
  unfolding MySQL_findByUsername_def MySQL_findByUserId_def MySQL_getAllUsers_def
    MySQL_updateUser_def MySQL_addUser_def MySQL_removeUser_def
  by (intro repository_method_with_connection; auto split: option.splits)+

end
