(* ===== verification/Room_Repository.thy ===== *)
theory Room_Repository
  imports Data_Access
begin

text \<open>
  The interface \<open>IRoomRepository\<close> and its implementation \<open>MySQLRoomRepository\<close>. \<open>addRoom\<close> is
  modelled as \<open>addUser\<close> is: the room with its id and creation time, or \<open>None\<close> for \<open>false\<close>.
\<close>

record 's room_repository =
  findByRoomId :: "long_long \<Rightarrow> ('s, room option) comp"
  findByRoomName :: "string \<Rightarrow> ('s, room option) comp"
  findByCreatorId :: "long_long \<Rightarrow> ('s, room option) comp"
  getAllRooms :: "('s, room list) comp"
  updateRoom :: "room \<Rightarrow> ('s, bool) comp"
  addRoom :: "room \<Rightarrow> ('s, room option) comp"
  removeRoom :: "long_long \<Rightarrow> ('s, bool) comp"

text \<open>
  The single-row reads; the variables for a null creator are the uninitialised ones of the
  method.
\<close>

definition room_of_first_row ::
    "'db env \<Rightarrow> room_row list \<Rightarrow> (('db, 'z) data_state_scheme, room option) comp" where
  "room_of_first_row E rows =
     (case rows of
        [] \<Rightarrow> creturn None
      | r # _ \<Rightarrow>
          (case rr_id r of
             None \<Rightarrow> creturn None
           | Some roomid \<Rightarrow>
               cbind (created_or_now E (rr_created_at r)) (\<lambda>t.
                 creturn (Some
                   \<lparr>r_id = scast roomid,
                    r_name = fetch_into (rr_name r) '''',
                    r_creator_id = fetch_into (map_option scast (rr_creator_id r)) (e_junk E),
                    r_created_at = t\<rparr>))))"

definition find_room ::
    "'db env \<Rightarrow> room_query \<Rightarrow> (('db, 'z) data_state_scheme, room option) comp" where
  "find_room E q =
     with_connection None (\<lambda>c.
       with_transaction E c
         (cbind (db_call (db_rooms E c q)) (\<lambda>rows.
          cbind (room_of_first_row E rows) (\<lambda>r. creturn (r, False)))))"

text \<open>The statement of \<open>findByRoomId\<close> compares the column \<open>name\<close> with the id.\<close>

definition MySQL_findByRoomId ::
    "'db env \<Rightarrow> long_long \<Rightarrow> (('db, 'z) data_state_scheme, room option) comp" where
  "MySQL_findByRoomId E i = find_room E (Rooms_by_name (V_int i))"

definition MySQL_findByRoomName ::
    "'db env \<Rightarrow> string \<Rightarrow> (('db, 'z) data_state_scheme, room option) comp" where
  "MySQL_findByRoomName E name = find_room E (Rooms_by_name (V_text name))"

definition MySQL_findByCreatorId ::
    "'db env \<Rightarrow> long_long \<Rightarrow> (('db, 'z) data_state_scheme, room option) comp" where
  "MySQL_findByCreatorId E i = find_room E (Rooms_by_creator i)"

fun fetch_rooms ::
    "'db env \<Rightarrow> room \<Rightarrow> room_row list \<Rightarrow> (('db, 'z) data_state_scheme, room list) comp" where
  "fetch_rooms E v [] = creturn []"
| "fetch_rooms E v (r # rs) =
     (let v' = v\<lparr>r_id := fetch_into (map_option scast (rr_id r)) (r_id v),
                r_name := fetch_into (rr_name r) (r_name v),
                r_creator_id := fetch_into (map_option scast (rr_creator_id r)) (r_creator_id v)\<rparr>
      in cbind (created_checked E (rr_created_at r)) (\<lambda>t.
         cbind (fetch_rooms E v' rs) (\<lambda>rooms. creturn (v'\<lparr>r_created_at := t\<rparr> # rooms))))"

definition MySQL_getAllRooms :: "'db env \<Rightarrow> (('db, 'z) data_state_scheme, room list) comp" where
  "MySQL_getAllRooms E =
     with_connection [] (\<lambda>c.
       cbind (db_call (db_rooms E c Rooms_all)) (fetch_rooms E (new_room (e_junk E))))"

definition MySQL_updateRoom ::
    "'db env \<Rightarrow> room \<Rightarrow> (('db, 'z) data_state_scheme, bool) comp" where
  "MySQL_updateRoom E r =
     (if sint (r_id r) \<le> 0 then creturn False
      else with_connection False (\<lambda>c.
        with_transaction E c
          (cbind (db_call (db_change E c (Update_room (r_name r) (r_id r)))) (\<lambda>affected.
           if affected > 0
           then cbind (db_call (db_commit E c)) (\<lambda>_. creturn (True, True))
           else cbind (db_call (db_commit E c)) (\<lambda>_. creturn (False, True))))))"

text \<open>
  In \<open>addRoom\<close> the inner \<open>try\<close> covers the query for \<open>created_at\<close> only. The indicator of that
  query is never set when the query finds no row, and reading it then is undefined.
\<close>

definition MySQL_addRoom ::
    "'db env \<Rightarrow> room \<Rightarrow> (('db, 'z) data_state_scheme, room option) comp" where
  "MySQL_addRoom E r =
     with_connection None (\<lambda>c.
       with_transaction E c
         (cbind (db_call (db_insert E c (Insert_room (r_name r) (r_creator_id r)))) (\<lambda>_.
          cbind (db_call (db_last_id E c T_rooms)) (\<lambda>last.
          case last of
            None \<Rightarrow> creturn (None, False)
          | Some newId \<Rightarrow>
              cbind
                (ctry
                  (cbind (db_call (db_created E c T_rooms newId)) (\<lambda>created.
                   case created of
                     None \<Rightarrow> cundef
                   | Some v \<Rightarrow> cbind (created_or_now E v) (\<lambda>t. creturn (Some t))))
                  (\<lambda>e. creturn None))
                (\<lambda>t.
                  case t of
                    None \<Rightarrow> creturn (None, False)
                  | Some t \<Rightarrow>
                      cbind (db_call (db_commit E c)) (\<lambda>_.
                        creturn (Some (r\<lparr>r_id := newId, r_created_at := t\<rparr>), True)))))))"

definition MySQL_removeRoom ::
    "'db env \<Rightarrow> long_long \<Rightarrow> (('db, 'z) data_state_scheme, bool) comp" where
  "MySQL_removeRoom E i =
     with_connection False (\<lambda>c.
       with_transaction E c
         (cbind (db_call (db_change E c (Delete_row T_rooms i))) (\<lambda>_.
          cbind (db_call (db_commit E c)) (\<lambda>_. creturn (True, True)))))"

definition MySQLRoomRepository :: "'db env \<Rightarrow> ('db, 'z) data_state_scheme room_repository" where
  "MySQLRoomRepository E =
     \<lparr>findByRoomId = MySQL_findByRoomId E,
      findByRoomName = MySQL_findByRoomName E,
      findByCreatorId = MySQL_findByCreatorId E,
      getAllRooms = MySQL_getAllRooms E,
      updateRoom = MySQL_updateRoom E,
      addRoom = MySQL_addRoom E,
      removeRoom = MySQL_removeRoom E\<rparr>"

lemma pool_silent_room_of_first_row [simp]: "pool_silent (room_of_first_row E rows)"
  by (auto simp: room_of_first_row_def split: list.splits option.splits)

lemma pool_silent_fetch_rooms [simp]: "pool_silent (fetch_rooms E v rows)"
  by (induction rows arbitrary: v) (auto simp: Let_def)

lemma find_room_method [simp]: "repository_method (find_room E q)"
  unfolding find_room_def by (intro repository_method_with_connection) auto

lemma room_methods [simp]:
  "repository_method (MySQL_findByRoomId E i)"
  "repository_method (MySQL_findByRoomName E name)"
  "repository_method (MySQL_findByCreatorId E i)"
  "repository_method (MySQL_getAllRooms E)"
  "repository_method (MySQL_updateRoom E r)"
  "repository_method (MySQL_addRoom E r)"
  "repository_method (MySQL_removeRoom E i)"
  unfolding MySQL_findByRoomId_def MySQL_findByRoomName_def MySQL_findByCreatorId_def
    MySQL_getAllRooms_def MySQL_updateRoom_def MySQL_addRoom_def MySQL_removeRoom_def
  by (auto intro!: repository_method_with_connection split: option.splits)

end
