(* ===== verification/Message_Repository.thy ===== *)
theory Message_Repository
  imports Data_Access
begin

text \<open>
  The interface \<open>IMessageRepository\<close> and its implementation \<open>MySQLMessageRepository\<close>. \<open>addMessage\<close>
  is modelled as \<open>addUser\<close> is: the message with its id and creation time, or \<open>None\<close> for
  \<open>false\<close>. Its method \<open>findByRoomId\<close> is called \<open>findMessagesByRoomId\<close> here, as the room
  repository has one of that name.
\<close>

record 's message_repository =
  findByMessageId :: "long_long \<Rightarrow> ('s, message option) comp"
  findBySenderId :: "long_long \<Rightarrow> ('s, message list) comp"
  findMessagesByRoomId :: "long_long \<Rightarrow> ('s, message list) comp"
  findByContent :: "string \<Rightarrow> ('s, message list) comp"
  findLatestByRoomId :: "long_long \<Rightarrow> int32 \<Rightarrow> ('s, message list) comp"
  addMessage :: "message \<Rightarrow> ('s, message option) comp"
  removeMessage :: "long_long \<Rightarrow> ('s, bool) comp"

definition MySQL_addMessage ::
    "'db env \<Rightarrow> message \<Rightarrow> (('db, 'z) data_state_scheme, message option) comp" where
  "MySQL_addMessage E m =
     with_connection None (\<lambda>c.
       with_transaction E c
         (cbind (db_call (db_insert E c
            (Insert_message (m_room_id m) (m_sender_id m) (m_content m)))) (\<lambda>_.
          cbind (db_call (db_last_id E c T_messages)) (\<lambda>last.
          case last of
            None \<Rightarrow> creturn (None, False)
          | Some newId \<Rightarrow>
              cbind
                (ctry
                  (cbind (db_call (db_created E c T_messages newId)) (\<lambda>created.
                     creturn (Some (created_from_base E created))))
                  (\<lambda>e. creturn None))
                (\<lambda>t.
                  case t of
                    None \<Rightarrow> creturn (None, False)
                  | Some t \<Rightarrow>
                      cbind (db_call (db_commit E c)) (\<lambda>_.
                        creturn (Some (m\<lparr>m_id := newId, m_created_at := t\<rparr>), True)))))))"

definition MySQL_removeMessage ::
    "'db env \<Rightarrow> long_long \<Rightarrow> (('db, 'z) data_state_scheme, bool) comp" where
  "MySQL_removeMessage E i =
     with_connection False (\<lambda>c.
       with_transaction E c
         (cbind (db_call (db_change E c (Delete_row T_messages i))) (\<lambda>_.
          cbind (db_call (db_commit E c)) (\<lambda>_. creturn (True, True)))))"

definition message_of_first_row ::
    "'db env \<Rightarrow> message_row list \<Rightarrow> (('db, 'z) data_state_scheme, message option) comp" where
  "message_of_first_row E rows =
     (case rows of
        [] \<Rightarrow> creturn None
      | r # _ \<Rightarrow>
          (case mr_id r of
             None \<Rightarrow> creturn None
           | Some id_val \<Rightarrow>
               cbind (created_or_now E (mr_created_at r)) (\<lambda>t.
                 creturn (Some
                   \<lparr>m_id = id_val,
                    m_room_id = fetch_into (map_option scast (mr_room_id r)) (e_junk E),
                    m_sender_id = fetch_into (map_option scast (mr_sender_id r)) (e_junk E),
                    m_content = fetch_into (mr_content r) '''',
                    m_created_at = t\<rparr>))))"

definition MySQL_findByMessageId ::
    "'db env \<Rightarrow> long_long \<Rightarrow> (('db, 'z) data_state_scheme, message option) comp" where
  "MySQL_findByMessageId E i =
     with_connection None (\<lambda>c.
       with_transaction E c
         (cbind (db_call (db_messages E c (Messages_by_id i))) (\<lambda>rows.
          cbind (message_of_first_row E rows) (\<lambda>m. creturn (m, False)))))"

fun fetch_messages ::
    "'db env \<Rightarrow> message \<Rightarrow> message_row list \<Rightarrow>
     (('db, 'z) data_state_scheme, message list) comp" where
  "fetch_messages E v [] = creturn []"
| "fetch_messages E v (r # rs) =
     (let v' = v\<lparr>m_id := fetch_into (mr_id r) (m_id v),
                m_room_id := fetch_into (map_option scast (mr_room_id r)) (m_room_id v),
                m_sender_id := fetch_into (map_option scast (mr_sender_id r)) (m_sender_id v),
                m_content := fetch_into (mr_content r) (m_content v)\<rparr>
      in cbind (created_checked E (mr_created_at r)) (\<lambda>t.
         cbind (fetch_messages E v' rs) (\<lambda>messages.
           creturn (v'\<lparr>m_created_at := t\<rparr> # messages))))"

definition list_messages ::
    "'db env \<Rightarrow> message_query \<Rightarrow> (('db, 'z) data_state_scheme, message list) comp" where
  "list_messages E q =
     with_connection [] (\<lambda>c.
       cbind (db_call (db_messages E c q)) (fetch_messages E (new_message (e_junk E))))"

definition MySQL_findBySenderId ::
    "'db env \<Rightarrow> long_long \<Rightarrow> (('db, 'z) data_state_scheme, message list) comp" where
  "MySQL_findBySenderId E sender_id = list_messages E (Messages_by_sender sender_id)"

definition MySQL_findMessagesByRoomId ::
    "'db env \<Rightarrow> long_long \<Rightarrow> (('db, 'z) data_state_scheme, message list) comp" where
  "MySQL_findMessagesByRoomId E room_id = list_messages E (Messages_by_room room_id)"

definition MySQL_findByContent ::
    "'db env \<Rightarrow> string \<Rightarrow> (('db, 'z) data_state_scheme, message list) comp" where
  "MySQL_findByContent E content = list_messages E (Messages_by_content content)"

definition MySQL_findLatestByRoomId ::
    "'db env \<Rightarrow> long_long \<Rightarrow> int32 \<Rightarrow> (('db, 'z) data_state_scheme, message list) comp" where
  "MySQL_findLatestByRoomId E room_id limit = list_messages E (Messages_latest room_id limit)"

definition MySQLMessageRepository ::
    "'db env \<Rightarrow> ('db, 'z) data_state_scheme message_repository" where
  "MySQLMessageRepository E =
     \<lparr>findByMessageId = MySQL_findByMessageId E,
      findBySenderId = MySQL_findBySenderId E,
      findMessagesByRoomId = MySQL_findMessagesByRoomId E,
      findByContent = MySQL_findByContent E,
      findLatestByRoomId = MySQL_findLatestByRoomId E,
      addMessage = MySQL_addMessage E,
      removeMessage = MySQL_removeMessage E\<rparr>"

lemma pool_silent_message_of_first_row [simp]: "pool_silent (message_of_first_row E rows)"
  by (auto simp: message_of_first_row_def split: list.splits option.splits)

lemma pool_silent_fetch_messages [simp]: "pool_silent (fetch_messages E v rows)"
  by (induction rows arbitrary: v) (auto simp: Let_def)

lemma list_messages_method [simp]: "repository_method (list_messages E q)"
  unfolding list_messages_def by (intro repository_method_with_connection) auto

lemma message_methods [simp]:
  "repository_method (MySQL_findByMessageId E i)"
  "repository_method (MySQL_findBySenderId E i)"
  "repository_method (MySQL_findMessagesByRoomId E i)"
  "repository_method (MySQL_findByContent E content)"
  "repository_method (MySQL_findLatestByRoomId E i limit)"
  "repository_method (MySQL_addMessage E m)"
  "repository_method (MySQL_removeMessage E i)"
  unfolding MySQL_findByMessageId_def MySQL_findBySenderId_def MySQL_findMessagesByRoomId_def
    MySQL_findByContent_def MySQL_findLatestByRoomId_def MySQL_addMessage_def
    MySQL_removeMessage_def
  by (auto intro!: repository_method_with_connection split: option.splits)

end
