(* ===== verification/Room_Service.thy ===== *)
theory Room_Service
  imports Session_Manager User_Repository Room_Repository Message_Repository
begin

text \<open>
  \<open>server/src/service/RoomService.cpp\<close>: who is in which room. The service keeps the active rooms
  by name, each with its members (user id and session), and the room every user is in. Its lock is
  not modelled: one handler runs at a time, as with the single thread of the example
  configuration.
\<close>

section \<open>State\<close>

record active_room =
  ar_id :: long_long
  ar_creator_id :: long_long
  ar_name :: string
  ar_members :: "(long_long \<times> sid) list"

record 'db service_state = "'db session_state" +
  rs_activeRooms :: "string \<Rightarrow> active_room option"
  rs_userToRoom :: "long_long \<Rightarrow> string option"

text \<open>The value \<open>activeRooms[name]\<close> creates.\<close>

definition no_active_room :: active_room where
  "no_active_room = \<lparr>ar_id = 0, ar_creator_id = 0, ar_name = '''', ar_members = []\<rparr>"

section \<open>Changes of the two tables\<close>

text \<open>Erase a user from the members of a room, and the room when nobody is left.\<close>

definition drop_member ::
    "long_long \<Rightarrow> string \<Rightarrow> (string \<Rightarrow> active_room option) \<Rightarrow> string \<Rightarrow> active_room option" where
  "drop_member uid name rooms =
     (case rooms name of
        None \<Rightarrow> rooms
      | Some r \<Rightarrow>
          (let r' = r\<lparr>ar_members := AList.delete uid (ar_members r)\<rparr>
           in if ar_members r' = [] then rooms(name := None) else rooms(name := Some r')))"

definition leave_current :: "long_long \<Rightarrow> ('db, 'z) service_state_scheme \<Rightarrow> ('db, 'z) service_state_scheme" where
  "leave_current uid s =
     (case rs_userToRoom s uid of
        None \<Rightarrow> s
      | Some oldRoomName \<Rightarrow>
          s\<lparr>rs_activeRooms := drop_member uid oldRoomName (rs_activeRooms s),
            rs_userToRoom := (rs_userToRoom s)(uid := None)\<rparr>)"

definition enter_room ::
    "long_long \<Rightarrow> sid \<Rightarrow> string \<Rightarrow> room \<Rightarrow> ('db, 'z) service_state_scheme \<Rightarrow>
     ('db, 'z) service_state_scheme" where
  "enter_room uid i roomname room s =
     (let s' = s\<lparr>rs_userToRoom := (rs_userToRoom s)(uid := Some roomname)\<rparr>;
          r = (case rs_activeRooms s roomname of
                 Some r \<Rightarrow> r
               | None \<Rightarrow> no_active_room
                   \<lparr>ar_id := r_id room, ar_creator_id := r_creator_id room, ar_name := r_name room\<rparr>)
      in s'\<lparr>rs_activeRooms := (rs_activeRooms s)(roomname :=
             Some (r\<lparr>ar_members := AList.update uid i (ar_members r)\<rparr>))\<rparr>)"

definition leave_room :: "long_long \<Rightarrow> string \<Rightarrow> ('db, 'z) service_state_scheme \<Rightarrow> ('db, 'z) service_state_scheme" where
  "leave_room uid roomname s =
     (if rs_userToRoom s uid = Some roomname
      then s\<lparr>rs_userToRoom := (rs_userToRoom s)(uid := None),
             rs_activeRooms := drop_member uid roomname (rs_activeRooms s)\<rparr>
      else s)"

definition open_room ::
    "long_long \<Rightarrow> sid \<Rightarrow> string \<Rightarrow> room \<Rightarrow> ('db, 'z) service_state_scheme \<Rightarrow>
     ('db, 'z) service_state_scheme" where
  "open_room uid i roomname room s =
     (let r = (case rs_activeRooms s roomname of Some r \<Rightarrow> r | None \<Rightarrow> no_active_room)
      in s\<lparr>rs_userToRoom := (rs_userToRoom s)(uid := Some roomname),
           rs_activeRooms := (rs_activeRooms s)(roomname := Some
             (r\<lparr>ar_id := r_id room, ar_creator_id := uid, ar_name := r_name room,
                ar_members := AList.update uid i (ar_members r)\<rparr>))\<rparr>)"

definition close_membership ::
    "long_long \<Rightarrow> string \<Rightarrow> ('db, 'z) service_state_scheme \<Rightarrow> ('db, 'z) service_state_scheme" where
  "close_membership uid roomName s =
     s\<lparr>rs_activeRooms := drop_member uid roomName (rs_activeRooms s),
       rs_userToRoom := (rs_userToRoom s)(uid := None)\<rparr>"

section \<open>Operations\<close>

definition getUserCurrentRoomName :: "long_long \<Rightarrow> (('db, 'z) service_state_scheme, string) comp" where
  "getUserCurrentRoomName uid =
     cget (\<lambda>s. case rs_userToRoom s uid of Some name \<Rightarrow> name | None \<Rightarrow> '''')"

definition getUserCurrentRoomId :: "long_long \<Rightarrow> (('db, 'z) service_state_scheme, long_long) comp" where
  "getUserCurrentRoomId uid =
     cget (\<lambda>s.
       case rs_userToRoom s uid of
         None \<Rightarrow> 0
       | Some roomName \<Rightarrow> (case rs_activeRooms s roomName of None \<Rightarrow> 0 | Some r \<Rightarrow> ar_id r))"

definition broadcastToRoom ::
    "string \<Rightarrow> envelope \<Rightarrow> long_long \<Rightarrow> (('db, 'z) service_state_scheme, unit) comp" where
  "broadcastToRoom roomName e excludeUserId =
     cbind (cget (\<lambda>s. rs_activeRooms s roomName)) (\<lambda>r.
     case r of
       None \<Rightarrow> creturn ()
     | Some room \<Rightarrow>
         (let recipients = map snd (filter (\<lambda>m. fst m \<noteq> excludeUserId) (ar_members room))
          in send_each (\<lambda>_ _. True) e recipients))"

definition room_response :: "room_operation_request \<Rightarrow> bool \<Rightarrow> string \<Rightarrow> envelope" where
  "room_response req success msg =
     envelope_with (RoomOperationResponse
       \<lparr>op_success = success, op_operation = oq_operation req, op_room_name = oq_room_name req,
        op_message = msg\<rparr>)"

definition member_event ::
    "user_event_type \<Rightarrow> long_long \<Rightarrow> string \<Rightarrow> string \<Rightarrow> envelope" where
  "member_event ev uid name what =
     notification_envelope ev (to_string uid) name (''User '' @ name @ what)"

text \<open>The three operations; a refused \<open>JOIN\<close> answers at once, with the two other fields unset.\<close>

definition join_operation ::
    "('db, 'z) service_state_scheme room_repository \<Rightarrow> sid \<Rightarrow> long_long \<Rightarrow> room_operation_request \<Rightarrow>
     (('db, 'z) service_state_scheme, unit) comp" where
  "join_operation rooms i uid req =
     (let roomname = oq_room_name req in
      cbind (findByRoomName rooms roomname) (\<lambda>roomOpt.
      case roomOpt of
        None \<Rightarrow>
          session_send i (envelope_with (RoomOperationResponse (room_operation_response_default
            \<lparr>op_success := False, op_message := ''Room '' @ [CHR 0x27] @ roomname @ [CHR 0x27] @
              '' does not exist.''\<rparr>)))
      | Some room \<Rightarrow>
          cthen (cmodify (\<lambda>s. enter_room uid i roomname room (leave_current uid s)))
          (cbind (session_username i) (\<lambda>name.
           cthen (broadcastToRoom roomname (member_event USER_JOINED uid name '' has joined the room.'')
             uid)
           (session_send i (room_response req True
             (''Joined room '' @ roomname @ '' successfully.'')))))))"

definition leave_operation ::
    "sid \<Rightarrow> long_long \<Rightarrow> room_operation_request \<Rightarrow> (('db, 'z) service_state_scheme, unit) comp" where
  "leave_operation i uid req =
     (let roomname = oq_room_name req in
      cthen (cmodify (leave_room uid roomname))
      (cbind (session_username i) (\<lambda>name.
       cthen (broadcastToRoom roomname (member_event USER_LEFT uid name '' has left the room.'') uid)
       (session_send i (room_response req True (''Left room '' @ roomname @ '' successfully.''))))))"

definition create_operation ::
    "'db env \<Rightarrow> ('db, 'z) service_state_scheme room_repository \<Rightarrow> sid \<Rightarrow> long_long \<Rightarrow>
     room_operation_request \<Rightarrow> (('db, 'z) service_state_scheme, unit) comp" where
  "create_operation E rooms i uid req =
     (let roomname = oq_room_name req in
      cbind (findByRoomName rooms roomname) (\<lambda>taken.
      if taken \<noteq> None
      then session_send i (room_response req False
        (''Room name '' @ [CHR 0x27] @ roomname @ [CHR 0x27] @ '' is already taken.''))
      else
        cbind (addRoom rooms ((new_room (e_junk E))\<lparr>r_name := roomname, r_creator_id := uid\<rparr>)) (\<lambda>res.
        case res of
          Some room \<Rightarrow>
            cthen (cmodify (open_room uid i roomname room))
            (session_send i (room_response req True
              (''Created room '' @ roomname @ '' successfully.'')))
        | None \<Rightarrow>
            session_send i (room_response req False (''Created room '' @ roomname @ '' failed.'')))))"

definition handleRoomOperation ::
    "'db env \<Rightarrow> ('db, 'z) service_state_scheme room_repository \<Rightarrow> sid \<Rightarrow> room_operation_request \<Rightarrow>
     (('db, 'z) service_state_scheme, unit) comp" where
  "handleRoomOperation E rooms i req =
     cbind (session_authenticated i) (\<lambda>auth.
     if \<not> auth then creturn ()
     else
       cbind (session_user_id i) (\<lambda>uid.
       case oq_operation req of
         JOIN \<Rightarrow> join_operation rooms i uid req
       | LEAVE \<Rightarrow> leave_operation i uid req
       | CREATE \<Rightarrow> create_operation E rooms i uid req
       | Other_operation n \<Rightarrow> session_send i (room_response req False ''Unknown operation.'')))"

text \<open>
  One entry of a history response. The name comes from a second lookup, whose result is used
  without a test; without a value that is undefined.
\<close>

definition history_entry ::
    "'db env \<Rightarrow> ('db, 'z) service_state_scheme user_repository \<Rightarrow> string \<Rightarrow> message \<Rightarrow>
     (('db, 'z) service_state_scheme, message_broadcast) comp" where
  "history_entry E users roomname msg =
     cbind (findByUserId users (m_sender_id msg)) (\<lambda>known.
     cbind
       (if known = None then creturn ''Unknown''
        else cbind (findByUserId users (m_sender_id msg)) (\<lambda>again.
          case again of None \<Rightarrow> cundef | Some u \<Rightarrow> creturn (u_username u)))
       (\<lambda>name.
         creturn
           \<lparr>mb_from_user_id = to_string (m_sender_id msg), mb_from_username = name,
            mb_content = m_content msg,
            mb_timestamp = Some (convertTimePointToTimestamp (e_tps E) (m_created_at msg)),
            mb_room_name = Some roomname\<rparr>))"

definition history_limit :: "int32 \<Rightarrow> int32" where
  "history_limit requested = (if 0 < sint requested then requested else 50)"

definition handleHistoryRequest ::
    "'db env \<Rightarrow> ('db, 'z) service_state_scheme user_repository \<Rightarrow>
     ('db, 'z) service_state_scheme message_repository \<Rightarrow> sid \<Rightarrow> history_message_request \<Rightarrow>
     (('db, 'z) service_state_scheme, unit) comp" where
  "handleHistoryRequest E users messages i req =
     cbind (session_authenticated i) (\<lambda>auth.
     if \<not> auth then creturn ()
     else
       cbind (session_user_id i) (\<lambda>uid.
       cbind (cget (\<lambda>s. rs_userToRoom s uid)) (\<lambda>current.
       if current \<noteq> Some (hq_room_name req) then creturn ()
       else
         cbind (getUserCurrentRoomId uid) (\<lambda>roomId.
         cbind (findLatestByRoomId messages roomId (history_limit (hq_limit req))) (\<lambda>latest.
         cbind (cmap (history_entry E users (hq_room_name req)) (rev latest)) (\<lambda>entries.
         session_send i (envelope_with (HistoryMessageResponse
           \<lparr>hp_room_name = hq_room_name req, hp_messages = entries\<rparr>))))))))"

definition handleDisconnect :: "sid \<Rightarrow> (('db, 'z) service_state_scheme, unit) comp" where
  "handleDisconnect i =
     cbind (session_authenticated i) (\<lambda>auth.
     if \<not> auth then creturn ()
     else
       cbind (session_user_id i) (\<lambda>uid.
       cbind (cget (\<lambda>s. rs_userToRoom s uid)) (\<lambda>current.
       case current of
         None \<Rightarrow> creturn ()
       | Some roomName \<Rightarrow>
           cbind (session_username i) (\<lambda>name.
           cthen (broadcastToRoom roomName (member_event USER_LEFT uid name '' has left the room.'') uid)
           (cmodify (close_membership uid roomName))))))"

end
