(* ===== verification/Sql_Semantics.thy ===== *)
theory Sql_Semantics
  imports User_Repository Room_Repository Message_Repository
begin

text \<open>
  What the properties of the repositories assume of the database: the documented behaviour of
  MySQL in strict mode on the tables of \<open>schema.sql\<close>. The database states are abstract; a
  \<open>db_view\<close> reads them: the committed tables, the tables as a connection sees them inside its
  transaction, which transaction is open, the last generated id, and when two texts are equal
  under the column's collation (\<open>utf8mb4_unicode_ci\<close>, which ignores case), when a text compares
  equal to a number, and when a text is matched by a \<open>LIKE\<close> on a fragment. \<open>engine_ok\<close> is the
  hypothesis; \<open>Reference_Engine\<close> gives an engine that satisfies it.
\<close>

section \<open>Tables\<close>

record db_user =
  du_id :: int32
  du_username :: string
  du_hashed_password :: string
  du_salt :: string
  du_created_at :: "tm option"

record db_room =
  dr_id :: int32
  dr_name :: string
  dr_creator_id :: int32
  dr_created_at :: "tm option"

record db_message =
  dm_id :: long_long
  dm_room_id :: int32
  dm_sender_id :: int32
  dm_content :: string
  dm_created_at :: "tm option"

record tables =
  t_users :: "db_user list"
  t_rooms :: "db_room list"
  t_messages :: "db_message list"

definition user_row_of :: "db_user \<Rightarrow> user_row" where
  "user_row_of u =
     \<lparr>ur_id = Some (du_id u), ur_username = Some (du_username u),
      ur_hashed_password = Some (du_hashed_password u), ur_salt = Some (du_salt u),
      ur_created_at = du_created_at u\<rparr>"

definition room_row_of :: "db_room \<Rightarrow> room_row" where
  "room_row_of r =
     \<lparr>rr_id = Some (dr_id r), rr_name = Some (dr_name r), rr_creator_id = Some (dr_creator_id r),
      rr_created_at = dr_created_at r\<rparr>"

definition message_row_of :: "db_message \<Rightarrow> message_row" where
  "message_row_of m =
     \<lparr>mr_id = Some (dm_id m), mr_room_id = Some (dm_room_id m), mr_sender_id = Some (dm_sender_id m),
      mr_content = Some (dm_content m), mr_created_at = dm_created_at m\<rparr>"

text \<open>The order of \<open>ORDER BY created_at\<close>: null first, then by date and time.\<close>

definition tm_key :: "tm option \<Rightarrow> int" where
  "tm_key c =
     (case c of
        None \<Rightarrow> -1
      | Some t \<Rightarrow>
          ((((tm_year t * 12 + tm_mon t) * 32 + tm_mday t) * 24 + tm_hour t) * 60 + tm_min t) * 61
            + tm_sec t)"

record 'db db_view =
  dv_tables :: "'db \<Rightarrow> tables"
  dv_inside :: "conn \<Rightarrow> 'db \<Rightarrow> tables"
  dv_open :: "'db \<Rightarrow> conn option"
  dv_last_id :: "'db \<Rightarrow> long_long"
  dv_same_text :: "string \<Rightarrow> string \<Rightarrow> bool"
  dv_same_number :: "string \<Rightarrow> long_long \<Rightarrow> bool"
  dv_like :: "string \<Rightarrow> string \<Rightarrow> bool"

text \<open>What connection \<open>c\<close> sees.\<close>

definition dv_seen :: "'db db_view \<Rightarrow> conn \<Rightarrow> 'db \<Rightarrow> tables" where
  "dv_seen V c d = (if dv_open V d = Some c then dv_inside V c d else dv_tables V d)"

section \<open>Answers and effects of the statements\<close>

fun user_matches :: "'db db_view \<Rightarrow> user_query \<Rightarrow> db_user \<Rightarrow> bool" where
  "user_matches V (Users_by_username n) u = dv_same_text V (du_username u) n"
| "user_matches V (Users_by_id i) u = (scast (du_id u) = i)"
| "user_matches V Users_all u = True"

fun room_matches :: "'db db_view \<Rightarrow> room_query \<Rightarrow> db_room \<Rightarrow> bool" where
  "room_matches V (Rooms_by_name (V_text n)) r = dv_same_text V (dr_name r) n"
| "room_matches V (Rooms_by_name (V_int i)) r = dv_same_number V (dr_name r) i"
| "room_matches V (Rooms_by_creator i) r = (scast (dr_creator_id r) = i)"
| "room_matches V Rooms_all r = True"

fun message_matches :: "'db db_view \<Rightarrow> message_query \<Rightarrow> db_message \<Rightarrow> bool" where
  "message_matches V (Messages_by_id i) m = (dm_id m = i)"
| "message_matches V (Messages_by_sender i) m = (scast (dm_sender_id m) = i)"
| "message_matches V (Messages_by_room i) m = (scast (dm_room_id m) = i)"
| "message_matches V (Messages_by_content s) m = dv_like V (dm_content m) s"
| "message_matches V (Messages_latest i n) m = (scast (dm_room_id m) = i)"

definition user_answer :: "'db db_view \<Rightarrow> user_query \<Rightarrow> tables \<Rightarrow> user_row list \<Rightarrow> bool" where
  "user_answer V q t rows \<longleftrightarrow>
     mset rows = mset (map user_row_of (filter (user_matches V q) (t_users t)))"

definition room_answer :: "'db db_view \<Rightarrow> room_query \<Rightarrow> tables \<Rightarrow> room_row list \<Rightarrow> bool" where
  "room_answer V q t rows \<longleftrightarrow>
     mset rows = mset (map room_row_of (filter (room_matches V q) (t_rooms t)))"

definition message_answer ::
    "'db db_view \<Rightarrow> message_query \<Rightarrow> tables \<Rightarrow> message_row list \<Rightarrow> bool" where
  "message_answer V q t rows \<longleftrightarrow>
     (\<exists>ms. mset ms = mset (filter (message_matches V q) (t_messages t)) \<and>
        (case q of
           Messages_by_room i \<Rightarrow>
             sorted (map (\<lambda>m. tm_key (dm_created_at m)) ms) \<and> rows = map message_row_of ms
         | Messages_latest i n \<Rightarrow>
             sorted (rev (map (\<lambda>m. tm_key (dm_created_at m)) ms)) \<and>
             rows = map message_row_of (take (nat (sint n)) ms)
         | _ \<Rightarrow> rows = map message_row_of ms))"

fun inserted :: "'db db_view \<Rightarrow> sql_insert \<Rightarrow> tables \<Rightarrow> tables \<Rightarrow> long_long \<Rightarrow> bool" where
  "inserted V (Insert_user n h s) t t' i \<longleftrightarrow>
     (\<exists>k cr. i = scast k \<and> 0 < sint k \<and> k \<notin> du_id ` set (t_users t) \<and>
        (\<forall>u \<in> set (t_users t). \<not> dv_same_text V (du_username u) n) \<and>
        t' = t\<lparr>t_users := t_users t @
          [\<lparr>du_id = k, du_username = n, du_hashed_password = h, du_salt = s, du_created_at = cr\<rparr>]\<rparr>)"
| "inserted V (Insert_room n creator) t t' i \<longleftrightarrow>
     (\<exists>k cr w. i = scast k \<and> 0 < sint k \<and> k \<notin> dr_id ` set (t_rooms t) \<and>
        (\<forall>r \<in> set (t_rooms t). \<not> dv_same_text V (dr_name r) n) \<and>
        scast w = creator \<and> w \<in> du_id ` set (t_users t) \<and>
        t' = t\<lparr>t_rooms := t_rooms t @
          [\<lparr>dr_id = k, dr_name = n, dr_creator_id = w, dr_created_at = cr\<rparr>]\<rparr>)"
| "inserted V (Insert_message room sender content) t t' i \<longleftrightarrow>
     (\<exists>cr r w. 0 < sint i \<and> i \<notin> dm_id ` set (t_messages t) \<and>
        scast r = room \<and> r \<in> dr_id ` set (t_rooms t) \<and>
        scast w = sender \<and> w \<in> du_id ` set (t_users t) \<and>
        t' = t\<lparr>t_messages := t_messages t @
          [\<lparr>dm_id = i, dm_room_id = r, dm_sender_id = w, dm_content = content,
            dm_created_at = cr\<rparr>]\<rparr>)"

definition update_users :: "string \<Rightarrow> string \<Rightarrow> string \<Rightarrow> long_long \<Rightarrow> db_user list \<Rightarrow> db_user list" where
  "update_users n h s i =
     map (\<lambda>u. if scast (du_id u) = i
          then u\<lparr>du_username := n, du_hashed_password := h, du_salt := s\<rparr> else u)"

definition update_rooms :: "string \<Rightarrow> long_long \<Rightarrow> db_room list \<Rightarrow> db_room list" where
  "update_rooms n i = map (\<lambda>r. if scast (dr_id r) = i then r\<lparr>dr_name := n\<rparr> else r)"

text \<open>The number of affected rows of an update counts the rows it really changes.\<close>

fun changed :: "'db db_view \<Rightarrow> sql_change \<Rightarrow> tables \<Rightarrow> tables \<Rightarrow> nat \<Rightarrow> bool" where
  "changed V (Update_user n h s i) t t' k \<longleftrightarrow>
     t' = t\<lparr>t_users := update_users n h s i (t_users t)\<rparr> \<and> (k = 0 \<longleftrightarrow> t' = t) \<and>
     (\<forall>u \<in> set (t_users t). \<forall>u' \<in> set (t_users t).
        scast (du_id u) = i \<longrightarrow> scast (du_id u') \<noteq> i \<longrightarrow> \<not> dv_same_text V (du_username u') n)"
| "changed V (Update_room n i) t t' k \<longleftrightarrow>
     t' = t\<lparr>t_rooms := update_rooms n i (t_rooms t)\<rparr> \<and> (k = 0 \<longleftrightarrow> t' = t) \<and>
     (\<forall>r \<in> set (t_rooms t). \<forall>r' \<in> set (t_rooms t).
        scast (dr_id r) = i \<longrightarrow> scast (dr_id r') \<noteq> i \<longrightarrow> \<not> dv_same_text V (dr_name r') n)"
| "changed V (Delete_row T_users i) t t' k \<longleftrightarrow>
     t' = t\<lparr>t_users := filter (\<lambda>u. scast (du_id u) \<noteq> i) (t_users t)\<rparr>"
| "changed V (Delete_row T_rooms i) t t' k \<longleftrightarrow>
     t' = t\<lparr>t_rooms := filter (\<lambda>r. scast (dr_id r) \<noteq> i) (t_rooms t)\<rparr>"
| "changed V (Delete_row T_messages i) t t' k \<longleftrightarrow>
     t' = t\<lparr>t_messages := filter (\<lambda>m. dm_id m \<noteq> i) (t_messages t)\<rparr>"

text \<open>The \<open>created_at\<close> of the row with an id; \<open>None\<close> when there is no such row.\<close>

definition created_in :: "table \<Rightarrow> long_long \<Rightarrow> tables \<Rightarrow> tm option option" where
  "created_in T i t =
     (case T of
        T_users \<Rightarrow> map_option du_created_at (find (\<lambda>u. scast (du_id u) = i) (t_users t))
      | T_rooms \<Rightarrow> map_option dr_created_at (find (\<lambda>r. scast (dr_id r) = i) (t_rooms t))
      | T_messages \<Rightarrow> map_option dm_created_at (find (\<lambda>m. dm_id m = i) (t_messages t)))"

section \<open>The laws of the engine\<close>

definition same_world :: "'db db_view \<Rightarrow> conn \<Rightarrow> 'db \<Rightarrow> 'db \<Rightarrow> bool" where
  "same_world V c d d' \<longleftrightarrow>
     dv_tables V d' = dv_tables V d \<and> dv_open V d' = dv_open V d \<and>
     dv_inside V c d' = dv_inside V c d \<and> dv_last_id V d' = dv_last_id V d"

text \<open>
  Transactions: a failed commit leaves it open whether the changes were made (the connection
  may have died on either side of it), but never makes a part of them.
\<close>

definition transaction_laws :: "'db env \<Rightarrow> 'db db_view \<Rightarrow> bool" where
  "transaction_laws E V \<longleftrightarrow>
     (\<forall>c d. dv_open V d = None \<longrightarrow>
        (case db_begin E c d of
           (Inl e, d') \<Rightarrow> dv_tables V d' = dv_tables V d \<and> dv_open V d' = None
         | (Inr _, d') \<Rightarrow> dv_tables V d' = dv_tables V d \<and> dv_open V d' = Some c \<and>
             dv_inside V c d' = dv_tables V d)) \<and>
     (\<forall>c d. dv_open V d = Some c \<longrightarrow>
        (case db_commit E c d of
           (Inl e, d') \<Rightarrow> dv_tables V d' \<in> {dv_tables V d, dv_inside V c d} \<and>
             dv_open V d' = Some c
         | (Inr _, d') \<Rightarrow> dv_tables V d' = dv_inside V c d \<and> dv_open V d' = None)) \<and>
     (\<forall>c d. dv_open V d = Some c \<longrightarrow>
        dv_tables V (db_rollback E c d) = dv_tables V d \<and> dv_open V (db_rollback E c d) = None)"

definition query_laws :: "'db env \<Rightarrow> 'db db_view \<Rightarrow> bool" where
  "query_laws E V \<longleftrightarrow>
     (\<forall>c q d r d'. db_users E c q d = (r, d') \<longrightarrow> same_world V c d d' \<and>
        (\<forall>rows. r = Inr rows \<longrightarrow> user_answer V q (dv_seen V c d) rows)) \<and>
     (\<forall>c q d r d'. db_rooms E c q d = (r, d') \<longrightarrow> same_world V c d d' \<and>
        (\<forall>rows. r = Inr rows \<longrightarrow> room_answer V q (dv_seen V c d) rows)) \<and>
     (\<forall>c q d r d'. db_messages E c q d = (r, d') \<longrightarrow> same_world V c d d' \<and>
        (\<forall>rows. r = Inr rows \<longrightarrow> message_answer V q (dv_seen V c d) rows)) \<and>
     (\<forall>c T d r d'. db_last_id E c T d = (r, d') \<longrightarrow> same_world V c d d' \<and>
        (\<forall>i. r = Inr (Some i) \<longrightarrow> i = dv_last_id V d)) \<and>
     (\<forall>c T i d r d'. db_created E c T i d = (r, d') \<longrightarrow> same_world V c d d' \<and>
        (\<forall>x. r = Inr x \<longrightarrow> x = created_in T i (dv_seen V c d)))"

definition update_laws :: "'db env \<Rightarrow> 'db db_view \<Rightarrow> bool" where
  "update_laws E V \<longleftrightarrow>
     (\<forall>c st d r d'. dv_open V d = Some c \<longrightarrow> db_insert E c st d = (r, d') \<longrightarrow>
        dv_tables V d' = dv_tables V d \<and> dv_open V d' = Some c \<and>
        (\<forall>u. r = Inr u \<longrightarrow>
           inserted V st (dv_inside V c d) (dv_inside V c d') (dv_last_id V d'))) \<and>
     (\<forall>c st d r d'. dv_open V d = Some c \<longrightarrow> db_change E c st d = (r, d') \<longrightarrow>
        dv_tables V d' = dv_tables V d \<and> dv_open V d' = Some c \<and>
        (\<forall>k. r = Inr k \<longrightarrow> changed V st (dv_inside V c d) (dv_inside V c d') k))"

definition engine_ok :: "'db env \<Rightarrow> 'db db_view \<Rightarrow> bool" where
  "engine_ok E V \<longleftrightarrow> transaction_laws E V \<and> query_laws E V \<and> update_laws E V \<and> equivp (dv_same_text V)"

text \<open>The constraints of the schema: primary keys, positive ids, unique names.\<close>

definition unique_text :: "('t \<Rightarrow> string) \<Rightarrow> (string \<Rightarrow> string \<Rightarrow> bool) \<Rightarrow> 't list \<Rightarrow> bool" where
  "unique_text name same xs \<longleftrightarrow>
     (\<forall>i < length xs. \<forall>j < length xs. same (name (xs ! i)) (name (xs ! j)) \<longrightarrow> i = j)"

definition schema_ok :: "'db db_view \<Rightarrow> tables \<Rightarrow> bool" where
  "schema_ok V t \<longleftrightarrow>
     distinct (map du_id (t_users t)) \<and> (\<forall>u \<in> set (t_users t). 0 < sint (du_id u)) \<and>
     unique_text du_username (dv_same_text V) (t_users t) \<and>
     distinct (map dr_id (t_rooms t)) \<and> (\<forall>r \<in> set (t_rooms t). 0 < sint (dr_id r)) \<and>
     unique_text dr_name (dv_same_text V) (t_rooms t) \<and>
     distinct (map dm_id (t_messages t))"

declare inserted.simps [simp del] changed.simps [simp del]

end
