(* ===== verification/Repository_Facts.thy ===== *)
theory Repository_Facts
  imports Sql_Semantics
begin

text \<open>
  What the repository methods do to the tables and what their results say about them, for an
  engine that obeys \<open>engine_ok\<close>. The general rules \<open>plain_method\<close> and \<open>transaction_method\<close> take a
  fact about the body of a method, with and without a transaction, to the method itself, through
  the borrowing of the connection, the \<open>catch\<close> clauses and the rollback; every method is an
  instance of one of them.
\<close>

section \<open>The two shapes of a repository method\<close>

definition idle :: "'db db_view \<Rightarrow> 'db \<Rightarrow> bool" where
  "idle V d \<longleftrightarrow> dv_open V d = None"

lemma same_world_refl [simp]: "same_world V c d d"
  by (simp add: same_world_def)

lemma same_world_trans: "same_world V c d1 d2 \<Longrightarrow> same_world V c d2 d3 \<Longrightarrow> same_world V c d1 d3"
  by (simp add: same_world_def)

lemma engine_okD:
  assumes "engine_ok E V"
  shows "transaction_laws E V" "query_laws E V" "update_laws E V" "equivp (dv_same_text V)"
  using assms by (simp_all add: engine_ok_def)

lemma begin_law:
  assumes "transaction_laws E V" "dv_open V d = None"
  shows "(db_begin E c d = (Inl e, d') \<longrightarrow> dv_tables V d' = dv_tables V d \<and> dv_open V d' = None) \<and>
    (db_begin E c d = (Inr x, d') \<longrightarrow> dv_tables V d' = dv_tables V d \<and> dv_open V d' = Some c \<and>
      dv_inside V c d' = dv_tables V d)"
proof -
  from assms(1) have "\<forall>c d. dv_open V d = None \<longrightarrow>
        (case db_begin E c d of
           (Inl e, d') \<Rightarrow> dv_tables V d' = dv_tables V d \<and> dv_open V d' = None
         | (Inr _, d') \<Rightarrow> dv_tables V d' = dv_tables V d \<and> dv_open V d' = Some c \<and>
             dv_inside V c d' = dv_tables V d)"
    unfolding transaction_laws_def by (elim conjE)
  from this [rule_format, OF assms(2), of c] show ?thesis by auto
qed

lemma commit_law:
  assumes "transaction_laws E V" "dv_open V d = Some c"
  shows "(db_commit E c d = (Inl e, d') \<longrightarrow> dv_tables V d' \<in> {dv_tables V d, dv_inside V c d} \<and>
      dv_open V d' = Some c) \<and>
    (db_commit E c d = (Inr x, d') \<longrightarrow> dv_tables V d' = dv_inside V c d \<and> dv_open V d' = None)"
proof -
  from assms(1) have "\<forall>c d. dv_open V d = Some c \<longrightarrow>
        (case db_commit E c d of
           (Inl e, d') \<Rightarrow> dv_tables V d' \<in> {dv_tables V d, dv_inside V c d} \<and>
             dv_open V d' = Some c
         | (Inr _, d') \<Rightarrow> dv_tables V d' = dv_inside V c d \<and> dv_open V d' = None)"
    unfolding transaction_laws_def by (elim conjE)
  from this [rule_format, OF assms(2)] show ?thesis by auto
qed

lemma rollback_law:
  "transaction_laws E V \<Longrightarrow> dv_open V d = Some c \<Longrightarrow>
   dv_tables V (db_rollback E c d) = dv_tables V d \<and> dv_open V (db_rollback E c d) = None"
  unfolding transaction_laws_def by (elim conjE) blast

text \<open>A call of the engine, by cases on what it gives.\<close>

lemma db_callE:
  assumes "db_call f s = (out, t)"
  obtains (thrown) e d where "f (ds_db s) = (Inl e, d)" "out = Throw e" "t = s\<lparr>ds_db := d\<rparr>"
    | (returned) a d where "f (ds_db s) = (Inr a, d)" "out = Ret a" "t = s\<lparr>ds_db := d\<rparr>"
  using assms by (cases "f (ds_db s)"; cases "fst (f (ds_db s))") (auto simp: db_call_def)

lemma cbindE:
  assumes "cbind m f s = (out, t)"
  obtains (returned) a u where "m s = (Ret a, u)" "f a u = (out, t)"
    | (thrown) e where "m s = (Throw e, t)" "out = Throw e"
    | (blocked) "m s = (Block, t)" "out = Block"
    | (undefined') "m s = (Undef, t)" "out = Undef"
  using assms by (cases "m s"; cases "fst (m s)") (auto simp: cbind_def)

lemma with_transactionE:
  fixes s t :: "('db, 'z) data_state_scheme"
  assumes ok: "transaction_laws E V" and idle: "idle V (ds_db s)"
    and run: "with_transaction E c body s = (out, t)"
  obtains (not_begun) e where "out = Throw e" "dv_tables V (ds_db t) = dv_tables V (ds_db s)"
      "idle V (ds_db t)"
    | (ran) s1 o1 u where "dv_open V (ds_db s1) = Some c"
      "dv_inside V c (ds_db s1) = dv_tables V (ds_db s)"
      "dv_tables V (ds_db s1) = dv_tables V (ds_db s)" "body s1 = (o1, u)"
      "transaction_scope E c body s1 = (out, t)"
proof -
  note l = begin_law [OF ok idle [unfolded idle_def], of c]
  from run have "cbind (db_call (db_begin E c)) (\<lambda>_. transaction_scope E c body) s = (out, t)"
    by (simp add: with_transaction_def)
  then show thesis
  proof (cases rule: cbindE)
    case (returned a u)
    from returned(1) have "dv_tables V (ds_db u) = dv_tables V (ds_db s)"
      "dv_open V (ds_db u) = Some c" "dv_inside V c (ds_db u) = dv_tables V (ds_db s)"
      using l by (auto elim: db_callE)
    moreover obtain o1 w where "body u = (o1, w)" by fastforce
    ultimately show thesis using returned(2) ran by blast
  next
    case (thrown e)
    from thrown(1) have "dv_tables V (ds_db t) = dv_tables V (ds_db s)" "idle V (ds_db t)"
      using l by (auto simp: idle_def elim: db_callE)
    then show thesis using thrown(2) not_begun by blast
  qed (auto elim: db_callE)
qed

lemma transaction_method:
  fixes s t :: "('db, 'z) data_state_scheme"
  assumes ok: "transaction_laws E V" and idle: "idle V (ds_db s)"
    and run: "with_connection dflt (\<lambda>c. with_transaction E c (body c)) s = (out, t)"
    and W: "W (dv_tables V (ds_db s))"
    and body: "\<And>c s1 o1 u. dv_open V (ds_db s1) = Some c \<Longrightarrow>
      dv_inside V c (ds_db s1) = dv_tables V (ds_db s) \<Longrightarrow>
      dv_tables V (ds_db s1) = dv_tables V (ds_db s) \<Longrightarrow> body c s1 = (o1, u) \<Longrightarrow>
      (case o1 of
         Ret (a, committed) \<Rightarrow>
           dv_open V (ds_db u) = (if committed then None else Some c) \<and> Q a (dv_tables V (ds_db u))
       | Throw e \<Rightarrow> dv_open V (ds_db u) = Some c \<and> W (dv_tables V (ds_db u))
       | _ \<Rightarrow> False)"
  shows "idle V (ds_db t) \<and>
    (case out of
       Ret a \<Rightarrow> Q a (dv_tables V (ds_db t)) \<or> (a = dflt \<and> W (dv_tables V (ds_db t)))
     | Throw e \<Rightarrow> W (dv_tables V (ds_db t))
     | Block \<Rightarrow> dv_tables V (ds_db t) = dv_tables V (ds_db s)
     | Undef \<Rightarrow> False)"
  using run
proof (cases rule: with_connectionE)
  case unavailable
  with idle W show ?thesis by auto
next
  case (ran c p o1 u p' v)
  have rb: "dv_open V d = Some c \<Longrightarrow> dv_tables V (db_rollback E c d) = dv_tables V d
      \<and> dv_open V (db_rollback E c d) = None" for d
    using rollback_law [OF ok] by blast
  have idle': "idle V (ds_db (s\<lparr>ds_pool := p\<rparr>))" using idle by simp
  have "idle V (ds_db u) \<and>
    (case o1 of
       Ret a \<Rightarrow> Q a (dv_tables V (ds_db u))
     | Throw e \<Rightarrow> W (dv_tables V (ds_db u))
     | _ \<Rightarrow> False)"
  proof (rule with_transactionE [OF ok idle' ran(2)])
    fix e assume not_begun: "o1 = Throw e"
      "dv_tables V (ds_db u) = dv_tables V (ds_db (s\<lparr>ds_pool := p\<rparr>))" "idle V (ds_db u)"
    with W show ?thesis by simp
  next
    fix s1 o2 w
    assume ran: "dv_open V (ds_db s1) = Some c"
      "dv_inside V c (ds_db s1) = dv_tables V (ds_db (s\<lparr>ds_pool := p\<rparr>))"
      "dv_tables V (ds_db s1) = dv_tables V (ds_db (s\<lparr>ds_pool := p\<rparr>))"
      "body c s1 = (o2, w)" "transaction_scope E c (body c) s1 = (o1, u)"
    have b: "dv_inside V c (ds_db s1) = dv_tables V (ds_db s)"
      "dv_tables V (ds_db s1) = dv_tables V (ds_db s)" using ran(2,3) by simp_all
    note spec = body [OF ran(1) b ran(4)]
    show ?thesis
    proof (cases o2)
      case (Ret r)
      obtain a k where r: "r = (a, k)" by (cases r)
      with Ret spec have k: "dv_open V (ds_db w) = (if k then None else Some c)"
        "Q a (dv_tables V (ds_db w))" by simp_all
      from ran(5) have "o1 = Ret a"
        "u = (if k then w else w\<lparr>ds_db := db_rollback E c (ds_db w)\<rparr>)"
        using Ret r ran(4) by (auto simp: transaction_scope_def)
      with k rb [of "ds_db w"] show ?thesis by (cases k) (simp_all add: idle_def)
    next
      case (Throw e)
      with spec have k: "dv_open V (ds_db w) = Some c" "W (dv_tables V (ds_db w))" by simp_all
      from ran(5) have "o1 = Throw e" "u = w\<lparr>ds_db := db_rollback E c (ds_db w)\<rparr>"
        using Throw ran(4) by (auto simp: transaction_scope_def)
      with k rb [of "ds_db w"] show ?thesis by (simp add: idle_def)
    qed (use spec in simp_all)
  qed
  then have *: "idle V (ds_db u)" "case o1 of
       Ret a \<Rightarrow> Q a (dv_tables V (ds_db u))
     | Throw e \<Rightarrow> W (dv_tables V (ds_db u))
     | _ \<Rightarrow> False" by simp_all
  have db: "ds_db t = ds_db u" by (simp add: ran(4))
  show ?thesis
  proof (cases out)
    case (Ret a)
    from catch_db_errors_Ret [OF ran(3) [unfolded Ret]]
    consider "o1 = Ret a" | e where "a = dflt" "o1 = Throw e" by blast
    then show ?thesis by cases (use * Ret db in simp_all)
  next
    case (Throw e)
    from catch_db_errors_Throw [OF ran(3) [unfolded Throw]] have "o1 = Throw e" by simp
    with * Throw db show ?thesis by simp
  next
    case Block
    from catch_db_errors_Block [OF ran(3)] Block have "o1 = Block" by simp
    with * show ?thesis by simp
  next
    case Undef
    from catch_db_errors_Undef [OF ran(3)] Undef have "o1 = Undef" by simp
    with * show ?thesis by simp
  qed
qed

text \<open>A method that reads without a transaction.\<close>

lemma plain_method:
  fixes s t :: "('db, 'z) data_state_scheme"
  assumes idle: "idle V (ds_db s)"
    and run: "with_connection dflt body s = (out, t)"
    and body: "\<And>c s1 o1 u. ds_db s1 = ds_db s \<Longrightarrow> body c s1 = (o1, u) \<Longrightarrow>
      idle V (ds_db u) \<and> dv_tables V (ds_db u) = dv_tables V (ds_db s) \<and>
      (case o1 of Ret a \<Rightarrow> Q a | Throw e \<Rightarrow> True | _ \<Rightarrow> False)"
  shows "idle V (ds_db t) \<and> dv_tables V (ds_db t) = dv_tables V (ds_db s) \<and>
    (case out of Ret a \<Rightarrow> Q a \<or> a = dflt | Undef \<Rightarrow> False | _ \<Rightarrow> True)"
  using run
proof (cases rule: with_connectionE)
  case unavailable
  with idle show ?thesis by auto
next
  case (ran c p o1 u p' v)
  have "ds_db (s\<lparr>ds_pool := p\<rparr>) = ds_db s" by simp
  note b = body [OF this ran(2)]
  have db: "ds_db t = ds_db u" by (simp add: ran(4))
  show ?thesis
  proof (cases out)
    case (Ret a)
    from catch_db_errors_Ret [OF ran(3) [unfolded Ret]]
    consider "o1 = Ret a" | e where "a = dflt" "o1 = Throw e" by blast
    then show ?thesis by cases (use b Ret db in simp_all)
  next
    case Undef
    from catch_db_errors_Undef [OF ran(3)] Undef have "o1 = Undef" by simp
    with b db Undef show ?thesis by simp
  next
    case (Throw e)
    from catch_db_errors_Throw [OF ran(3) [unfolded Throw]] have "o1 = Throw e" by simp
    with b Throw db show ?thesis by simp
  next
    case Block
    from catch_db_errors_Block [OF ran(3)] Block have "o1 = Block" by simp
    with b db Block show ?thesis by simp
  qed
qed

section \<open>Statements in sequence\<close>

text \<open>
  A Hoare triple on the database part of the state: from \<open>P\<close>, the computation neither blocks nor
  is undefined, establishes \<open>Q\<close> of its result when it returns, and \<open>X\<close> when it throws.
\<close>

definition triple ::
    "('db \<Rightarrow> bool) \<Rightarrow> (('db, 'z) data_state_scheme, 'a) comp \<Rightarrow> ('a \<Rightarrow> 'db \<Rightarrow> bool) \<Rightarrow>
     ('db \<Rightarrow> bool) \<Rightarrow> bool" where
  "triple P m Q X \<longleftrightarrow>
     (\<forall>s out t. P (ds_db s) \<longrightarrow> m s = (out, t) \<longrightarrow>
        (case out of Ret a \<Rightarrow> Q a (ds_db t) | Throw e \<Rightarrow> X (ds_db t) | _ \<Rightarrow> False))"

lemma tripleI:
  "(\<And>s out t. P (ds_db s) \<Longrightarrow> m s = (out, t) \<Longrightarrow>
     case out of Ret a \<Rightarrow> Q a (ds_db t) | Throw e \<Rightarrow> X (ds_db t) | _ \<Rightarrow> False) \<Longrightarrow> triple P m Q X"
  by (simp add: triple_def)

lemma tripleD:
  "triple P m Q X \<Longrightarrow> P (ds_db s) \<Longrightarrow> m s = (out, t) \<Longrightarrow>
   case out of Ret a \<Rightarrow> Q a (ds_db t) | Throw e \<Rightarrow> X (ds_db t) | _ \<Rightarrow> False"
  by (auto simp: triple_def)

lemma triple_return: "(\<And>d. P d \<Longrightarrow> Q a d) \<Longrightarrow> triple P (creturn a) Q X"
  by (auto simp: triple_def creturn_def)

lemma triple_bind:
  assumes m: "triple P m R X" and f: "\<And>a. triple (R a) (f a) Q X"
  shows "triple P (cbind m f) Q X"
proof (rule tripleI)
  fix s out t assume P: "P (ds_db s)" and run: "cbind m f s = (out, t)"
  from run show "case out of Ret a \<Rightarrow> Q a (ds_db t) | Throw e \<Rightarrow> X (ds_db t) | _ \<Rightarrow> False"
  proof (cases rule: cbindE)
    case (returned a u)
    from tripleD [OF m P returned(1)] have "R a (ds_db u)" by simp
    then show ?thesis by (rule tripleD [OF f _ returned(2)])
  qed (use tripleD [OF m P] in force)+
qed

lemma triple_try:
  assumes m: "triple P m Q R" and h: "\<And>e. triple R (h e) Q X"
  shows "triple P (ctry m h) Q X"
proof (rule tripleI)
  fix s out t assume P: "P (ds_db s)" and run: "ctry m h s = (out, t)"
  obtain o1 u where u: "m s = (o1, u)" by fastforce
  note t = tripleD [OF m P u]
  show "case out of Ret a \<Rightarrow> Q a (ds_db t) | Throw e \<Rightarrow> X (ds_db t) | _ \<Rightarrow> False"
  proof (cases o1)
    case (Throw e)
    with t have "R (ds_db u)" by simp
    moreover from Throw run u have "h e u = (out, t)" by (simp add: ctry_def)
    ultimately show ?thesis by (rule tripleD [OF h])
  qed (use t run u in \<open>auto simp: ctry_def\<close>)
qed

lemma triple_weaken:
  assumes "triple P m Q X" "\<And>d. P' d \<Longrightarrow> P d" "\<And>a d. Q a d \<Longrightarrow> Q' a d" "\<And>d. X d \<Longrightarrow> X' d"
  shows "triple P' m Q' X'"
proof (rule tripleI)
  fix s out t assume "P' (ds_db s)" and run: "m s = (out, t)"
  from tripleD [OF assms(1) assms(2) run] this(1) assms(3,4)
  show "case out of Ret a \<Rightarrow> Q' a (ds_db t) | Throw e \<Rightarrow> X' (ds_db t) | _ \<Rightarrow> False"
    by (cases out) auto
qed

lemma triple_silent: "db_silent m \<Longrightarrow> triple P m (\<lambda>_. P) X"
proof (rule tripleI)
  fix s out t assume m: "db_silent m" and P: "P (ds_db s)" and run: "m s = (out, t)"
  from db_silentD [OF m, of s] run obtain a where "out = Ret a" "ds_db t = ds_db s" by auto
  with P show "case out of Ret a \<Rightarrow> P (ds_db t) | Throw e \<Rightarrow> X (ds_db t) | _ \<Rightarrow> False" by simp
qed

lemma triple_call:
  assumes "\<And>d r d'. P d \<Longrightarrow> f d = (r, d') \<Longrightarrow> (case r of Inl e \<Rightarrow> X d' | Inr a \<Rightarrow> Q a d')"
  shows "triple P (db_call f) Q X"
proof (rule tripleI)
  fix s out t assume P: "P (ds_db s)" and run: "db_call f s = (out, t)"
  from run show "case out of Ret a \<Rightarrow> Q a (ds_db t) | Throw e \<Rightarrow> X (ds_db t) | _ \<Rightarrow> False"
  proof (cases rule: db_callE)
    case (thrown e d)
    with assms [OF P thrown(1)] show ?thesis by simp
  next
    case (returned a d)
    with assms [OF P returned(1)] show ?thesis by simp
  qed
qed

text \<open>Inside the transaction of connection \<open>c\<close>: committed tables \<open>T\<close>, own tables \<open>T'\<close>.\<close>

definition in_txn :: "'db db_view \<Rightarrow> conn \<Rightarrow> tables \<Rightarrow> tables \<Rightarrow> 'db \<Rightarrow> bool" where
  "in_txn V c T T' d \<longleftrightarrow> dv_open V d = Some c \<and> dv_tables V d = T \<and> dv_inside V c d = T'"

lemma in_txn_same_world: "in_txn V c T T' d \<Longrightarrow> same_world V c d d' \<Longrightarrow> in_txn V c T T' d'"
  by (auto simp: in_txn_def same_world_def)

lemma in_txn_seen: "in_txn V c T T' d \<Longrightarrow> dv_seen V c d = T'"
  by (auto simp: in_txn_def dv_seen_def)

lemma in_txn_open: "in_txn V c T T' d \<Longrightarrow> dv_open V d = Some c"
  by (simp add: in_txn_def)

text \<open>What a method leaves: the outcome \<open>Q\<close>, or the default result, or an exception, with \<open>W\<close>.\<close>

definition method_post ::
    "'db db_view \<Rightarrow> ('a \<Rightarrow> tables \<Rightarrow> bool) \<Rightarrow> (tables \<Rightarrow> bool) \<Rightarrow> 'a \<Rightarrow> tables \<Rightarrow> 'a outcome \<Rightarrow> 'db \<Rightarrow>
     bool" where
  "method_post V Q W dflt T out d \<longleftrightarrow>
     idle V d \<and>
     (case out of
        Ret a \<Rightarrow> Q a (dv_tables V d) \<or> (a = dflt \<and> W (dv_tables V d))
      | Throw e \<Rightarrow> W (dv_tables V d)
      | Block \<Rightarrow> dv_tables V d = T
      | Undef \<Rightarrow> False)"

lemma transaction_rule:
  fixes s t :: "('db, 'z) data_state_scheme"
  assumes ok: "engine_ok E V" and idle: "idle V (ds_db s)"
    and run: "with_connection dflt (\<lambda>c. with_transaction E c (body c)) s = (out, t)"
    and T: "T = dv_tables V (ds_db s)" and W: "W T"
    and body: "\<And>c. triple (in_txn V c T T) (body c)
      (\<lambda>(a, k) d. dv_open V d = (if k then None else Some c) \<and> Q a (dv_tables V d))
      (\<lambda>d. dv_open V d = Some c \<and> W (dv_tables V d))"
  shows "method_post V Q W dflt T out (ds_db t)"
  unfolding method_post_def T
proof (rule transaction_method [OF engine_okD(1) [OF ok] idle run, where W = W])
  show "W (dv_tables V (ds_db s))" using W T by simp
next
  fix c s1 o1 u
  assume "dv_open V (ds_db s1) = Some c" "dv_inside V c (ds_db s1) = dv_tables V (ds_db s)"
    "dv_tables V (ds_db s1) = dv_tables V (ds_db s)" and run: "body c s1 = (o1, u)"
  then have "in_txn V c T T (ds_db s1)" by (simp add: in_txn_def T)
  from tripleD [OF body this run] show "case o1 of
     Ret (a, committed) \<Rightarrow>
       dv_open V (ds_db u) = (if committed then None else Some c) \<and> Q a (dv_tables V (ds_db u))
   | Throw e \<Rightarrow> dv_open V (ds_db u) = Some c \<and> W (dv_tables V (ds_db u))
   | _ \<Rightarrow> False" by (cases o1) auto
qed

text \<open>The statements inside a transaction.\<close>

lemma triple_commit:
  assumes ok: "engine_ok E V"
  shows "triple (in_txn V c T T') (db_call (db_commit E c))
    (\<lambda>_ d. dv_open V d = None \<and> dv_tables V d = T')
    (\<lambda>d. dv_open V d = Some c \<and> dv_tables V d \<in> {T, T'})"
proof (rule triple_call)
  fix d r d' assume t: "in_txn V c T T' d" and r: "db_commit E c d = (r, d')"
  note law = commit_law [OF engine_okD(1) [OF ok] in_txn_open [OF t]]
  from r t law show "case r of Inl e \<Rightarrow> dv_open V d' = Some c \<and> dv_tables V d' \<in> {T, T'}
    | Inr a \<Rightarrow> dv_open V d' = None \<and> dv_tables V d' = T'"
    by (cases r) (auto simp: in_txn_def)
qed

lemmas insert_law = update_laws_def [THEN iffD1, THEN conjunct1, rule_format]
lemmas change_law = update_laws_def [THEN iffD1, THEN conjunct2, rule_format]

lemma triple_insert:
  assumes ok: "engine_ok E V"
  shows "triple (in_txn V c T T') (db_call (db_insert E c st))
    (\<lambda>_ d. \<exists>T'' i. in_txn V c T T'' d \<and> inserted V st T' T'' i \<and> dv_last_id V d = i)
    (\<lambda>d. dv_open V d = Some c \<and> dv_tables V d = T)"
proof (rule triple_call)
  fix d r d' assume t: "in_txn V c T T' d" and r: "db_insert E c st d = (r, d')"
  from t insert_law [OF engine_okD(3) [OF ok] in_txn_open [OF t] r]
  show "case r of Inl e \<Rightarrow> dv_open V d' = Some c \<and> dv_tables V d' = T
    | Inr a \<Rightarrow> \<exists>T'' i. in_txn V c T T'' d' \<and> inserted V st T' T'' i \<and> dv_last_id V d' = i"
    by (cases r) (auto simp: in_txn_def)
qed

lemma triple_change:
  assumes ok: "engine_ok E V"
  shows "triple (in_txn V c T T') (db_call (db_change E c st))
    (\<lambda>k d. \<exists>T''. in_txn V c T T'' d \<and> changed V st T' T'' k)
    (\<lambda>d. dv_open V d = Some c \<and> dv_tables V d = T)"
proof (rule triple_call)
  fix d r d' assume t: "in_txn V c T T' d" and r: "db_change E c st d = (r, d')"
  from t change_law [OF engine_okD(3) [OF ok] in_txn_open [OF t] r]
  show "case r of Inl e \<Rightarrow> dv_open V d' = Some c \<and> dv_tables V d' = T
    | Inr k \<Rightarrow> \<exists>T''. in_txn V c T T'' d' \<and> changed V st T' T'' k"
    by (cases r) (auto simp: in_txn_def)
qed

text \<open>
  The reading statements, on any world \<open>P\<close> that depends only on what they leave alone.
\<close>

lemmas users_law = query_laws_def [THEN iffD1, THEN conjunct1, rule_format]
lemmas rooms_law = query_laws_def [THEN iffD1, THEN conjunct2, THEN conjunct1, rule_format]
lemmas messages_law =
  query_laws_def [THEN iffD1, THEN conjunct2, THEN conjunct2, THEN conjunct1, rule_format]
lemmas last_id_law =
  query_laws_def [THEN iffD1, THEN conjunct2, THEN conjunct2, THEN conjunct2, THEN conjunct1,
    rule_format]
lemmas created_law =
  query_laws_def [THEN iffD1, THEN conjunct2, THEN conjunct2, THEN conjunct2, THEN conjunct2,
    rule_format]
lemma triple_query:
  assumes ok: "engine_ok E V"
    and P: "\<And>d d'. P d \<Longrightarrow> same_world V c d d' \<Longrightarrow> P d'" and S: "\<And>d. P d \<Longrightarrow> dv_seen V c d = T'"
  shows
    "triple P (db_call (db_users E c uq)) (\<lambda>rows d. P d \<and> user_answer V uq T' rows) P"
    "triple P (db_call (db_rooms E c rq)) (\<lambda>rows d. P d \<and> room_answer V rq T' rows) P"
    "triple P (db_call (db_messages E c mq)) (\<lambda>rows d. P d \<and> message_answer V mq T' rows) P"
    "triple P (db_call (db_created E c tb i)) (\<lambda>x d. P d \<and> x = created_in tb i T') P"
proof -
  note q = engine_okD(2) [OF ok]
  show "triple P (db_call (db_users E c uq)) (\<lambda>rows d. P d \<and> user_answer V uq T' rows) P"
  proof (rule triple_call)
    fix d r d' assume p: "P d" and r: "db_users E c uq d = (r, d')"
    from users_law [OF q r] P [OF p] S [OF p]
    show "case r of Inl e \<Rightarrow> P d' | Inr rows \<Rightarrow> P d' \<and> user_answer V uq T' rows"
      by (cases r) auto
  qed
  show "triple P (db_call (db_rooms E c rq)) (\<lambda>rows d. P d \<and> room_answer V rq T' rows) P"
  proof (rule triple_call)
    fix d r d' assume p: "P d" and r: "db_rooms E c rq d = (r, d')"
    from rooms_law [OF q r] P [OF p] S [OF p]
    show "case r of Inl e \<Rightarrow> P d' | Inr rows \<Rightarrow> P d' \<and> room_answer V rq T' rows"
      by (cases r) auto
  qed
  show "triple P (db_call (db_messages E c mq)) (\<lambda>rows d. P d \<and> message_answer V mq T' rows) P"
  proof (rule triple_call)
    fix d r d' assume p: "P d" and r: "db_messages E c mq d = (r, d')"
    from messages_law [OF q r] P [OF p] S [OF p]
    show "case r of Inl e \<Rightarrow> P d' | Inr rows \<Rightarrow> P d' \<and> message_answer V mq T' rows"
      by (cases r) auto
  qed
  show "triple P (db_call (db_created E c tb i)) (\<lambda>x d. P d \<and> x = created_in tb i T') P"
  proof (rule triple_call)
    fix d r d' assume p: "P d" and r: "db_created E c tb i d = (r, d')"
    from created_law [OF q r] P [OF p] S [OF p]
    show "case r of Inl e \<Rightarrow> P d' | Inr x \<Rightarrow> P d' \<and> x = created_in tb i T'"
      by (cases r) auto
  qed
qed

lemma txn_query:
  assumes ok: "engine_ok E V"
  shows
    "triple (in_txn V c T T') (db_call (db_users E c uq))
      (\<lambda>rows d. in_txn V c T T' d \<and> user_answer V uq T' rows) (in_txn V c T T')"
    "triple (in_txn V c T T') (db_call (db_rooms E c rq))
      (\<lambda>rows d. in_txn V c T T' d \<and> room_answer V rq T' rows) (in_txn V c T T')"
  by (rule triple_query [OF ok]; (rule in_txn_same_world | rule in_txn_seen); assumption)+

lemma triple_last_id:
  assumes ok: "engine_ok E V"
    and P: "\<And>d d'. P d \<Longrightarrow> same_world V c d d' \<Longrightarrow> P d'" and S: "\<And>d. P d \<Longrightarrow> dv_last_id V d = i"
  shows "triple P (db_call (db_last_id E c tb)) (\<lambda>x d. P d \<and> (x = None \<or> x = Some i)) P"
proof (rule triple_call)
  fix d r d' assume p: "P d" and r: "db_last_id E c tb d = (r, d')"
  from last_id_law [OF engine_okD(2) [OF ok] r] P [OF p] S [OF p]
  show "case r of Inl e \<Rightarrow> P d' | Inr x \<Rightarrow> P d' \<and> (x = None \<or> x = Some i)"
    by (cases r; cases "case r of Inl e \<Rightarrow> None | Inr x \<Rightarrow> x") auto
qed

section \<open>The methods the services call\<close>

definition is_user :: "user \<Rightarrow> db_user \<Rightarrow> bool" where
  "is_user u x \<longleftrightarrow>
     u_id u = scast (du_id x) \<and> u_username u = du_username x \<and>
     u_hashed_password u = du_hashed_password x \<and> u_salt u = du_salt x"

definition is_room :: "room \<Rightarrow> db_room \<Rightarrow> bool" where
  "is_room r x \<longleftrightarrow>
     r_id r = scast (dr_id x) \<and> r_name r = dr_name x \<and> r_creator_id r = scast (dr_creator_id x)"

text \<open>The time of a message is known when the column is not null and \<open>mktime\<close> does not fail on it.\<close>

definition is_message :: "'db env \<Rightarrow> message \<Rightarrow> db_message \<Rightarrow> bool" where
  "is_message E m x \<longleftrightarrow>
     m_id m = dm_id x \<and> m_room_id m = scast (dm_room_id x) \<and>
     m_sender_id m = scast (dm_sender_id x) \<and> m_content m = dm_content x \<and>
     (\<forall>c. dm_created_at x = Some c \<and> e_mktime E c \<noteq> -1 \<longrightarrow>
        m_created_at m = from_time_t (e_tps E) (e_mktime E c))"

definition found_user :: "'db db_view \<Rightarrow> user_query \<Rightarrow> tables \<Rightarrow> user option \<Rightarrow> bool" where
  "found_user V q T a \<longleftrightarrow>
     (\<forall>u. a = Some u \<longrightarrow> (\<exists>x \<in> set (t_users T). is_user u x \<and> user_matches V q x))"

definition found_room :: "'db db_view \<Rightarrow> room_query \<Rightarrow> tables \<Rightarrow> room option \<Rightarrow> bool" where
  "found_room V q T a \<longleftrightarrow>
     (\<forall>r. a = Some r \<longrightarrow> (\<exists>x \<in> set (t_rooms T). is_room r x \<and> room_matches V q x))"

lemma answer_first_user:
  assumes "user_answer V q T (r # rows)"
  shows "\<exists>x \<in> set (t_users T). user_matches V q x \<and> r = user_row_of x"
proof -
  have "r \<in># mset (map user_row_of (filter (user_matches V q) (t_users T)))"
    using assms unfolding user_answer_def by (metis list.set_intros(1) set_mset_mset)
  then show ?thesis by auto
qed

lemma answer_first_room:
  assumes "room_answer V q T (r # rows)"
  shows "\<exists>x \<in> set (t_rooms T). room_matches V q x \<and> r = room_row_of x"
proof -
  have "r \<in># mset (map room_row_of (filter (room_matches V q) (t_rooms T)))"
    using assms unfolding room_answer_def by (metis list.set_intros(1) set_mset_mset)
  then show ?thesis by auto
qed

lemma triple_first_user:
  "triple (\<lambda>d. P d \<and> user_answer V q T rows) (user_of_first_row E rows)
     (\<lambda>a d. P d \<and> found_user V q T a) X"
proof (cases rows)
  case Nil
  then show ?thesis by (auto simp: user_of_first_row_def found_user_def intro: triple_return)
next
  case (Cons r rs)
  show ?thesis
  proof (cases "user_answer V q T rows")
    case True
    with Cons answer_first_user obtain x where x: "x \<in> set (t_users T)" "user_matches V q x"
      "r = user_row_of x" by blast
    show ?thesis
      unfolding Cons x(3) user_of_first_row_def user_row_of_def
      by simp (rule triple_bind [OF triple_silent], simp, rule triple_return,
        use x(1,2) in \<open>auto simp: found_user_def is_user_def\<close>)
  qed (simp add: triple_def)
qed

lemma triple_first_room:
  "triple (\<lambda>d. P d \<and> room_answer V q T rows) (room_of_first_row E rows)
     (\<lambda>a d. P d \<and> found_room V q T a) X"
proof (cases rows)
  case Nil
  then show ?thesis by (auto simp: room_of_first_row_def found_room_def intro: triple_return)
next
  case (Cons r rs)
  show ?thesis
  proof (cases "room_answer V q T rows")
    case True
    with Cons answer_first_room obtain x where x: "x \<in> set (t_rooms T)" "room_matches V q x"
      "r = room_row_of x" by blast
    show ?thesis
      unfolding Cons x(3) room_of_first_row_def room_row_of_def
      by simp (rule triple_bind [OF triple_silent], simp, rule triple_return,
        use x(1,2) in \<open>auto simp: found_room_def is_room_def\<close>)
  qed (simp add: triple_def)
qed

text \<open>What a reading method leaves.\<close>

definition read_post ::
    "'db db_view \<Rightarrow> ('a \<Rightarrow> bool) \<Rightarrow> tables \<Rightarrow> 'a outcome \<Rightarrow> 'db \<Rightarrow> bool" where
  "read_post V Q T out d \<longleftrightarrow>
     idle V d \<and> dv_tables V d = T \<and> out \<noteq> Undef \<and> (\<forall>a. out = Ret a \<longrightarrow> Q a)"

lemma plain_rule:
  fixes s t :: "('db, 'z) data_state_scheme"
  assumes idle: "idle V (ds_db s)" and run: "with_connection dflt body s = (out, t)"
    and T: "T = dv_tables V (ds_db s)" and dflt: "Q dflt"
    and body: "\<And>c. triple (\<lambda>d. idle V d \<and> dv_tables V d = T) (body c)
      (\<lambda>a d. (idle V d \<and> dv_tables V d = T) \<and> Q a) (\<lambda>d. idle V d \<and> dv_tables V d = T)"
  shows "read_post V Q T out (ds_db t)"
proof -
  have "idle V (ds_db t) \<and> dv_tables V (ds_db t) = dv_tables V (ds_db s) \<and>
    (case out of Ret a \<Rightarrow> Q a \<or> a = dflt | Undef \<Rightarrow> False | _ \<Rightarrow> True)"
  proof (rule plain_method [OF idle run])
    fix c s1 o1 u
    assume "ds_db s1 = ds_db s" and r: "body c s1 = (o1, u)"
    with idle T have "idle V (ds_db s1) \<and> dv_tables V (ds_db s1) = T" by simp
    from tripleD [OF body this r] show "idle V (ds_db u) \<and>
        dv_tables V (ds_db u) = dv_tables V (ds_db s) \<and>
        (case o1 of Ret a \<Rightarrow> Q a | Throw e \<Rightarrow> True | _ \<Rightarrow> False)"
      by (cases o1) (auto simp: T)
  qed
  with dflt T show ?thesis by (cases out) (auto simp: read_post_def)
qed

lemma same_world_idle:
  "idle V d \<and> dv_tables V d = T \<Longrightarrow> same_world V c d d' \<Longrightarrow> idle V d' \<and> dv_tables V d' = T"
  by (auto simp: idle_def same_world_def)

lemma seen_idle: "idle V d \<and> dv_tables V d = T \<Longrightarrow> dv_seen V c d = T"
  by (auto simp: idle_def dv_seen_def)

lemma read_in_transaction:
  assumes "method_post V (\<lambda>a T'. T' = T \<and> Q a) (\<lambda>T'. T' = T) dflt T out d" "Q dflt"
  shows "read_post V Q T out d"
  using assms by (cases out) (auto simp: method_post_def read_post_def)

lemma findByUsername_fact:
  assumes ok: "engine_ok E V" and idle: "idle V (ds_db s)"
    and run: "MySQL_findByUsername E n s = (out, t)"
  shows "read_post V (found_user V (Users_by_username n) (dv_tables V (ds_db s)))
    (dv_tables V (ds_db s)) out (ds_db t)"
  using run unfolding MySQL_findByUsername_def
proof (rule plain_rule [OF idle _ refl])
  show "found_user V (Users_by_username n) (dv_tables V (ds_db s)) None"
    by (simp add: found_user_def)
qed (rule triple_bind [OF triple_query(1) [OF ok same_world_idle seen_idle] triple_first_user])

lemma findByUserId_fact:
  assumes ok: "engine_ok E V" and idle: "idle V (ds_db s)"
    and run: "MySQL_findByUserId E i s = (out, t)"
  shows "read_post V (found_user V (Users_by_id i) (dv_tables V (ds_db s)))
    (dv_tables V (ds_db s)) out (ds_db t)"
proof (rule read_in_transaction)
  let ?T = "dv_tables V (ds_db s)"
  let ?Q = "found_user V (Users_by_id i) ?T"
  show "method_post V (\<lambda>a T'. T' = ?T \<and> ?Q a) (\<lambda>T'. T' = ?T) None ?T out (ds_db t)"
    using run unfolding MySQL_findByUserId_def
  proof (rule transaction_rule [OF ok idle _ refl])
    fix c
    have "triple (in_txn V c ?T ?T)
      (cbind (db_call (db_users E c (Users_by_id i))) (\<lambda>rows.
        cbind (user_of_first_row E rows) (\<lambda>u. creturn (u, False))))
      (\<lambda>(a, k) d. dv_open V d = (if k then None else Some c) \<and> dv_tables V d = ?T \<and> ?Q a)
      (in_txn V c ?T ?T)"
      by (rule triple_bind txn_query(1) [OF ok] triple_first_user triple_return)+
        (simp add: in_txn_def)
    then show "triple (in_txn V c ?T ?T)
      (cbind (db_call (db_users E c (Users_by_id i))) (\<lambda>rows.
        cbind (user_of_first_row E rows) (\<lambda>u. creturn (u, False))))
      (\<lambda>(a, k) d. dv_open V d = (if k then None else Some c) \<and> dv_tables V d = ?T \<and> ?Q a)
      (\<lambda>d. dv_open V d = Some c \<and> dv_tables V d = ?T)"
      by (rule triple_weaken) (auto simp: in_txn_def)
  qed simp
qed (simp add: found_user_def)

lemma find_room_fact:
  assumes ok: "engine_ok E V" and idle: "idle V (ds_db s)" and run: "find_room E q s = (out, t)"
  shows "read_post V (found_room V q (dv_tables V (ds_db s))) (dv_tables V (ds_db s)) out (ds_db t)"
proof (rule read_in_transaction)
  let ?T = "dv_tables V (ds_db s)"
  let ?Q = "found_room V q ?T"
  show "method_post V (\<lambda>a T'. T' = ?T \<and> ?Q a) (\<lambda>T'. T' = ?T) None ?T out (ds_db t)"
    using run unfolding find_room_def
  proof (rule transaction_rule [OF ok idle _ refl])
    fix c
    have "triple (in_txn V c ?T ?T)
      (cbind (db_call (db_rooms E c q)) (\<lambda>rows.
        cbind (room_of_first_row E rows) (\<lambda>r. creturn (r, False))))
      (\<lambda>(a, k) d. dv_open V d = (if k then None else Some c) \<and> dv_tables V d = ?T \<and> ?Q a)
      (in_txn V c ?T ?T)"
      by (rule triple_bind txn_query(2) [OF ok] triple_first_room triple_return)+
        (simp add: in_txn_def)
    then show "triple (in_txn V c ?T ?T)
      (cbind (db_call (db_rooms E c q)) (\<lambda>rows.
        cbind (room_of_first_row E rows) (\<lambda>r. creturn (r, False))))
      (\<lambda>(a, k) d. dv_open V d = (if k then None else Some c) \<and> dv_tables V d = ?T \<and> ?Q a)
      (\<lambda>d. dv_open V d = Some c \<and> dv_tables V d = ?T)"
      by (rule triple_weaken) (auto simp: in_txn_def)
  qed simp
qed (simp add: found_room_def)

text \<open>
  After an insert, inside the transaction: the new row is there under the generated id.
\<close>

definition inserted_as ::
    "'db db_view \<Rightarrow> sql_insert \<Rightarrow> conn \<Rightarrow> tables \<Rightarrow> long_long \<Rightarrow> 'db \<Rightarrow> bool" where
  "inserted_as V st c T i d \<longleftrightarrow>
     (\<exists>T'. in_txn V c T T' d \<and> inserted V st T T' i \<and> dv_last_id V d = i)"

definition maybe_inserted :: "'db db_view \<Rightarrow> sql_insert \<Rightarrow> tables \<Rightarrow> tables \<Rightarrow> bool" where
  "maybe_inserted V st T T' \<longleftrightarrow> T' = T \<or> (\<exists>i. inserted V st T T' i)"

lemma created_in_inserted_room:
  assumes "inserted V (Insert_room n creator) T T' i"
  shows "created_in T_rooms i T' \<noteq> None"
  using assms by (auto simp: created_in_def find_None_iff inserted.simps)

lemma triple_insert_id:
  assumes ok: "engine_ok E V"
  shows "triple (in_txn V c T T) (cbind (db_call (db_insert E c st)) (\<lambda>_. db_call (db_last_id E c tb)))
    (\<lambda>x d. \<exists>i. inserted_as V st c T i d \<and> (x = None \<or> x = Some i))
    (\<lambda>d. dv_open V d = Some c \<and> dv_tables V d = T)"
proof (rule triple_bind [OF triple_insert [OF ok]])
  fix u :: unit
  show "triple (\<lambda>d. \<exists>T'' i. in_txn V c T T'' d \<and> inserted V st T T'' i \<and> dv_last_id V d = i)
    (db_call (db_last_id E c tb)) (\<lambda>x d. \<exists>i. inserted_as V st c T i d \<and> (x = None \<or> x = Some i))
    (\<lambda>d. dv_open V d = Some c \<and> dv_tables V d = T)"
  proof (rule triple_call)
    fix d r d'
    assume "\<exists>T'' i. in_txn V c T T'' d \<and> inserted V st T T'' i \<and> dv_last_id V d = i"
      and r: "db_last_id E c tb d = (r, d')"
    then obtain T'' i where d: "in_txn V c T T'' d" "inserted V st T T'' i" "dv_last_id V d = i"
      by blast
    from last_id_law [OF engine_okD(2) [OF ok] r] have w: "same_world V c d d'"
      and x: "\<And>i. r = Inr (Some i) \<Longrightarrow> i = dv_last_id V d" by auto
    from w d have "inserted_as V st c T i d'"
      by (auto simp: inserted_as_def same_world_def in_txn_def)
    with x d(3) show "case r of Inl e \<Rightarrow> dv_open V d' = Some c \<and> dv_tables V d' = T
      | Inr x \<Rightarrow> \<exists>i. inserted_as V st c T i d' \<and> (x = None \<or> x = Some i)"
      by (cases r; cases "case r of Inl e \<Rightarrow> None | Inr x \<Rightarrow> x")
        (auto simp: inserted_as_def in_txn_def)
  qed
qed

lemma triple_created:
  assumes ok: "engine_ok E V"
  shows "triple (inserted_as V st c T i) (db_call (db_created E c tb j))
    (\<lambda>x d. inserted_as V st c T i d \<and> (\<exists>T'. inserted V st T T' i \<and> x = created_in tb j T'))
    (inserted_as V st c T i)"
proof (rule triple_call)
  fix d r d' assume "inserted_as V st c T i d" and r: "db_created E c tb j d = (r, d')"
  then obtain T' where d: "in_txn V c T T' d" "inserted V st T T' i" "dv_last_id V d = i"
    by (auto simp: inserted_as_def)
  from created_law [OF engine_okD(2) [OF ok] r] have w: "same_world V c d d'"
    and x: "\<And>x. r = Inr x \<Longrightarrow> x = created_in tb j T'" by (auto simp: in_txn_seen [OF d(1)])
  from w d have "inserted_as V st c T i d'"
    by (auto simp: inserted_as_def same_world_def in_txn_def)
  with x d show "case r of Inl e \<Rightarrow> inserted_as V st c T i d' | Inr x \<Rightarrow>
      inserted_as V st c T i d' \<and> (\<exists>T'. inserted V st T T' i \<and> x = created_in tb j T')"
    by (cases r) auto
qed

lemma triple_commit_insert:
  assumes ok: "engine_ok E V"
  shows "triple (inserted_as V st c T i) (db_call (db_commit E c))
    (\<lambda>_ d. dv_open V d = None \<and> inserted V st T (dv_tables V d) i)
    (\<lambda>d. dv_open V d = Some c \<and> maybe_inserted V st T (dv_tables V d))"
proof (rule triple_call)
  fix d r d' assume "inserted_as V st c T i d" and r: "db_commit E c d = (r, d')"
  then obtain T' where d: "in_txn V c T T' d" "inserted V st T T' i" by (auto simp: inserted_as_def)
  from r show "case r of
      Inl e \<Rightarrow> dv_open V d' = Some c \<and> maybe_inserted V st T (dv_tables V d')
    | Inr a \<Rightarrow> dv_open V d' = None \<and> inserted V st T (dv_tables V d') i"
    using commit_law [OF engine_okD(1) [OF ok] in_txn_open [OF d(1)], THEN conjunct1, rule_format]
      commit_law [OF engine_okD(1) [OF ok] in_txn_open [OF d(1)], THEN conjunct2, rule_format]
      d(2) d(1) [unfolded in_txn_def]
    by (cases r) (fastforce simp: maybe_inserted_def)+
qed

lemma cbind_assoc: "cbind (cbind m f) g = cbind m (\<lambda>a. cbind (f a) g)"
  by (rule ext) (auto simp: cbind_def split: outcome.splits prod.splits)

lemma triple_insert_then:
  assumes ok: "engine_ok E V" and X: "\<And>d. dv_open V d = Some c \<and> dv_tables V d = T \<Longrightarrow> X d"
    and none: "\<And>i. triple (inserted_as V st c T i) (K None) Q X"
    and some: "\<And>i. triple (inserted_as V st c T i) (K (Some i)) Q X"
  shows "triple (in_txn V c T T)
    (cbind (db_call (db_insert E c st)) (\<lambda>_. cbind (db_call (db_last_id E c tb)) K)) Q X"
proof -
  have pre: "triple (in_txn V c T T)
    (cbind (db_call (db_insert E c st)) (\<lambda>_. db_call (db_last_id E c tb)))
    (\<lambda>x d. \<exists>i. inserted_as V st c T i d \<and> (x = None \<or> x = Some i)) X"
    by (rule triple_weaken [OF triple_insert_id [OF ok]]) (use X in auto)
  have "triple (in_txn V c T T)
    (cbind (cbind (db_call (db_insert E c st)) (\<lambda>_. db_call (db_last_id E c tb))) K) Q X"
  proof (rule triple_bind [OF pre])
    fix x
    show "triple (\<lambda>d. \<exists>i. inserted_as V st c T i d \<and> (x = None \<or> x = Some i)) (K x) Q X"
      using tripleD [OF none] tripleD [OF some] by (intro tripleI) blast
  qed
  then show ?thesis by (simp add: cbind_assoc)
qed

text \<open>What an adding method leaves; \<open>upd\<close> fills in the generated id and the creation time.\<close>

definition added ::
    "'db db_view \<Rightarrow> sql_insert \<Rightarrow> (long_long \<Rightarrow> time_point \<Rightarrow> 'a) \<Rightarrow> tables \<Rightarrow> 'a option \<Rightarrow> tables \<Rightarrow> bool" where
  "added V st upd T a T' \<longleftrightarrow>
     (case a of
        None \<Rightarrow> maybe_inserted V st T T'
      | Some y \<Rightarrow> \<exists>i tp. y = upd i tp \<and> inserted V st T T' i)"

definition add_post ::
    "'db db_view \<Rightarrow> sql_insert \<Rightarrow> (long_long \<Rightarrow> time_point \<Rightarrow> 'a) \<Rightarrow> tables \<Rightarrow> 'a option outcome \<Rightarrow> 'db \<Rightarrow>
     bool" where
  "add_post V st upd T out d \<longleftrightarrow>
     idle V d \<and>
     (case out of
        Ret a \<Rightarrow> added V st upd T a (dv_tables V d)
      | Throw e \<Rightarrow> maybe_inserted V st T (dv_tables V d)
      | Block \<Rightarrow> dv_tables V d = T
      | Undef \<Rightarrow> False)"

lemma maybe_inserted_refl [simp]: "maybe_inserted V st T T"
  by (simp add: maybe_inserted_def)

lemma add_postI:
  "method_post V (added V st upd T) (maybe_inserted V st T) None T out d \<Longrightarrow> add_post V st upd T out d"
  by (cases out) (auto simp: method_post_def add_post_def added_def)

lemma inserted_as_failed:
  "inserted_as V st c T i d \<Longrightarrow> dv_open V d = Some c \<and> dv_tables V d = T"
  by (auto simp: inserted_as_def in_txn_def)

lemma triple_give_up:
  "triple (\<lambda>d. dv_open V d = Some c \<and> maybe_inserted V st T (dv_tables V d)) (creturn (None, False))
    (\<lambda>(a, k) d. dv_open V d = (if k then None else Some c) \<and> added V st upd T a (dv_tables V d)) X"
  by (rule triple_return) (simp add: added_def)

lemma triple_commit_added:
  assumes ok: "engine_ok E V"
  shows "triple (inserted_as V st c T i)
    (cbind (db_call (db_commit E c)) (\<lambda>_. creturn (Some (upd i tp), True)))
    (\<lambda>(a, k) d. dv_open V d = (if k then None else Some c) \<and> added V st upd T a (dv_tables V d))
    (\<lambda>d. dv_open V d = Some c \<and> maybe_inserted V st T (dv_tables V d))"
  by (rule triple_bind [OF triple_commit_insert [OF ok] triple_return]) (auto simp: added_def)

lemma triple_give_up_inserted:
  "triple (inserted_as V st c T i) (creturn (None, False))
    (\<lambda>(a, k) d. dv_open V d = (if k then None else Some c) \<and> added V st upd T a (dv_tables V d)) X"
  by (rule triple_return) (auto simp: added_def dest: inserted_as_failed)

lemma addUser_fact:
  assumes ok: "engine_ok E V" and idle: "idle V (ds_db s)" and run: "MySQL_addUser E u s = (out, t)"
  shows "add_post V (Insert_user (u_username u) (u_hashed_password u) (u_salt u))
    (\<lambda>i tp. u\<lparr>u_id := i, u_created_at := tp\<rparr>) (dv_tables V (ds_db s)) out (ds_db t)"
proof (rule add_postI,
    rule transaction_rule [OF ok idle run [unfolded MySQL_addUser_def] refl maybe_inserted_refl])
  fix c
  let ?st = "Insert_user (u_username u) (u_hashed_password u) (u_salt u)"
  let ?T = "dv_tables V (ds_db s)"
  let ?upd = "\<lambda>i tp. u\<lparr>u_id := i, u_created_at := tp\<rparr>"
  let ?X = "\<lambda>d. dv_open V d = Some c \<and> maybe_inserted V ?st ?T (dv_tables V d)"
  show "triple (in_txn V c ?T ?T)
    (cbind (db_call (db_insert E c ?st)) (\<lambda>_. cbind (db_call (db_last_id E c T_users)) (\<lambda>last.
       case last of
         None \<Rightarrow> creturn (None, False)
       | Some newId \<Rightarrow>
           ctry
             (cbind (db_call (db_created E c T_users newId)) (\<lambda>created.
               cbind (db_call (db_commit E c)) (\<lambda>_.
                 creturn (Some (?upd newId (created_from_base E created)), True))))
             (\<lambda>e. creturn (None, False)))))
    (\<lambda>(a, k) d. dv_open V d = (if k then None else Some c) \<and> added V ?st ?upd ?T a (dv_tables V d))
    ?X"
  proof (rule triple_insert_then [OF ok], goal_cases)
    case (3 i)
    have "triple (inserted_as V ?st c ?T i) (db_call (db_created E c T_users i))
      (\<lambda>_. inserted_as V ?st c ?T i) ?X"
      by (rule triple_weaken [OF triple_created [OF ok]]) (auto dest: inserted_as_failed)
    then show ?case
      unfolding option.case
      by (rule triple_try [OF triple_bind triple_give_up])
        (rule triple_commit_added [OF ok, where upd = ?upd])
  qed (auto intro: triple_give_up_inserted)
qed

lemma triple_optional_time:
  assumes ok: "engine_ok E V"
    and m: "triple (inserted_as V st c T i) m (\<lambda>_. inserted_as V st c T i) (inserted_as V st c T i)"
  shows "triple (inserted_as V st c T i)
    (cbind (ctry m (\<lambda>e. creturn None)) (\<lambda>tp.
       case tp of
         None \<Rightarrow> creturn (None, False)
       | Some tp \<Rightarrow>
           cbind (db_call (db_commit E c)) (\<lambda>_. creturn (Some (upd i tp), True))))
    (\<lambda>(a, k) d. dv_open V d = (if k then None else Some c) \<and> added V st upd T a (dv_tables V d))
    (\<lambda>d. dv_open V d = Some c \<and> maybe_inserted V st T (dv_tables V d))"
proof (rule triple_bind)
  show "triple (inserted_as V st c T i) (ctry m (\<lambda>e. creturn None)) (\<lambda>_. inserted_as V st c T i)
    (\<lambda>d. dv_open V d = Some c \<and> maybe_inserted V st T (dv_tables V d))"
    by (rule triple_try [OF m triple_return])
next
  fix tp
  show "triple (inserted_as V st c T i)
    (case tp of
       None \<Rightarrow> creturn (None, False)
     | Some tp \<Rightarrow> cbind (db_call (db_commit E c)) (\<lambda>_. creturn (Some (upd i tp), True)))
    (\<lambda>(a, k) d. dv_open V d = (if k then None else Some c) \<and> added V st upd T a (dv_tables V d))
    (\<lambda>d. dv_open V d = Some c \<and> maybe_inserted V st T (dv_tables V d))"
    by (cases tp) (simp_all add: triple_give_up_inserted triple_commit_added [OF ok])
qed

lemma triple_created_message:
  "engine_ok E V \<Longrightarrow> triple (inserted_as V st c T i)
    (cbind (db_call (db_created E c tb j)) (\<lambda>created. creturn (Some (f created))))
    (\<lambda>_. inserted_as V st c T i) (inserted_as V st c T i)"
  by (rule triple_bind [OF triple_created triple_return]) auto

lemma triple_created_room:
  assumes ok: "engine_ok E V" and st: "st = Insert_room n creator"
  shows "triple (inserted_as V st c T i)
    (cbind (db_call (db_created E c T_rooms i)) (\<lambda>created.
       case created of
         None \<Rightarrow> cundef
       | Some v \<Rightarrow> cbind (created_or_now E v) (\<lambda>tp. creturn (Some tp))))
    (\<lambda>_. inserted_as V st c T i) (inserted_as V st c T i)"
proof (rule triple_bind [OF triple_created [OF ok]])
  fix created
  show "triple (\<lambda>d. inserted_as V st c T i d \<and>
        (\<exists>T'. inserted V st T T' i \<and> created = created_in T_rooms i T'))
    (case created of
       None \<Rightarrow> cundef
     | Some v \<Rightarrow> cbind (created_or_now E v) (\<lambda>tp. creturn (Some tp)))
    (\<lambda>_. inserted_as V st c T i) (inserted_as V st c T i)"
  proof (cases created)
    case None
    have "\<not> inserted V st T T' i \<or> None \<noteq> created_in T_rooms i T'" for T'
      using created_in_inserted_room [of V n creator T T' i] unfolding st by auto
    then show ?thesis unfolding None triple_def by blast
  next
    case (Some v)
    have "triple (inserted_as V st c T i) (cbind (created_or_now E v) (\<lambda>tp. creturn (Some tp)))
      (\<lambda>_. inserted_as V st c T i) (inserted_as V st c T i)"
      by (rule triple_bind [OF triple_silent triple_return]) auto
    then show ?thesis unfolding Some option.case by (rule triple_weaken) auto
  qed
qed

lemma addRoom_fact:
  assumes ok: "engine_ok E V" and idle: "idle V (ds_db s)" and run: "MySQL_addRoom E r s = (out, t)"
  shows "add_post V (Insert_room (r_name r) (r_creator_id r))
    (\<lambda>i tp. r\<lparr>r_id := i, r_created_at := tp\<rparr>) (dv_tables V (ds_db s)) out (ds_db t)"
proof (rule add_postI,
    rule transaction_rule [OF ok idle run [unfolded MySQL_addRoom_def] refl maybe_inserted_refl],
    goal_cases)
  case (1 c)
  show ?case
  proof (rule triple_insert_then [OF ok], goal_cases)
    case (3 i)
    show ?case unfolding option.case
      by (rule triple_optional_time [OF ok triple_created_room [OF ok refl], where upd = "\<lambda>i tp. r\<lparr>r_id := i, r_created_at := tp\<rparr>"])
  next
    case (2 i)
    show ?case unfolding option.case by (rule triple_give_up_inserted)
  qed simp
qed
lemma addMessage_fact:
  assumes ok: "engine_ok E V" and idle: "idle V (ds_db s)"
    and run: "MySQL_addMessage E m s = (out, t)"
  shows "add_post V (Insert_message (m_room_id m) (m_sender_id m) (m_content m))
    (\<lambda>i tp. m\<lparr>m_id := i, m_created_at := tp\<rparr>) (dv_tables V (ds_db s)) out (ds_db t)"
proof (rule add_postI,
    rule transaction_rule [OF ok idle run [unfolded MySQL_addMessage_def] refl maybe_inserted_refl],
    goal_cases)
  case (1 c)
  show ?case
  proof (rule triple_insert_then [OF ok], goal_cases)
    case (3 i)
    show ?case unfolding option.case
      by (rule triple_optional_time [OF ok triple_created_message [OF ok], where upd = "\<lambda>i tp. m\<lparr>m_id := i, m_created_at := tp\<rparr>"])
  next
    case (2 i)
    show ?case unfolding option.case by (rule triple_give_up_inserted)
  qed simp
qed
text \<open>\<open>updateUser\<close>: \<open>true\<close> means the row was rewritten; \<open>false\<close> may mean it too, when a commit failed.\<close>

definition maybe_updated :: "'db db_view \<Rightarrow> user \<Rightarrow> tables \<Rightarrow> tables \<Rightarrow> bool" where
  "maybe_updated V u T T' \<longleftrightarrow>
     T' = T \<or>
     (\<exists>k. changed V (Update_user (u_username u) (u_hashed_password u) (u_salt u) (u_id u)) T T' k)"

definition updated_user :: "'db db_view \<Rightarrow> user \<Rightarrow> tables \<Rightarrow> bool \<Rightarrow> tables \<Rightarrow> bool" where
  "updated_user V u T b T' \<longleftrightarrow>
     (if b then \<exists>k > 0. changed V (Update_user (u_username u) (u_hashed_password u) (u_salt u)
         (u_id u)) T T' k
      else maybe_updated V u T T')"

lemma triple_ex: "(\<And>x. triple (P x) m Q X) \<Longrightarrow> triple (\<lambda>d. \<exists>x. P x d) m Q X"
  by (auto simp: triple_def)

lemma triple_pure: "(p \<Longrightarrow> triple P m Q X) \<Longrightarrow> triple (\<lambda>d. P d \<and> p) m Q X"
  by (auto simp: triple_def)

lemma updateUser_fact:
  assumes ok: "engine_ok E V" and idle: "idle V (ds_db s)"
    and run: "MySQL_updateUser E u s = (out, t)"
  shows "method_post V (updated_user V u (dv_tables V (ds_db s)))
    (maybe_updated V u (dv_tables V (ds_db s))) False (dv_tables V (ds_db s)) out (ds_db t)"
proof (rule transaction_rule [OF ok idle run [unfolded MySQL_updateUser_def] refl], goal_cases)
  case (2 c)
  let ?T = "dv_tables V (ds_db s)"
  let ?st = "Update_user (u_username u) (u_hashed_password u) (u_salt u) (u_id u)"
  let ?Q = "\<lambda>(a, k) d. dv_open V d = (if k then None else Some c) \<and>
    updated_user V u ?T a (dv_tables V d)"
  let ?X = "\<lambda>d. dv_open V d = Some c \<and> maybe_updated V u ?T (dv_tables V d)"
  have change: "triple (in_txn V c ?T ?T) (db_call (db_change E c ?st))
    (\<lambda>k d. \<exists>T''. in_txn V c ?T T'' d \<and> changed V ?st ?T T'' k) ?X"
    by (rule triple_weaken [OF triple_change [OF ok]]) (auto simp: maybe_updated_def)
  have commit: "triple (in_txn V c ?T T'') (cbind (db_call (db_commit E c)) (\<lambda>_. creturn (True, True)))
      ?Q ?X" if "changed V ?st ?T T'' k" "k > 0" for T'' k
    by (rule triple_bind [OF triple_weaken [OF triple_commit [OF ok]] triple_return])
      (use that in \<open>auto simp: maybe_updated_def updated_user_def\<close>)
  have give_up: "triple (in_txn V c ?T T'') (creturn (False, False)) ?Q ?X" for T''
    by (rule triple_return) (auto simp: updated_user_def maybe_updated_def in_txn_def)
  show ?case
  proof (rule triple_bind [OF change triple_ex [OF triple_pure]])
    fix k T'' assume "changed V ?st ?T T'' k"
    then show "triple (in_txn V c ?T T'')
      (if k > 0 then cbind (db_call (db_commit E c)) (\<lambda>_. creturn (True, True))
       else creturn (False, False)) ?Q ?X"
      using commit give_up by (cases "k > 0") auto
  qed
qed (simp add: maybe_updated_def)

lemma triple_created_checked:
  "triple P (created_checked E c)
     (\<lambda>t d. P d \<and> (\<forall>x. c = Some x \<and> e_mktime E x \<noteq> -1 \<longrightarrow> t = from_time_t (e_tps E) (e_mktime E x))) X"
  by (auto simp: triple_def created_checked_def read_clock_def creturn_def Let_def split: option.splits)

lemma triple_fetch_messages:
  "triple P (fetch_messages E v (map message_row_of ms))
     (\<lambda>as d. P d \<and> list_all2 (is_message E) as ms) X"
proof (induction ms arbitrary: v P)
  case Nil
  then show ?case by (simp add: triple_def)
next
  case (Cons m ms)
  show ?case
    unfolding list.map fetch_messages.simps Let_def
    by (rule triple_bind [OF triple_created_checked], rule triple_bind [OF Cons.IH], rule triple_return)
      (auto simp: message_row_of_def is_message_def)
qed

definition found_messages :: "'db env \<Rightarrow> 'db db_view \<Rightarrow> message_query \<Rightarrow> tables \<Rightarrow> message list \<Rightarrow> bool" where
  "found_messages E V q T as \<longleftrightarrow>
     as = [] \<or> (\<exists>rows ms. message_answer V q T rows \<and> rows = map message_row_of ms \<and>
       list_all2 (is_message E) as ms)"

lemma answer_messages:
  "message_answer V q T rows \<Longrightarrow> \<exists>ms. rows = map message_row_of ms"
  by (cases q) (auto simp: message_answer_def)

lemma list_messages_fact:
  assumes ok: "engine_ok E V" and idle: "idle V (ds_db s)" and run: "list_messages E q s = (out, t)"
  shows "read_post V (found_messages E V q (dv_tables V (ds_db s)))
    (dv_tables V (ds_db s)) out (ds_db t)"
proof (rule plain_rule [OF idle run [unfolded list_messages_def] refl], goal_cases)
  case (2 c)
  let ?T = "dv_tables V (ds_db s)"
  let ?P = "\<lambda>d. idle V d \<and> dv_tables V d = ?T"
  have query: "triple ?P (db_call (db_messages E c q)) (\<lambda>rows d. ?P d \<and> message_answer V q ?T rows) ?P"
    by (rule triple_query(3) [OF ok same_world_idle seen_idle])
  show ?case
  proof (rule triple_bind [OF query triple_pure])
    fix rows assume a: "message_answer V q ?T rows"
    then obtain ms where ms: "rows = map message_row_of ms" using answer_messages by blast
    show "triple ?P (fetch_messages E (new_message (e_junk E)) rows)
      (\<lambda>as d. ?P d \<and> found_messages E V q ?T as) ?P"
      unfolding ms by (rule triple_weaken [OF triple_fetch_messages [where P = ?P]])
        (use a ms in \<open>auto simp: found_messages_def\<close>)
  qed
qed (simp add: found_messages_def)

section \<open>The schema is kept\<close>

lemma unique_text_snoc:
  assumes "unique_text name same xs" "equivp same" "\<forall>x \<in> set xs. \<not> same (name x) (name y)"
  shows "unique_text name same (xs @ [y])"
proof -
  have "\<not> same (name y) (name x)" if "x \<in> set xs" for x
    using assms(2,3) that by (meson equivp_symp)
  with assms(1,3) show ?thesis
    by (auto simp: unique_text_def nth_append less_Suc_eq)
qed

lemma inserted_schema_ok:
  assumes "inserted V st T T' i" "schema_ok V T" "equivp (dv_same_text V)"
  shows "schema_ok V T'"
proof (cases st)
  case (Insert_user n h s)
  with assms show ?thesis
    by (auto simp: inserted.simps schema_ok_def intro!: unique_text_snoc)
next
  case (Insert_room n creator)
  with assms show ?thesis
    by (auto simp: inserted.simps schema_ok_def intro!: unique_text_snoc)
next
  case (Insert_message r w content)
  with assms show ?thesis by (auto simp: inserted.simps schema_ok_def)
qed

lemma scast_int32_inject: "scast (a :: int32) = (scast b :: long_long) \<longleftrightarrow> a = b"
proof
  assume "scast a = (scast b :: long_long)"
  then have "sint (scast a :: long_long) = sint (scast b :: long_long)" by simp
  then have "sint a = sint b" by (simp add: sint_up_scast is_up)
  then show "a = b" by (rule signed_word_eqI)
qed simp

lemma changed_user_schema_ok:
  assumes ch: "changed V (Update_user n h s i) T T' k" and ok: "schema_ok V T"
    and eq: "equivp (dv_same_text V)"
  shows "schema_ok V T'"
proof -
  let ?us = "t_users T"
  let ?us' = "update_users n h s i ?us"
  from ch have T': "T' = T\<lparr>t_users := ?us'\<rparr>" by (simp add: changed.simps)
  have ids: "map du_id ?us' = map du_id ?us" by (simp add: update_users_def)
  have nth: "du_id (?us' ! j) = du_id (?us ! j)"
    "du_username (?us' ! j) = (if scast (du_id (?us ! j)) = i then n else du_username (?us ! j))"
    if "j < length ?us" for j using that by (simp_all add: update_users_def)
  have same: "j = j'" if "j < length ?us" "j' < length ?us" "scast (du_id (?us ! j)) = i"
    "scast (du_id (?us ! j')) = i" for j j'
  proof -
    from that have "du_id (?us ! j) = du_id (?us ! j')" by (metis scast_int32_inject)
    with that ok show ?thesis by (simp add: schema_ok_def distinct_conv_nth) (metis nth_map)
  qed
  have other: "\<not> dv_same_text V (du_username (?us ! j')) n"
    if "j < length ?us" "j' < length ?us" "scast (du_id (?us ! j)) = i"
    "scast (du_id (?us ! j')) \<noteq> i" for j j'
    using ch that by (auto simp: changed.simps dest: nth_mem)
  have "unique_text du_username (dv_same_text V) ?us'"
    unfolding unique_text_def
  proof (intro allI impI)
    fix j j' assume l: "j < length ?us'" "j' < length ?us'"
      and e: "dv_same_text V (du_username (?us' ! j)) (du_username (?us' ! j'))"
    then have "j < length ?us" "j' < length ?us" by (simp_all add: update_users_def)
    with e nth same other [of j j'] other [of j' j] ok show "j = j'"
      using eq by (auto simp: schema_ok_def unique_text_def split: if_splits dest: equivp_symp)
  qed
  moreover have "\<forall>u \<in> set ?us'. 0 < sint (du_id u)"
    using ok by (auto simp: schema_ok_def update_users_def)
  ultimately show ?thesis
    using ok ids by (simp add: T' schema_ok_def)
qed

end
