(* ===== verification/User_Store.thy ===== *)
theory User_Store
  imports Session_Manager Repository_Facts
begin

text \<open>
  The contract of \<open>IUserRepository\<close> the services rely on, as a locale, and its interpretation on
  \<open>MySQLUserRepository\<close>. The store is a set of credentials; no two of them share an id or a name
  (up to the equality of the column). A failing call may still have made its change: the
  connection can break after the server has committed. No call touches the sessions or the rooms.
\<close>

type_synonym credential = "long_long \<times> string \<times> string \<times> string"

definition credential_of :: "user \<Rightarrow> credential" where
  "credential_of u = (u_id u, u_username u, u_hashed_password u, u_salt u)"

definition cred_id :: "credential \<Rightarrow> long_long" where
  "cred_id c = fst c"

definition cred_name :: "credential \<Rightarrow> string" where
  "cred_name c = fst (snd c)"

definition store_update :: "user \<Rightarrow> credential set \<Rightarrow> credential set" where
  "store_update u S = (\<lambda>c. if cred_id c = u_id u then credential_of u else c) ` S"

definition store_add :: "user \<Rightarrow> credential set \<Rightarrow> credential set \<Rightarrow> bool" where
  "store_add u S S' \<longleftrightarrow>
     (\<exists>i. i \<notin> cred_id ` S \<and> 0 < sint i \<and> S' = insert (credential_of (u\<lparr>u_id := i\<rparr>)) S)"

lemma credential_of_simps [simp]:
  "cred_id (credential_of u) = u_id u" "cred_name (credential_of u) = u_username u"
  "credential_of (u\<lparr>u_created_at := t\<rparr>) = credential_of u"
  by (simp_all add: credential_of_def cred_id_def cred_name_def)

locale user_store =
  fixes repo :: "('db, 'z) session_state_scheme user_repository"
    and users :: "'db \<Rightarrow> credential set"
    and same :: "string \<Rightarrow> string \<Rightarrow> bool"
    and invar :: "'db \<Rightarrow> bool"
  assumes find:
      "invar (ds_db s) \<Longrightarrow> findByUsername repo n s = (out, t) \<Longrightarrow>
       invar (ds_db t) \<and> users (ds_db t) = users (ds_db s) \<and>
       data_state.more t = data_state.more s \<and> out \<noteq> Undef \<and>
       (\<forall>u. out = Ret (Some u) \<longrightarrow> credential_of u \<in> users (ds_db s) \<and> same (u_username u) n)"
    and find_id:
      "invar (ds_db s) \<Longrightarrow> findByUserId repo i s = (out, t) \<Longrightarrow>
       invar (ds_db t) \<and> users (ds_db t) = users (ds_db s) \<and>
       data_state.more t = data_state.more s \<and> out \<noteq> Undef \<and>
       (\<forall>u. out = Ret (Some u) \<longrightarrow> credential_of u \<in> users (ds_db s) \<and> u_id u = i)"
    and add:
      "invar (ds_db s) \<Longrightarrow> addUser repo u s = (out, t) \<Longrightarrow>
       invar (ds_db t) \<and> data_state.more t = data_state.more s \<and> out \<noteq> Undef \<and>
       (users (ds_db t) = users (ds_db s) \<or> store_add u (users (ds_db s)) (users (ds_db t))) \<and>
       (\<forall>u'. out = Ret (Some u') \<longrightarrow>
          u_username u' = u_username u \<and> cred_id (credential_of u') \<notin> cred_id ` users (ds_db s) \<and>
          (\<forall>c \<in> users (ds_db s). \<not> same (cred_name c) (u_username u)) \<and>
          credential_of u' = credential_of (u\<lparr>u_id := u_id u'\<rparr>) \<and>
          users (ds_db t) = insert (credential_of u') (users (ds_db s)))"
    and update:
      "invar (ds_db s) \<Longrightarrow> updateUser repo u s = (res, t) \<Longrightarrow>
       invar (ds_db t) \<and> data_state.more t = data_state.more s \<and> res \<noteq> Undef \<and>
       users (ds_db t) \<in> {users (ds_db s), store_update u (users (ds_db s))} \<and>
       (res = Ret True \<longrightarrow> users (ds_db t) = store_update u (users (ds_db s)))"
    and unique:
      "invar d \<Longrightarrow> c \<in> users d \<Longrightarrow> c' \<in> users d \<Longrightarrow>
       cred_id c = cred_id c' \<or> same (cred_name c) (cred_name c') \<Longrightarrow> c = c'"
    and same_equiv: "invar d \<Longrightarrow> equivp same"

text \<open>A store that answers: while \<open>up\<close> holds, a lookup returns, and finds what is there.\<close>

locale reliable_user_store = user_store +
  fixes up :: "('db, 'z) session_state_scheme \<Rightarrow> bool"
  assumes find_complete:
    "invar (ds_db s) \<Longrightarrow> up s \<Longrightarrow>
     \<exists>a t. findByUsername repo n s = (Ret a, t) \<and> up t \<and>
       (a = None \<longrightarrow> (\<forall>c \<in> users (ds_db s). \<not> same (cred_name c) n))"
begin

lemma find_known:
  fixes s :: "('db, 'z) session_state_scheme"
  assumes inv: "invar (ds_db s)" and up: "up s" and c: "c \<in> users (ds_db s)" "same (cred_name c) n"
  obtains u t where "findByUsername repo n s = (Ret (Some u), t)" "credential_of u = c"
    "data_state.more t = data_state.more s" "up t"
proof -
  obtain a t where run: "findByUsername repo n s = (Ret a, t)" "up t"
    and none: "a = None \<longrightarrow> (\<forall>c \<in> users (ds_db s). \<not> same (cred_name c) n)"
    using find_complete [OF inv up] by blast
  with c obtain u where a: "a = Some u" by (cases a) auto
  from find [OF inv run(1)] a have u: "credential_of u \<in> users (ds_db s)" "same (u_username u) n"
    and fr: "data_state.more t = data_state.more s" by simp_all
  have "same (cred_name (credential_of u)) (cred_name c)"
    using u(2) c(2) same_equiv [OF inv] by (metis credential_of_simps(2) equivp_symp equivp_transp)
  then have "credential_of u = c" using unique [OF inv u(1) c(1)] by blast
  with run a fr show thesis by (intro that [of u t]) simp_all
qed

end

section \<open>The MySQL repository meets the contract\<close>

definition db_ok :: "'db env \<Rightarrow> 'db db_view \<Rightarrow> 'db \<Rightarrow> bool" where
  "db_ok E V d \<longleftrightarrow> engine_ok E V \<and> idle V d \<and> schema_ok V (dv_tables V d)"

definition row_credential :: "db_user \<Rightarrow> credential" where
  "row_credential x = (scast (du_id x), du_username x, du_hashed_password x, du_salt x)"

definition db_users_of :: "'db db_view \<Rightarrow> 'db \<Rightarrow> credential set" where
  "db_users_of V d = row_credential ` set (t_users (dv_tables V d))"

lemma is_user_credential: "is_user u x \<longleftrightarrow> credential_of u = row_credential x"
  by (auto simp: is_user_def credential_of_def row_credential_def)

lemma cred_row [simp]: "cred_id (row_credential x) = scast (du_id x)"
  "cred_name (row_credential x) = du_username x"
  by (simp_all add: cred_id_def cred_name_def row_credential_def)

lemma data_only_user_of_first_row [simp]: "data_only (user_of_first_row E rows)"
  by (auto simp: user_of_first_row_def split: list.splits option.splits)

lemma data_only_user_methods [simp]:
  "data_only (MySQL_findByUsername E n)" "data_only (MySQL_findByUserId E i)"
  "data_only (MySQL_addUser E u)" "data_only (MySQL_updateUser E u)"
  unfolding MySQL_findByUsername_def MySQL_findByUserId_def MySQL_addUser_def MySQL_updateUser_def
  by (intro data_only_with_connection; auto split: option.splits)+

lemma sint_scast_int32: "sint (scast (k :: int32) :: long_long) = sint k"
  by (simp add: sint_up_scast is_up)

lemma inserted_user_store:
  assumes "inserted V (Insert_user (u_username u) (u_hashed_password u) (u_salt u)) T T' i"
  shows "i \<notin> cred_id ` row_credential ` set (t_users T)" "0 < sint i"
    "\<forall>c \<in> row_credential ` set (t_users T). \<not> dv_same_text V (cred_name c) (u_username u)"
    "row_credential ` set (t_users T') =
       insert (credential_of (u\<lparr>u_id := i\<rparr>)) (row_credential ` set (t_users T))"
proof -
  from assms obtain k cr where k: "i = scast k" "0 < sint k" "k \<notin> du_id ` set (t_users T)"
    "\<forall>x \<in> set (t_users T). \<not> dv_same_text V (du_username x) (u_username u)"
    "T' = T\<lparr>t_users := t_users T @ [\<lparr>du_id = k, du_username = u_username u,
       du_hashed_password = u_hashed_password u, du_salt = u_salt u, du_created_at = cr\<rparr>]\<rparr>"
    by (auto simp: inserted.simps)
  from k(3) show "i \<notin> cred_id ` row_credential ` set (t_users T)"
    by (auto simp: k(1) scast_int32_inject)
  from k(2) show "0 < sint i" by (simp add: k(1) sint_scast_int32)
  from k(4) show "\<forall>c \<in> row_credential ` set (t_users T). \<not> dv_same_text V (cred_name c) (u_username u)"
    by auto
  show "row_credential ` set (t_users T') =
      insert (credential_of (u\<lparr>u_id := i\<rparr>)) (row_credential ` set (t_users T))"
    by (simp add: k(1,5) row_credential_def credential_of_def)
qed

lemma changed_user_store:
  assumes "changed V (Update_user (u_username u) (u_hashed_password u) (u_salt u) (u_id u)) T T' k"
  shows "row_credential ` set (t_users T') = store_update u (row_credential ` set (t_users T))"
proof -
  from assms have "t_users T' = update_users (u_username u) (u_hashed_password u) (u_salt u)
      (u_id u) (t_users T)" by (simp add: changed.simps)
  then have "row_credential ` set (t_users T') =
      (\<lambda>x. row_credential (if scast (du_id x) = u_id u then x\<lparr>du_username := u_username u,
         du_hashed_password := u_hashed_password u, du_salt := u_salt u\<rparr> else x)) `
      set (t_users T)" by (simp only: update_users_def set_map image_image)
  also have "\<dots> = (\<lambda>x. if cred_id (row_credential x) = u_id u then credential_of u
      else row_credential x) ` set (t_users T)"
    by (rule image_cong) (auto simp: row_credential_def credential_of_def cred_id_def)
  finally show ?thesis by (simp only: store_update_def image_image)
qed

lemma read_user_contract:
  fixes s t :: "('db, 'z) session_state_scheme"
  assumes ok: "db_ok E V (ds_db s)" and run: "m s = (out, t)" and fr: "data_only m"
    and post: "read_post V (found_user V q (dv_tables V (ds_db s))) (dv_tables V (ds_db s))
      out (ds_db t)"
  shows "db_ok E V (ds_db t) \<and> db_users_of V (ds_db t) = db_users_of V (ds_db s) \<and>
    data_state.more t = data_state.more s \<and> out \<noteq> Undef \<and>
    (\<forall>u. out = Ret (Some u) \<longrightarrow>
       credential_of u \<in> db_users_of V (ds_db s) \<and>
       (\<exists>x. credential_of u = row_credential x \<and> user_matches V q x))"
  using ok post data_onlyD [OF fr run]
  by (auto simp: db_ok_def read_post_def db_users_of_def found_user_def is_user_credential)

lemma add_user_contract:
  fixes s t :: "('db, 'z) session_state_scheme"
  assumes ok: "db_ok E V (ds_db s)" and run: "MySQL_addUser E u s = (out, t)"
  shows "db_ok E V (ds_db t) \<and> data_state.more t = data_state.more s \<and> out \<noteq> Undef \<and>
    (db_users_of V (ds_db t) = db_users_of V (ds_db s) \<or>
     store_add u (db_users_of V (ds_db s)) (db_users_of V (ds_db t))) \<and>
    (\<forall>u'. out = Ret (Some u') \<longrightarrow>
       u_username u' = u_username u \<and> cred_id (credential_of u') \<notin> cred_id ` db_users_of V (ds_db s) \<and>
       (\<forall>c \<in> db_users_of V (ds_db s). \<not> dv_same_text V (cred_name c) (u_username u)) \<and>
       credential_of u' = credential_of (u\<lparr>u_id := u_id u'\<rparr>) \<and>
       db_users_of V (ds_db t) = insert (credential_of u') (db_users_of V (ds_db s)))"
proof -
  let ?st = "Insert_user (u_username u) (u_hashed_password u) (u_salt u)"
  let ?T = "dv_tables V (ds_db s)"
  have eng: "engine_ok E V" "idle V (ds_db s)" "schema_ok V ?T" using ok by (simp_all add: db_ok_def)
  note post = addUser_fact [OF eng(1,2) run]
  have maybe: "maybe_inserted V ?st ?T (dv_tables V (ds_db t))" and idle: "idle V (ds_db t)"
    and undef: "out \<noteq> Undef"
    and some: "\<And>u'. out = Ret (Some u') \<Longrightarrow> \<exists>i tp. u' = u\<lparr>u_id := i, u_created_at := tp\<rparr> \<and>
      inserted V ?st ?T (dv_tables V (ds_db t)) i"
    using post by (cases out; auto simp: add_post_def added_def maybe_inserted_def
        split: option.splits)+
  have "schema_ok V (dv_tables V (ds_db t))"
    using maybe eng inserted_schema_ok engine_okD(4) [OF eng(1)] unfolding maybe_inserted_def by metis
  then have "db_ok E V (ds_db t)" using eng idle by (simp add: db_ok_def)
  moreover have "db_users_of V (ds_db t) = db_users_of V (ds_db s) \<or>
     store_add u (db_users_of V (ds_db s)) (db_users_of V (ds_db t))"
    using maybe inserted_user_store [of V u ?T "dv_tables V (ds_db t)"]
    unfolding maybe_inserted_def store_add_def db_users_of_def by metis
  moreover have "u_username u' = u_username u \<and>
      cred_id (credential_of u') \<notin> cred_id ` db_users_of V (ds_db s) \<and>
      (\<forall>c \<in> db_users_of V (ds_db s). \<not> dv_same_text V (cred_name c) (u_username u)) \<and>
      credential_of u' = credential_of (u\<lparr>u_id := u_id u'\<rparr>) \<and>
      db_users_of V (ds_db t) = insert (credential_of u') (db_users_of V (ds_db s))"
    if "out = Ret (Some u')" for u'
  proof -
    from some [OF that] obtain i tp where u': "u' = u\<lparr>u_id := i, u_created_at := tp\<rparr>"
      and ins: "inserted V ?st ?T (dv_tables V (ds_db t)) i" by blast
    from inserted_user_store [OF ins] show ?thesis
      by (auto simp: u' db_users_of_def credential_of_def cred_id_def)
  qed
  ultimately show ?thesis using undef data_onlyD [OF data_only_user_methods(3) run] by blast
qed

lemma update_user_contract:
  fixes s t :: "('db, 'z) session_state_scheme"
  assumes ok: "db_ok E V (ds_db s)" and run: "MySQL_updateUser E u s = (out, t)"
  shows "db_ok E V (ds_db t) \<and> data_state.more t = data_state.more s \<and> out \<noteq> Undef \<and>
    db_users_of V (ds_db t) \<in> {db_users_of V (ds_db s), store_update u (db_users_of V (ds_db s))} \<and>
    (out = Ret True \<longrightarrow> db_users_of V (ds_db t) = store_update u (db_users_of V (ds_db s)))"
proof -
  let ?st = "Update_user (u_username u) (u_hashed_password u) (u_salt u) (u_id u)"
  let ?T = "dv_tables V (ds_db s)"
  let ?T' = "dv_tables V (ds_db t)"
  have eng: "engine_ok E V" "idle V (ds_db s)" "schema_ok V ?T" using ok by (simp_all add: db_ok_def)
  note post = updateUser_fact [OF eng(1,2) run]
  have maybe: "?T' = ?T \<or> (\<exists>k. changed V ?st ?T ?T' k)" and idle: "idle V (ds_db t)"
    and undef: "out \<noteq> Undef" and true: "out = Ret True \<Longrightarrow> \<exists>k. changed V ?st ?T ?T' k"
    using post by (cases out; auto simp: method_post_def updated_user_def maybe_updated_def
        split: if_splits)+
  have "schema_ok V ?T'"
    using maybe eng changed_user_schema_ok engine_okD(4) [OF eng(1)] by metis
  then have "db_ok E V (ds_db t)" using eng idle by (simp add: db_ok_def)
  moreover have "db_users_of V (ds_db t) \<in> {db_users_of V (ds_db s), store_update u (db_users_of V (ds_db s))}"
    using maybe changed_user_store [of V u ?T ?T'] unfolding db_users_of_def by auto
  moreover have "db_users_of V (ds_db t) = store_update u (db_users_of V (ds_db s))" if "out = Ret True"
    using true [OF that] changed_user_store [of V u ?T ?T'] unfolding db_users_of_def by auto
  ultimately show ?thesis using undef data_onlyD [OF data_only_user_methods(4) run] by blast
qed

lemma db_users_unique:
  assumes ok: "db_ok E V d" and c: "c \<in> db_users_of V d" "c' \<in> db_users_of V d"
    and eq: "cred_id c = cred_id c' \<or> dv_same_text V (cred_name c) (cred_name c')"
  shows "c = c'"
proof -
  let ?us = "t_users (dv_tables V d)"
  have S: "distinct (map du_id ?us)" "unique_text du_username (dv_same_text V) ?us"
    using ok by (simp_all add: db_ok_def schema_ok_def)
  from c obtain j j' where j: "j < length ?us" "c = row_credential (?us ! j)"
    "j' < length ?us" "c' = row_credential (?us ! j')"
    by (auto simp: db_users_of_def in_set_conv_nth)
  from eq have "j = j'"
  proof
    assume "cred_id c = cred_id c'"
    with j have "map du_id ?us ! j = map du_id ?us ! j'" by (simp add: scast_int32_inject)
    with S(1) j show ?thesis by (simp only: nth_eq_iff_index_eq length_map)
  next
    assume "dv_same_text V (cred_name c) (cred_name c')"
    with S(2) j show ?thesis by (simp add: unique_text_def)
  qed
  with j show ?thesis by simp
qed

interpretation mysql_users: user_store "MySQLUserRepository E" "db_users_of V" "dv_same_text V"
    "db_ok E V" for E V
proof
  fix s t :: "('a, 'b) session_state_scheme" and n out
  assume ok: "db_ok E V (ds_db s)" and r: "findByUsername (MySQLUserRepository E) n s = (out, t)"
  then have run: "MySQL_findByUsername E n s = (out, t)" by (simp add: MySQLUserRepository_def)
  have "engine_ok E V" "idle V (ds_db s)" using ok by (simp_all add: db_ok_def)
  from read_user_contract [OF ok run data_only_user_methods(1) findByUsername_fact [OF this run]]
  show "db_ok E V (ds_db t) \<and> db_users_of V (ds_db t) = db_users_of V (ds_db s) \<and>
    data_state.more t = data_state.more s \<and> out \<noteq> Undef \<and>
    (\<forall>u. out = Ret (Some u) \<longrightarrow>
       credential_of u \<in> db_users_of V (ds_db s) \<and> dv_same_text V (u_username u) n)"
    by (auto simp: credential_of_def row_credential_def)
next
  fix s t :: "('a, 'b) session_state_scheme" and i out
  assume ok: "db_ok E V (ds_db s)" and r: "findByUserId (MySQLUserRepository E) i s = (out, t)"
  then have run: "MySQL_findByUserId E i s = (out, t)" by (simp add: MySQLUserRepository_def)
  have "engine_ok E V" "idle V (ds_db s)" using ok by (simp_all add: db_ok_def)
  from read_user_contract [OF ok run data_only_user_methods(2) findByUserId_fact [OF this run]]
  show "db_ok E V (ds_db t) \<and> db_users_of V (ds_db t) = db_users_of V (ds_db s) \<and>
    data_state.more t = data_state.more s \<and> out \<noteq> Undef \<and>
    (\<forall>u. out = Ret (Some u) \<longrightarrow> credential_of u \<in> db_users_of V (ds_db s) \<and> u_id u = i)"
    by (auto simp: credential_of_def row_credential_def)
next
  fix s t :: "('a, 'b) session_state_scheme" and u out
  assume ok: "db_ok E V (ds_db s)" and r: "addUser (MySQLUserRepository E) u s = (out, t)"
  then have run: "MySQL_addUser E u s = (out, t)" by (simp add: MySQLUserRepository_def)
  show "db_ok E V (ds_db t) \<and> data_state.more t = data_state.more s \<and> out \<noteq> Undef \<and>
    (db_users_of V (ds_db t) = db_users_of V (ds_db s) \<or>
     store_add u (db_users_of V (ds_db s)) (db_users_of V (ds_db t))) \<and>
    (\<forall>u'. out = Ret (Some u') \<longrightarrow>
       u_username u' = u_username u \<and> cred_id (credential_of u') \<notin> cred_id ` db_users_of V (ds_db s) \<and>
       (\<forall>c \<in> db_users_of V (ds_db s). \<not> dv_same_text V (cred_name c) (u_username u)) \<and>
       credential_of u' = credential_of (u\<lparr>u_id := u_id u'\<rparr>) \<and>
       db_users_of V (ds_db t) = insert (credential_of u') (db_users_of V (ds_db s)))"
    by (rule add_user_contract [OF ok run])
next
  fix s t :: "('a, 'b) session_state_scheme" and u out
  assume ok: "db_ok E V (ds_db s)" and r: "updateUser (MySQLUserRepository E) u s = (out, t)"
  then have run: "MySQL_updateUser E u s = (out, t)" by (simp add: MySQLUserRepository_def)
  show "db_ok E V (ds_db t) \<and> data_state.more t = data_state.more s \<and> out \<noteq> Undef \<and>
    db_users_of V (ds_db t) \<in> {db_users_of V (ds_db s), store_update u (db_users_of V (ds_db s))} \<and>
    (out = Ret True \<longrightarrow> db_users_of V (ds_db t) = store_update u (db_users_of V (ds_db s)))"
    by (rule update_user_contract [OF ok run])
next
  fix d c c'
  assume "db_ok E V d" "c \<in> db_users_of V d" "c' \<in> db_users_of V d"
    "cred_id c = cred_id c' \<or> dv_same_text V (cred_name c) (cred_name c')"
  then show "c = c'" by (rule db_users_unique)
next
  fix d assume "db_ok E V d"
  then show "equivp (dv_same_text V)" by (simp add: db_ok_def engine_ok_def)
qed

text \<open>The repository answers while a connection is free and the server answers queries.\<close>

definition engine_up :: "'db env \<Rightarrow> ('db, 'z) data_state_scheme \<Rightarrow> bool" where
  "engine_up E s \<longleftrightarrow>
     cp_instance (ds_pool s) \<and> cp_free (ds_pool s) \<noteq> [] \<and>
     (\<forall>c q d. \<exists>rows. fst (db_users E c q d) = Inr rows)"

lemma findByUsername_complete:
  fixes s :: "('db, 'z) session_state_scheme"
  assumes ok: "db_ok E V (ds_db s)" and up: "engine_up E s"
  shows "\<exists>a t. MySQL_findByUsername E n s = (Ret a, t) \<and> engine_up E t \<and>
    (a = None \<longrightarrow> (\<forall>c \<in> db_users_of V (ds_db s). \<not> dv_same_text V (cred_name c) n))"
proof -
  let ?q = "Users_by_username n"
  let ?c = "last (cp_free (ds_pool s))"
  let ?s = "s\<lparr>ds_pool := (ds_pool s)\<lparr>cp_free := butlast (cp_free (ds_pool s))\<rparr>\<rparr>"
  have pool: "cp_instance (ds_pool s)" "cp_free (ds_pool s) \<noteq> []" using up by (simp_all add: engine_up_def)
  obtain rows d where db: "db_users E ?c ?q (ds_db s) = (Inr rows, d)"
    using up unfolding engine_up_def by (metis prod.collapse)
  have eng: "query_laws E V" "idle V (ds_db s)" using ok by (simp_all add: db_ok_def engine_ok_def)
  from users_law [OF eng(1) db] have ans: "user_answer V ?q (dv_tables V (ds_db s)) rows"
    using eng(2) by (simp add: dv_seen_def idle_def)
  have "\<exists>a u. user_of_first_row E rows (?s\<lparr>ds_db := d\<rparr>) = (Ret a, u) \<and> (a = None \<longrightarrow> rows = [])"
  proof (cases rows)
    case Nil
    then show ?thesis by (simp add: user_of_first_row_def)
  next
    case (Cons r rs)
    with answer_first_user [OF ans [unfolded Cons]] have "ur_id r \<noteq> None"
      by (auto simp: user_row_of_def)
    with Cons show ?thesis
      by (auto simp: user_of_first_row_def created_or_now_def read_clock_def cbind_def
          split: option.splits)
  qed
  then obtain a u where row: "user_of_first_row E rows (?s\<lparr>ds_db := d\<rparr>) = (Ret a, u)"
    "a = None \<longrightarrow> rows = []" by blast
  have "ds_pool u = ds_pool ?s"
    using pool_silentD [OF pool_silent_user_of_first_row row(1)] by simp
  then have up': "engine_up E (u\<lparr>ds_pool := wrapper_destroy ?c True (ds_pool u)\<rparr>)"
    using up by (simp add: engine_up_def wrapper_destroy_def returnConnection_def)
  have "cbind (db_call (db_users E ?c ?q)) (user_of_first_row E) ?s = (Ret a, u)"
    using db row(1) by (simp add: cbind_def db_call_def)
  from with_connection_run [where body = "\<lambda>c. cbind (db_call (db_users E c ?q)) (user_of_first_row E)",
      OF pool this, of None "Ret a" True]
  have "MySQL_findByUsername E n s = (Ret a, u\<lparr>ds_pool := wrapper_destroy ?c True (ds_pool u)\<rparr>)"
    by (simp add: MySQL_findByUsername_def)
  moreover have "\<not> dv_same_text V (cred_name c) n" if "rows = []" "c \<in> db_users_of V (ds_db s)" for c
  proof -
    have "filter (user_matches V ?q) (t_users (dv_tables V (ds_db s))) = []"
      using ans that(1) by (simp add: user_answer_def)
    with that(2) show ?thesis by (auto simp: db_users_of_def filter_empty_conv)
  qed
  ultimately show ?thesis using row(2) up' by blast
qed

interpretation mysql_reliable: reliable_user_store "MySQLUserRepository E" "db_users_of V"
    "dv_same_text V" "db_ok E V" "engine_up E" for E V
proof
  fix s :: "('a, 'b) session_state_scheme" and n
  assume ok: "db_ok E V (ds_db s)" "engine_up E s"
  have "findByUsername (MySQLUserRepository E) n = MySQL_findByUsername E n"
    by (simp add: MySQLUserRepository_def)
  then show "\<exists>a t. findByUsername (MySQLUserRepository E) n s = (Ret a, t) \<and> engine_up E t \<and>
      (a = None \<longrightarrow> (\<forall>c \<in> db_users_of V (ds_db s). \<not> dv_same_text V (cred_name c) n))"
    using findByUsername_complete [OF ok] by metis
qed

end
