(* ===== verification/Room_Store.thy ===== *)
theory Room_Store
  imports Room_Service User_Store
begin

text \<open>
  The contracts of \<open>IRoomRepository\<close> and \<open>IMessageRepository\<close> the services rely on, as locales, and
  their interpretations on the MySQL repositories. A room is stored as its id, name and creator; a
  message as its room, sender and content. As with the users, a failing call may still have made
  its change.
\<close>

type_synonym stored_room = "long_long \<times> string \<times> long_long"
type_synonym stored_message = "long_long \<times> long_long \<times> string"

definition stored_as :: "room \<Rightarrow> stored_room" where
  "stored_as r = (r_id r, r_name r, r_creator_id r)"

definition logged_as :: "message \<Rightarrow> stored_message" where
  "logged_as m = (m_room_id m, m_sender_id m, m_content m)"

locale room_store =
  fixes rooms :: "('db, 'z) data_state_scheme room_repository"
    and stored :: "'db \<Rightarrow> stored_room set"
    and same :: "string \<Rightarrow> string \<Rightarrow> bool"
    and invar :: "'db \<Rightarrow> bool"
  assumes find:
      "invar (ds_db s) \<Longrightarrow> findByRoomName rooms n s = (out, t) \<Longrightarrow>
       invar (ds_db t) \<and> stored (ds_db t) = stored (ds_db s) \<and>
       data_state.more t = data_state.more s \<and> out \<noteq> Undef \<and>
       (\<forall>r. out = Ret (Some r) \<longrightarrow> stored_as r \<in> stored (ds_db s) \<and> same (r_name r) n)"
    and add:
      "invar (ds_db s) \<Longrightarrow> addRoom rooms r s = (out, t) \<Longrightarrow>
       invar (ds_db t) \<and> data_state.more t = data_state.more s \<and> out \<noteq> Undef \<and>
       (stored (ds_db t) = stored (ds_db s) \<or>
        (\<exists>i. i \<notin> fst ` stored (ds_db s) \<and>
           stored (ds_db t) = insert (stored_as (r\<lparr>r_id := i\<rparr>)) (stored (ds_db s)))) \<and>
       (\<forall>r'. out = Ret (Some r') \<longrightarrow>
          stored_as r' = stored_as (r\<lparr>r_id := r_id r'\<rparr>) \<and> r_id r' \<notin> fst ` stored (ds_db s) \<and>
          (\<forall>x \<in> stored (ds_db s). \<not> same (fst (snd x)) (r_name r)) \<and>
          stored (ds_db t) = insert (stored_as r') (stored (ds_db s)))"
    and same_equiv: "invar d \<Longrightarrow> equivp same"

locale message_store =
  fixes messages :: "('db, 'z) data_state_scheme message_repository"
    and log :: "'db \<Rightarrow> stored_message multiset"
    and invar :: "'db \<Rightarrow> bool"
  assumes add:
      "invar (ds_db s) \<Longrightarrow> addMessage messages m s = (out, t) \<Longrightarrow>
       invar (ds_db t) \<and> data_state.more t = data_state.more s \<and> out \<noteq> Undef \<and>
       log (ds_db t) \<in> {log (ds_db s), add_mset (logged_as m) (log (ds_db s))} \<and>
       (\<forall>m'. out = Ret (Some m') \<longrightarrow> log (ds_db t) = add_mset (logged_as m) (log (ds_db s)))"
    and latest:
      "invar (ds_db s) \<Longrightarrow> findLatestByRoomId messages i n s = (res, t) \<Longrightarrow>
       invar (ds_db t) \<and> log (ds_db t) = log (ds_db s) \<and>
       data_state.more t = data_state.more s \<and> res \<noteq> Undef \<and>
       (\<forall>ms. res = Ret ms \<longrightarrow> length ms \<le> nat (sint n) \<and>
          mset (map logged_as ms) \<subseteq># filter_mset (\<lambda>x. fst x = i) (log (ds_db s)))"

section \<open>The frames of the methods\<close>

lemma data_only_rows [simp]:
  "data_only (room_of_first_row E rooms)" "data_only (message_of_first_row E messages)"
  by (auto simp: room_of_first_row_def message_of_first_row_def split: list.splits option.splits)

lemma data_only_fetch_messages [simp]: "data_only (fetch_messages E v rows)"
  by (induction rows arbitrary: v) (auto simp: Let_def)

lemma data_only_room_methods [simp]:
  "data_only (MySQL_findByRoomName E n)" "data_only (MySQL_addRoom E r)"
  unfolding MySQL_findByRoomName_def find_room_def MySQL_addRoom_def
  by (intro data_only_with_connection data_only_transaction; auto split: option.splits)+

lemma data_only_message_methods [simp]:
  "data_only (MySQL_addMessage E m)" "data_only (MySQL_findLatestByRoomId E i n)"
  unfolding MySQL_addMessage_def MySQL_findLatestByRoomId_def list_messages_def
  by (intro data_only_with_connection; auto split: option.splits)+

section \<open>The MySQL repositories meet the contracts\<close>

definition row_stored :: "db_room \<Rightarrow> stored_room" where
  "row_stored x = (scast (dr_id x), dr_name x, scast (dr_creator_id x))"

definition db_rooms_of :: "'db db_view \<Rightarrow> 'db \<Rightarrow> stored_room set" where
  "db_rooms_of V d = row_stored ` set (t_rooms (dv_tables V d))"

definition row_logged :: "db_message \<Rightarrow> stored_message" where
  "row_logged x = (scast (dm_room_id x), scast (dm_sender_id x), dm_content x)"

definition db_log_of :: "'db db_view \<Rightarrow> 'db \<Rightarrow> stored_message multiset" where
  "db_log_of V d = image_mset row_logged (mset (t_messages (dv_tables V d)))"

lemma is_room_stored: "is_room r x \<longleftrightarrow> stored_as r = row_stored x"
  by (auto simp: is_room_def stored_as_def row_stored_def)

lemma is_message_logged: "is_message E m x \<Longrightarrow> logged_as m = row_logged x"
  by (simp add: is_message_def logged_as_def row_logged_def)

lemma fst_row_stored [simp]: "fst (row_stored x) = scast (dr_id x)"
  "fst (snd (row_stored x)) = dr_name x"
  by (simp_all add: row_stored_def)

lemma inserted_room_store:
  assumes "inserted V (Insert_room (r_name r) (r_creator_id r)) T T' i"
  shows "i \<notin> fst ` row_stored ` set (t_rooms T)"
    "\<forall>x \<in> row_stored ` set (t_rooms T). \<not> dv_same_text V (fst (snd x)) (r_name r)"
    "row_stored ` set (t_rooms T') =
       insert (stored_as (r\<lparr>r_id := i\<rparr>)) (row_stored ` set (t_rooms T))"
proof -
  from assms obtain k cr w where k: "i = scast k" "k \<notin> dr_id ` set (t_rooms T)"
    "\<forall>x \<in> set (t_rooms T). \<not> dv_same_text V (dr_name x) (r_name r)" "scast w = r_creator_id r"
    "T' = T\<lparr>t_rooms := t_rooms T @ [\<lparr>dr_id = k, dr_name = r_name r, dr_creator_id = w,
       dr_created_at = cr\<rparr>]\<rparr>"
    by (auto simp: inserted.simps)
  from k(2) show "i \<notin> fst ` row_stored ` set (t_rooms T)"
    by (auto simp: k(1) scast_int32_inject)
  from k(3) show "\<forall>x \<in> row_stored ` set (t_rooms T). \<not> dv_same_text V (fst (snd x)) (r_name r)"
    by auto
  show "row_stored ` set (t_rooms T') =
      insert (stored_as (r\<lparr>r_id := i\<rparr>)) (row_stored ` set (t_rooms T))"
    by (simp add: k(1,4,5) row_stored_def stored_as_def)
qed

lemma inserted_message_log:
  assumes "inserted V (Insert_message (m_room_id m) (m_sender_id m) (m_content m)) T T' i"
  shows "image_mset row_logged (mset (t_messages T')) =
    add_mset (logged_as m) (image_mset row_logged (mset (t_messages T)))"
  using assms by (auto simp: inserted.simps row_logged_def logged_as_def)

lemma added_db_ok:
  assumes ok: "db_ok E V (ds_db s)" and post: "add_post V st upd (dv_tables V (ds_db s)) out d"
  shows "db_ok E V d" "out \<noteq> Undef" "maybe_inserted V st (dv_tables V (ds_db s)) (dv_tables V d)"
    "\<And>y. out = Ret (Some y) \<Longrightarrow> \<exists>i tp. y = upd i tp \<and>
       inserted V st (dv_tables V (ds_db s)) (dv_tables V d) i"
proof -
  let ?T = "dv_tables V (ds_db s)"
  have eng: "engine_ok E V" "idle V (ds_db s)" "schema_ok V ?T" using ok by (simp_all add: db_ok_def)
  show maybe: "maybe_inserted V st ?T (dv_tables V d)" and "out \<noteq> Undef"
    and "\<And>y. out = Ret (Some y) \<Longrightarrow> \<exists>i tp. y = upd i tp \<and> inserted V st ?T (dv_tables V d) i"
    using post by (cases out; auto simp: add_post_def added_def maybe_inserted_def
        split: option.splits)+
  have "schema_ok V (dv_tables V d)"
    using maybe eng inserted_schema_ok engine_okD(4) [OF eng(1)] unfolding maybe_inserted_def by metis
  then show "db_ok E V d" using eng post by (simp add: db_ok_def add_post_def)
qed

interpretation mysql_rooms: room_store "MySQLRoomRepository E" "db_rooms_of V" "dv_same_text V"
    "db_ok E V" for E V
proof
  fix s t :: "('a, 'b) data_state_scheme" and n out
  assume ok: "db_ok E V (ds_db s)" and r: "findByRoomName (MySQLRoomRepository E) n s = (out, t)"
  then have run: "MySQL_findByRoomName E n s = (out, t)" by (simp add: MySQLRoomRepository_def)
  have eng: "engine_ok E V" "idle V (ds_db s)" using ok by (simp_all add: db_ok_def)
  from find_room_fact [OF eng run [unfolded MySQL_findByRoomName_def]]
  show "db_ok E V (ds_db t) \<and> db_rooms_of V (ds_db t) = db_rooms_of V (ds_db s) \<and>
    data_state.more t = data_state.more s \<and> out \<noteq> Undef \<and>
    (\<forall>r. out = Ret (Some r) \<longrightarrow> stored_as r \<in> db_rooms_of V (ds_db s) \<and> dv_same_text V (r_name r) n)"
    using ok data_onlyD [OF data_only_room_methods(1) run]
    by (auto simp: db_ok_def read_post_def db_rooms_of_def found_room_def is_room_stored)
      (metis is_room_def is_room_stored)
next
  fix s t :: "('a, 'b) data_state_scheme" and r out
  assume ok: "db_ok E V (ds_db s)" and a: "addRoom (MySQLRoomRepository E) r s = (out, t)"
  then have run: "MySQL_addRoom E r s = (out, t)" by (simp add: MySQLRoomRepository_def)
  have eng: "engine_ok E V" "idle V (ds_db s)" using ok by (simp_all add: db_ok_def)
  let ?st = "Insert_room (r_name r) (r_creator_id r)"
  note p = added_db_ok [OF ok addRoom_fact [OF eng run]]
  note i = inserted_room_store [of V r "dv_tables V (ds_db s)" "dv_tables V (ds_db t)"]
  have "stored_as r' = stored_as (r\<lparr>r_id := r_id r'\<rparr>) \<and> r_id r' \<notin> fst ` db_rooms_of V (ds_db s) \<and>
      (\<forall>x \<in> db_rooms_of V (ds_db s). \<not> dv_same_text V (fst (snd x)) (r_name r)) \<and>
      db_rooms_of V (ds_db t) = insert (stored_as r') (db_rooms_of V (ds_db s))"
    if "out = Ret (Some r')" for r'
  proof -
    from p(4) [OF that] obtain j tp where r': "r' = r\<lparr>r_id := j, r_created_at := tp\<rparr>"
      and ins: "inserted V ?st (dv_tables V (ds_db s)) (dv_tables V (ds_db t)) j" by blast
    have "stored_as (r\<lparr>r_id := j\<rparr>) = stored_as r'" by (simp add: r' stored_as_def)
    then show ?thesis
      using i [OF ins] unfolding db_rooms_of_def by (simp add: r' stored_as_def)
  qed
  moreover have "db_rooms_of V (ds_db t) = db_rooms_of V (ds_db s) \<or>
      (\<exists>j. j \<notin> fst ` db_rooms_of V (ds_db s) \<and>
        db_rooms_of V (ds_db t) = insert (stored_as (r\<lparr>r_id := j\<rparr>)) (db_rooms_of V (ds_db s)))"
    using p(3) i unfolding maybe_inserted_def db_rooms_of_def by metis
  ultimately show "db_ok E V (ds_db t) \<and> data_state.more t = data_state.more s \<and> out \<noteq> Undef \<and>
       (db_rooms_of V (ds_db t) = db_rooms_of V (ds_db s) \<or>
        (\<exists>i. i \<notin> fst ` db_rooms_of V (ds_db s) \<and>
           db_rooms_of V (ds_db t) = insert (stored_as (r\<lparr>r_id := i\<rparr>)) (db_rooms_of V (ds_db s)))) \<and>
       (\<forall>r'. out = Ret (Some r') \<longrightarrow>
          stored_as r' = stored_as (r\<lparr>r_id := r_id r'\<rparr>) \<and> r_id r' \<notin> fst ` db_rooms_of V (ds_db s) \<and>
          (\<forall>x \<in> db_rooms_of V (ds_db s). \<not> dv_same_text V (fst (snd x)) (r_name r)) \<and>
          db_rooms_of V (ds_db t) = insert (stored_as r') (db_rooms_of V (ds_db s)))"
    using p(1,2) data_onlyD [OF data_only_room_methods(2) run] by blast
next
  fix d assume "db_ok E V d"
  then show "equivp (dv_same_text V)" by (simp add: db_ok_def engine_ok_def)
qed

text \<open>The answer to the query for the latest messages, as a part of the log.\<close>

lemma latest_answer_log:
  assumes "message_answer V (Messages_latest i n) T (map message_row_of ms)"
  shows "length ms \<le> nat (sint n)"
    "image_mset row_logged (mset ms) \<subseteq>#
       filter_mset (\<lambda>x. fst x = i) (image_mset row_logged (mset (t_messages T)))"
proof -
  from assms obtain xs where
    xs: "mset xs = mset (filter (message_matches V (Messages_latest i n)) (t_messages T))"
    and rows: "map message_row_of ms = map message_row_of (take (nat (sint n)) xs)"
    by (auto simp: message_answer_def)
  have inj: "inj message_row_of" by (rule injI) (auto simp: message_row_of_def)
  have ms: "ms = take (nat (sint n)) xs" using rows by (simp add: inj_map_eq_map [OF inj])
  show "length ms \<le> nat (sint n)" by (simp add: ms)
  have "image_mset row_logged (mset ms) \<subseteq># image_mset row_logged (mset xs)"
    unfolding ms by (intro image_mset_subseteq_mono) (metis append_take_drop_id mset_append mset_subset_eq_add_left)
  also have "\<dots> = filter_mset (\<lambda>x. fst x = i) (image_mset row_logged (mset (t_messages T)))"
    by (simp add: xs filter_mset_image_mset row_logged_def mset_filter)
  finally show "image_mset row_logged (mset ms) \<subseteq># \<dots>" .
qed

interpretation mysql_messages: message_store "MySQLMessageRepository E" "db_log_of V" "db_ok E V"
  for E V
proof
  fix s t :: "('a, 'b) data_state_scheme" and m out
  assume ok: "db_ok E V (ds_db s)" and a: "addMessage (MySQLMessageRepository E) m s = (out, t)"
  then have run: "MySQL_addMessage E m s = (out, t)" by (simp add: MySQLMessageRepository_def)
  have eng: "engine_ok E V" "idle V (ds_db s)" using ok by (simp_all add: db_ok_def)
  note p = added_db_ok [OF ok addMessage_fact [OF eng run]]
  note i = inserted_message_log [of V m "dv_tables V (ds_db s)" "dv_tables V (ds_db t)"]
  have "db_log_of V (ds_db t) = add_mset (logged_as m) (db_log_of V (ds_db s))"
    if "out = Ret (Some m')" for m'
    using p(4) [OF that] i by (auto simp: db_log_of_def)
  moreover have "db_log_of V (ds_db t) \<in>
      {db_log_of V (ds_db s), add_mset (logged_as m) (db_log_of V (ds_db s))}"
    using p(3) i by (auto simp: maybe_inserted_def db_log_of_def)
  ultimately show "db_ok E V (ds_db t) \<and> data_state.more t = data_state.more s \<and> out \<noteq> Undef \<and>
      db_log_of V (ds_db t) \<in>
        {db_log_of V (ds_db s), add_mset (logged_as m) (db_log_of V (ds_db s))} \<and>
      (\<forall>m'. out = Ret (Some m') \<longrightarrow>
        db_log_of V (ds_db t) = add_mset (logged_as m) (db_log_of V (ds_db s)))"
    using p(1,2) data_onlyD [OF data_only_message_methods(1) run] by blast
next
  fix s t :: "('a, 'b) data_state_scheme" and i n res
  assume ok: "db_ok E V (ds_db s)"
    and r: "findLatestByRoomId (MySQLMessageRepository E) i n s = (res, t)"
  then have run: "MySQL_findLatestByRoomId E i n s = (res, t)"
    by (simp add: MySQLMessageRepository_def)
  have eng: "engine_ok E V" "idle V (ds_db s)" using ok by (simp_all add: db_ok_def)
  let ?T = "dv_tables V (ds_db s)"
  have post: "read_post V (found_messages E V (Messages_latest i n) ?T) ?T res (ds_db t)"
    by (rule list_messages_fact [OF eng run [unfolded MySQL_findLatestByRoomId_def]])
  have "length ms \<le> nat (sint n) \<and>
      mset (map logged_as ms) \<subseteq># filter_mset (\<lambda>x. fst x = i) (db_log_of V (ds_db s))"
    if "res = Ret ms" for ms
  proof -
    from post that have f: "found_messages E V (Messages_latest i n) ?T ms" by (simp add: read_post_def)
    show ?thesis
    proof (cases "ms = []")
      case False
      with f obtain xs where xs: "message_answer V (Messages_latest i n) ?T (map message_row_of xs)"
        "list_all2 (is_message E) ms xs" by (auto simp: found_messages_def)
      from xs(2) have "map logged_as ms = map row_logged xs"
        by (induction rule: list_all2_induct) (simp_all add: is_message_logged)
      with latest_answer_log [OF xs(1)] list_all2_lengthD [OF xs(2)] show ?thesis
        by (simp only: db_log_of_def mset_map)
    qed simp
  qed
  with post show "db_ok E V (ds_db t) \<and> db_log_of V (ds_db t) = db_log_of V (ds_db s) \<and>
      data_state.more t = data_state.more s \<and> res \<noteq> Undef \<and>
      (\<forall>ms. res = Ret ms \<longrightarrow> length ms \<le> nat (sint n) \<and>
         mset (map logged_as ms) \<subseteq># filter_mset (\<lambda>x. fst x = i) (db_log_of V (ds_db s)))"
    using ok data_onlyD [OF data_only_message_methods(2) run]
    by (auto simp: db_ok_def read_post_def db_log_of_def)
qed

end
