(* ===== verification/Room_Membership.thy ===== *)
theory Room_Membership
  imports Room_Service
begin

text \<open>
  The two tables of \<open>RoomService\<close> as a membership relation. \<open>seat s r u\<close> is the session through
  which user \<open>u\<close> sits in room \<open>r\<close>. The changes of the tables are described by their effect on the
  seats, whatever order the containers have and whether a room's entry exists; \<open>rooms_ok\<close> is the
  representation invariant, \<open>exact\<close> says that the two tables agree, and \<open>place\<close> is then the one
  map they both stand for: the room and the session of a user.
\<close>

section \<open>Seats\<close>

definition seat_in :: "(string \<Rightarrow> active_room option) \<Rightarrow> string \<Rightarrow> long_long \<Rightarrow> sid option" where
  "seat_in rooms r u = (case rooms r of None \<Rightarrow> None | Some ar \<Rightarrow> map_of (ar_members ar) u)"

abbreviation seat :: "('db, 'z) service_state_scheme \<Rightarrow> string \<Rightarrow> long_long \<Rightarrow> sid option" where
  "seat s \<equiv> seat_in (rs_activeRooms s)"

definition rooms_wf :: "(string \<Rightarrow> active_room option) \<Rightarrow> bool" where
  "rooms_wf rooms \<longleftrightarrow>
     (\<forall>r ar. rooms r = Some ar \<longrightarrow> distinct (map fst (ar_members ar)) \<and> ar_members ar \<noteq> [])"

lemma rooms_wfD:
  "rooms_wf rooms \<Longrightarrow> rooms r = Some ar \<Longrightarrow> distinct (map fst (ar_members ar)) \<and> ar_members ar \<noteq> []"
  by (simp add: rooms_wf_def)

lemma seat_drop [simp]:
  "seat_in (drop_member uid name rooms) r u =
     (if r = name \<and> u = uid then None else seat_in rooms r u)"
proof (cases "rooms name")
  case (Some ar)
  show ?thesis
  proof (cases "AList.delete uid (ar_members ar) = []")
    case True
    then have "(map_of (ar_members ar))(uid := None) = Map.empty"
      by (metis map_of.simps(1) map_of_AList_delete)
    then have "map_of (ar_members ar) u = None" if "u \<noteq> uid" for u
      using that by (metis fun_upd_other)
    with True Some show ?thesis by (auto simp: drop_member_def seat_in_def)
  qed (use Some in \<open>auto simp: drop_member_def seat_in_def\<close>)
qed (auto simp: drop_member_def seat_in_def)

lemma wf_drop: "rooms_wf rooms \<Longrightarrow> rooms_wf (drop_member uid name rooms)"
  by (auto simp: rooms_wf_def drop_member_def Let_def split: option.splits if_splits)

lemma drop_room:
  "drop_member uid name rooms r = Some ar' \<Longrightarrow>
   \<exists>ar. rooms r = Some ar \<and> ar_id ar' = ar_id ar \<and> ar_name ar' = ar_name ar \<and>
     ar_creator_id ar' = ar_creator_id ar"
  by (auto simp: drop_member_def Let_def split: option.splits if_splits)

lemma seat_leave_current:
  "seat (leave_current uid s) r u =
     (if u = uid \<and> rs_userToRoom s uid = Some r then None else seat s r u)"
  "rs_userToRoom (leave_current uid s) = (rs_userToRoom s)(uid := None)"
  by (auto simp: leave_current_def fun_eq_iff split: option.splits)

lemma seat_enter_room:
  "seat (enter_room uid i name room s) r u = (if r = name \<and> u = uid then Some i else seat s r u)"
  "rs_userToRoom (enter_room uid i name room s) = (rs_userToRoom s)(uid \<mapsto> name)"
  by (auto simp: enter_room_def seat_in_def Let_def no_active_room_def split: option.splits)

lemma seat_open_room:
  "seat (open_room uid i name room s) r u = (if r = name \<and> u = uid then Some i else seat s r u)"
  "rs_userToRoom (open_room uid i name room s) = (rs_userToRoom s)(uid \<mapsto> name)"
  by (auto simp: open_room_def seat_in_def Let_def no_active_room_def split: option.splits)

lemma seat_leave_room:
  "seat (leave_room uid name s) r u =
     (if u = uid \<and> r = name \<and> rs_userToRoom s uid = Some name then None else seat s r u)"
  "rs_userToRoom (leave_room uid name s) =
     (if rs_userToRoom s uid = Some name then (rs_userToRoom s)(uid := None) else rs_userToRoom s)"
  by (auto simp: leave_room_def)

lemma seat_close_membership:
  "seat (close_membership uid name s) r u = (if u = uid \<and> r = name then None else seat s r u)"
  "rs_userToRoom (close_membership uid name s) = (rs_userToRoom s)(uid := None)"
  by (auto simp: close_membership_def)

lemmas seat_changes =
  seat_leave_current seat_enter_room seat_open_room seat_leave_room seat_close_membership

text \<open>The changes touch nothing but the two tables.\<close>

lemma table_change_frame [simp]:
  "ds_db (leave_current uid s) = ds_db s" "ds_db (enter_room uid i name room s) = ds_db s"
  "ds_db (open_room uid i name room s) = ds_db s" "ds_db (leave_room uid name s) = ds_db s"
  "ds_db (close_membership uid name s) = ds_db s"
  "ss_session (leave_current uid s) = ss_session s"
  "ss_session (enter_room uid i name room s) = ss_session s"
  "ss_session (open_room uid i name room s) = ss_session s"
  "ss_session (leave_room uid name s) = ss_session s"
  "ss_session (close_membership uid name s) = ss_session s"
  "ss_outbox (leave_current uid s) = ss_outbox s"
  "ss_outbox (enter_room uid i name room s) = ss_outbox s"
  "ss_outbox (open_room uid i name room s) = ss_outbox s"
  "ss_outbox (leave_room uid name s) = ss_outbox s"
  "ss_outbox (close_membership uid name s) = ss_outbox s"
  by (simp_all add: leave_current_def enter_room_def open_room_def leave_room_def
      close_membership_def Let_def split: option.splits)

lemma table_change_registry [simp]:
  "ss_byUserId (leave_current uid s) = ss_byUserId s"
  "ss_byUserId (enter_room uid i name room s) = ss_byUserId s"
  "ss_byUserId (open_room uid i name room s) = ss_byUserId s"
  "ss_byUserId (leave_room uid name s) = ss_byUserId s"
  "ss_byUserId (close_membership uid name s) = ss_byUserId s"
  "ss_byUsername (leave_current uid s) = ss_byUsername s"
  "ss_byUsername (enter_room uid i name room s) = ss_byUsername s"
  "ss_byUsername (open_room uid i name room s) = ss_byUsername s"
  "ss_byUsername (leave_room uid name s) = ss_byUsername s"
  "ss_byUsername (close_membership uid name s) = ss_byUsername s"
  by (simp_all add: leave_current_def enter_room_def open_room_def leave_room_def
      close_membership_def Let_def split: option.splits)

section \<open>Invariants\<close>

definition rooms_ok :: "('db, 'z) service_state_scheme \<Rightarrow> bool" where
  "rooms_ok s \<longleftrightarrow>
     rooms_wf (rs_activeRooms s) \<and>
     (\<forall>r u j. seat s r u = Some j \<longrightarrow> isAuthenticated (ss_session s j)) \<and>
     (\<forall>u r. rs_userToRoom s u = Some r \<longrightarrow> seat s r u \<noteq> None)"

text \<open>Every active room is a stored room, under a name the store takes for the same.\<close>

definition rooms_known ::
    "(string \<Rightarrow> string \<Rightarrow> bool) \<Rightarrow> (long_long \<times> string \<times> long_long) set \<Rightarrow>
     (string \<Rightarrow> active_room option) \<Rightarrow> bool" where
  "rooms_known same K rooms \<longleftrightarrow>
     (\<forall>r ar. rooms r = Some ar \<longrightarrow>
        (ar_id ar, ar_name ar, ar_creator_id ar) \<in> K \<and> same (ar_name ar) r)"

definition exact :: "('db, 'z) service_state_scheme \<Rightarrow> bool" where
  "exact s \<longleftrightarrow> (\<forall>r u. seat s r u \<noteq> None \<longrightarrow> rs_userToRoom s u = Some r)"

definition place :: "('db, 'z) service_state_scheme \<Rightarrow> long_long \<Rightarrow> (string \<times> sid) option" where
  "place s u =
     (case rs_userToRoom s u of
        None \<Rightarrow> None
      | Some r \<Rightarrow> map_option (\<lambda>j. (r, j)) (seat s r u))"

lemma rooms_known_mono: "rooms_known same K rooms \<Longrightarrow> K \<subseteq> K' \<Longrightarrow> rooms_known same K' rooms"
  by (auto simp: rooms_known_def)

lemma known_drop: "rooms_known same K rooms \<Longrightarrow> rooms_known same K (drop_member uid name rooms)"
  by (auto simp: rooms_known_def dest!: drop_room)

lemma wf_changes:
  assumes "rooms_wf (rs_activeRooms s)"
  shows "rooms_wf (rs_activeRooms (leave_current uid s))"
    "rooms_wf (rs_activeRooms (enter_room uid i name room s))"
    "rooms_wf (rs_activeRooms (open_room uid i name room s))"
    "rooms_wf (rs_activeRooms (leave_room uid name s))"
    "rooms_wf (rs_activeRooms (close_membership uid name s))"
  using assms
  by (auto simp: leave_current_def leave_room_def close_membership_def wf_drop split: option.splits)
    (auto simp: rooms_wf_def enter_room_def open_room_def no_active_room_def Let_def
      split: option.splits if_splits intro!: distinct_keys_update)

lemma known_changes:
  assumes "rooms_known same K (rs_activeRooms s)"
  shows "rooms_known same K (rs_activeRooms (leave_current uid s))"
    "(r_id room, r_name room, r_creator_id room) \<in> K \<Longrightarrow> same (r_name room) name \<Longrightarrow>
       rooms_known same K (rs_activeRooms (enter_room uid i name room s))"
    "(r_id room, r_name room, uid) \<in> K \<Longrightarrow> same (r_name room) name \<Longrightarrow>
       rooms_known same K (rs_activeRooms (open_room uid i name room s))"
    "rooms_known same K (rs_activeRooms (leave_room uid name s))"
    "rooms_known same K (rs_activeRooms (close_membership uid name s))"
  using assms
  by (auto simp: leave_current_def leave_room_def close_membership_def known_drop split: option.splits)
    (auto simp: rooms_known_def enter_room_def open_room_def no_active_room_def Let_def
      split: option.splits if_splits)

lemma rooms_ok_changes:
  assumes "rooms_ok s"
  shows "rooms_ok (leave_current uid s)" "rooms_ok (leave_room uid name s)"
    "isAuthenticated (ss_session s i) \<Longrightarrow> rooms_ok (enter_room uid i name room s)"
    "isAuthenticated (ss_session s i) \<Longrightarrow> rooms_ok (open_room uid i name room s)"
    "rs_userToRoom s uid = Some name \<Longrightarrow> rooms_ok (close_membership uid name s)"
  using assms by (auto simp: rooms_ok_def wf_changes seat_changes split: if_splits)

lemma exact_changes:
  assumes "exact s"
  shows "exact (leave_current uid s)" "exact (leave_room uid name s)"
    "rs_userToRoom s uid = None \<Longrightarrow> exact (enter_room uid i name room s)"
    "rs_userToRoom s uid = None \<Longrightarrow> exact (open_room uid i name room s)"
    "rs_userToRoom s uid = Some name \<Longrightarrow> exact (close_membership uid name s)"
  using assms by (fastforce simp: exact_def seat_changes split: if_splits)+

lemma place_changes:
  "place (enter_room uid i name room (leave_current uid s)) = (place s)(uid \<mapsto> (name, i))"
  "place (leave_room uid name s) =
     (if rs_userToRoom s uid = Some name then (place s)(uid := None) else place s)"
  "rs_userToRoom s uid = None \<Longrightarrow>
     place (open_room uid i name room s) = (place s)(uid \<mapsto> (name, i))"
  "place (close_membership uid name s) = (place s)(uid := None)"
  by (auto simp: place_def seat_changes fun_eq_iff split: option.splits)

text \<open>With exact tables the members of a room are the users whose place it is.\<close>

lemma seat_place:
  assumes "exact s"
  shows "seat s r u = Some j \<longleftrightarrow> place s u = Some (r, j)"
proof
  assume j: "seat s r u = Some j"
  then have "rs_userToRoom s u = Some r" using assms by (simp add: exact_def)
  with j show "place s u = Some (r, j)" by (simp add: place_def)
qed (auto simp: place_def split: option.splits)

lemma place_room: "rooms_ok s \<Longrightarrow> map_option fst (place s u) = rs_userToRoom s u"
  by (auto simp: place_def rooms_ok_def split: option.splits)

section \<open>Broadcasts\<close>

lemma count_recipients:
  assumes "distinct (map fst ms)"
  shows "count_list (map snd (filter (\<lambda>m. fst m \<noteq> x) ms)) j =
    card {u. u \<noteq> x \<and> map_of ms u = Some j}"
  using assms
proof (induction ms)
  case (Cons m ms)
  obtain k v where m: "m = (k, v)" by (cases m)
  with Cons.prems have k: "map_of ms k = None" by (auto simp: map_of_eq_None_iff)
  have fin: "finite {u. u \<noteq> x \<and> map_of ms u = Some j}"
    by (rule finite_subset [OF _ finite_dom_map_of [of ms]]) auto
  show ?case
  proof (cases "k \<noteq> x \<and> v = j")
    case True
    then have "{u. u \<noteq> x \<and> map_of (m # ms) u = Some j} =
        insert k {u. u \<noteq> x \<and> map_of ms u = Some j}" by (auto simp: m k)
    moreover have "k \<notin> {u. u \<noteq> x \<and> map_of ms u = Some j}" using k by simp
    ultimately have "card {u. u \<noteq> x \<and> map_of (m # ms) u = Some j} =
        Suc (card {u. u \<noteq> x \<and> map_of ms u = Some j})" using fin by simp
    moreover have "count_list (map snd (filter (\<lambda>m. fst m \<noteq> x) (m # ms))) j =
        Suc (count_list (map snd (filter (\<lambda>m. fst m \<noteq> x) ms)) j)" using True by (simp add: m)
    ultimately show ?thesis using Cons by simp
  next
    case False
    then have "{u. u \<noteq> x \<and> map_of (m # ms) u = Some j} = {u. u \<noteq> x \<and> map_of ms u = Some j}"
      by (auto simp: m k)
    with False Cons show ?thesis by (auto simp: m)
  qed
qed simp

text \<open>How many members of a room, the excluded one apart, are reached through session \<open>j\<close>.\<close>

definition reached :: "('db, 'z) service_state_scheme \<Rightarrow> string \<Rightarrow> long_long \<Rightarrow> sid \<Rightarrow> nat" where
  "reached s r x j = card {u. u \<noteq> x \<and> seat s r u = Some j}"

lemma broadcast_run:
  assumes "rooms_wf (rs_activeRooms s)"
  shows "broadcastToRoom r e x s =
    (Ret (), s\<lparr>ss_outbox := (\<lambda>j. ss_outbox s j @ replicate (reached s r x j) e)\<rparr>)"
proof (cases "rs_activeRooms s r")
  case None
  then show ?thesis by (simp add: broadcastToRoom_def reached_def seat_in_def)
next
  case (Some ar)
  with rooms_wfD [OF assms Some] show ?thesis
    by (simp add: broadcastToRoom_def send_each_run count_recipients reached_def seat_in_def)
qed

end
