(* ===== verification/Reference_Engine.thy ===== *)
theory Reference_Engine
  imports User_Store
begin

text \<open>
  A small database engine that obeys \<open>engine_ok\<close>: committed tables, and the tables of the one open
  transaction. It shows that the hypotheses on the database can be met, and the witnesses of the
  properties run the model on it. Rows get increasing ids and increasing creation times; a
  statement that breaks a constraint of the schema fails and changes nothing. \<open>stuck_env\<close> is the
  same engine with a connection that fails every update.
\<close>

record ref_db =
  rb_tables :: tables
  rb_txn :: "(conn \<times> tables) option"
  rb_last :: long_long
  rb_time :: int

definition rb_inside :: "conn \<Rightarrow> ref_db \<Rightarrow> tables" where
  "rb_inside c d = (case rb_txn d of Some (c', t) \<Rightarrow> if c' = c then t else rb_tables d | None \<Rightarrow> rb_tables d)"

definition ref_view :: "ref_db db_view" where
  "ref_view =
     \<lparr>dv_tables = rb_tables,
      dv_inside = rb_inside,
      dv_open = (\<lambda>d. map_option fst (rb_txn d)),
      dv_last_id = rb_last,
      dv_same_text = (=),
      dv_same_number = (\<lambda>n i. n = to_string i),
      dv_like = (=)\<rparr>"

definition ref_error :: exn where
  "ref_error = Soci_error System_error"

definition ref_begin :: "conn \<Rightarrow> ref_db \<Rightarrow> (exn + unit) \<times> ref_db" where
  "ref_begin c d =
     (if rb_txn d = None then (Inr (), d\<lparr>rb_txn := Some (c, rb_tables d)\<rparr>) else (Inl ref_error, d))"

definition ref_commit :: "conn \<Rightarrow> ref_db \<Rightarrow> (exn + unit) \<times> ref_db" where
  "ref_commit c d = (Inr (), d\<lparr>rb_tables := rb_inside c d, rb_txn := None\<rparr>)"

definition ref_rollback :: "conn \<Rightarrow> ref_db \<Rightarrow> ref_db" where
  "ref_rollback c d = d\<lparr>rb_txn := None\<rparr>"

definition ref_users :: "conn \<Rightarrow> user_query \<Rightarrow> ref_db \<Rightarrow> (exn + user_row list) \<times> ref_db" where
  "ref_users c q d =
     (Inr (map user_row_of (filter (user_matches ref_view q) (t_users (rb_inside c d)))), d)"

definition ref_rooms :: "conn \<Rightarrow> room_query \<Rightarrow> ref_db \<Rightarrow> (exn + room_row list) \<times> ref_db" where
  "ref_rooms c q d =
     (Inr (map room_row_of (filter (room_matches ref_view q) (t_rooms (rb_inside c d)))), d)"

definition ref_messages :: "conn \<Rightarrow> message_query \<Rightarrow> ref_db \<Rightarrow> (exn + message_row list) \<times> ref_db" where
  "ref_messages c q d =
     (let ms = sort_key (\<lambda>m. tm_key (dm_created_at m))
          (filter (message_matches ref_view q) (t_messages (rb_inside c d)))
      in (Inr (map message_row_of
           (case q of Messages_latest i n \<Rightarrow> take (nat (sint n)) (rev ms) | _ \<Rightarrow> ms)), d))"

definition ref_last_id :: "conn \<Rightarrow> table \<Rightarrow> ref_db \<Rightarrow> (exn + long_long option) \<times> ref_db" where
  "ref_last_id c T d = (Inr (Some (rb_last d)), d)"

definition ref_created :: "conn \<Rightarrow> table \<Rightarrow> long_long \<Rightarrow> ref_db \<Rightarrow> (exn + tm option option) \<times> ref_db" where
  "ref_created c T i d = (Inr (created_in T i (rb_inside c d)), d)"

text \<open>A fresh positive id below a bound.\<close>

definition next_id :: "int list \<Rightarrow> int" where
  "next_id ids = fold max ids 0 + 1"

lemma fold_max_ge: "x \<le> fold max (ids :: int list) x"
  by (induction ids arbitrary: x) (auto intro: order_trans [OF max.cobounded2])

lemma fold_max_member: "i \<in> set ids \<Longrightarrow> i \<le> fold max (ids :: int list) x"
  by (induction ids arbitrary: x) (auto intro: order_trans [OF max.cobounded1 fold_max_ge])

lemma next_id_fresh: "next_id ids \<notin> set ids" "0 < next_id ids"
  using fold_max_member [of _ ids 0] fold_max_ge [of 0 ids] by (force simp: next_id_def)+

definition ref_tm :: "int \<Rightarrow> tm" where
  "ref_tm n = \<lparr>tm_sec = n, tm_min = 0, tm_hour = 0, tm_mday = 1, tm_mon = 0, tm_year = 100\<rparr>"

definition ref_store ::
    "conn \<Rightarrow> (tables \<Rightarrow> tables) \<Rightarrow> long_long \<Rightarrow> ref_db \<Rightarrow> (exn + unit) \<times> ref_db" where
  "ref_store c f i d =
     (Inr (), d\<lparr>rb_txn := Some (c, f (rb_inside c d)), rb_last := i, rb_time := rb_time d + 1\<rparr>)"

fun ref_insert :: "conn \<Rightarrow> sql_insert \<Rightarrow> ref_db \<Rightarrow> (exn + unit) \<times> ref_db" where
  "ref_insert c (Insert_user n h s) d =
     (let us = t_users (rb_inside c d); i = next_id (map (\<lambda>u. sint (du_id u)) us);
          k = word_of_int i
      in if i < 2 ^ 31 \<and> n \<notin> du_username ` set us then
           ref_store c (\<lambda>t. t\<lparr>t_users := us @ [\<lparr>du_id = k, du_username = n, du_hashed_password = h,
             du_salt = s, du_created_at = Some (ref_tm (rb_time d))\<rparr>]\<rparr>) (scast k) d
         else (Inl ref_error, d))"
| "ref_insert c (Insert_room n creator) d =
     (let rs = t_rooms (rb_inside c d); i = next_id (map (\<lambda>r. sint (dr_id r)) rs);
          k = word_of_int i
      in case find (\<lambda>u. scast (du_id u) = creator) (t_users (rb_inside c d)) of
           Some u \<Rightarrow>
             if i < 2 ^ 31 \<and> n \<notin> dr_name ` set rs then
               ref_store c (\<lambda>t. t\<lparr>t_rooms := rs @ [\<lparr>dr_id = k, dr_name = n, dr_creator_id = du_id u,
                 dr_created_at = Some (ref_tm (rb_time d))\<rparr>]\<rparr>) (scast k) d
             else (Inl ref_error, d)
         | None \<Rightarrow> (Inl ref_error, d))"
| "ref_insert c (Insert_message room sender content) d =
     (let ms = t_messages (rb_inside c d); i = next_id (map (\<lambda>m. sint (dm_id m)) ms);
          k = word_of_int i
      in case (find (\<lambda>r. scast (dr_id r) = room) (t_rooms (rb_inside c d)),
               find (\<lambda>u. scast (du_id u) = sender) (t_users (rb_inside c d))) of
           (Some r, Some u) \<Rightarrow>
             if i < 2 ^ 63 then
               ref_store c (\<lambda>t. t\<lparr>t_messages := ms @ [\<lparr>dm_id = k, dm_room_id = dr_id r,
                 dm_sender_id = du_id u, dm_content = content,
                 dm_created_at = Some (ref_tm (rb_time d))\<rparr>]\<rparr>) k d
             else (Inl ref_error, d)
         | _ \<Rightarrow> (Inl ref_error, d))"

definition ref_change_to ::
    "conn \<Rightarrow> tables \<Rightarrow> ref_db \<Rightarrow> (exn + nat) \<times> ref_db" where
  "ref_change_to c t' d =
     (Inr (if t' = rb_inside c d then 0 else 1), d\<lparr>rb_txn := Some (c, t')\<rparr>)"

fun ref_change :: "conn \<Rightarrow> sql_change \<Rightarrow> ref_db \<Rightarrow> (exn + nat) \<times> ref_db" where
  "ref_change c (Update_user n h s i) d =
     (let t = rb_inside c d
      in if \<exists>u \<in> set (t_users t). scast (du_id u) = i \<and>
            (\<exists>u' \<in> set (t_users t). scast (du_id u') \<noteq> i \<and> du_username u' = n)
         then (Inl ref_error, d)
         else ref_change_to c (t\<lparr>t_users := update_users n h s i (t_users t)\<rparr>) d)"
| "ref_change c (Update_room n i) d =
     (let t = rb_inside c d
      in if \<exists>r \<in> set (t_rooms t). scast (dr_id r) = i \<and>
            (\<exists>r' \<in> set (t_rooms t). scast (dr_id r') \<noteq> i \<and> dr_name r' = n)
         then (Inl ref_error, d)
         else ref_change_to c (t\<lparr>t_rooms := update_rooms n i (t_rooms t)\<rparr>) d)"
| "ref_change c (Delete_row T_users i) d =
     (let t = rb_inside c d
      in ref_change_to c (t\<lparr>t_users := filter (\<lambda>u. scast (du_id u) \<noteq> i) (t_users t)\<rparr>) d)"
| "ref_change c (Delete_row T_rooms i) d =
     (let t = rb_inside c d
      in ref_change_to c (t\<lparr>t_rooms := filter (\<lambda>r. scast (dr_id r) \<noteq> i) (t_rooms t)\<rparr>) d)"
| "ref_change c (Delete_row T_messages i) d =
     (let t = rb_inside c d
      in ref_change_to c (t\<lparr>t_messages := filter (\<lambda>m. dm_id m \<noteq> i) (t_messages t)\<rparr>) d)"

text \<open>
  A stand-in for a digest: 32 bytes, the text padded or cut. It need not be hard to invert here.
\<close>

definition ref_sha256 :: "string \<Rightarrow> byte list" where
  "ref_sha256 s = take 32 (map of_char s @ replicate 32 0)"

definition ref_env :: "ref_db env" where
  "ref_env =
     \<lparr>db_begin = ref_begin, db_commit = ref_commit, db_rollback = ref_rollback,
      db_users = ref_users, db_rooms = ref_rooms, db_messages = ref_messages,
      db_insert = ref_insert, db_last_id = ref_last_id, db_created = ref_created,
      db_change = ref_change,
      e_connect = (\<lambda>_ n. Inr n), e_mktime = tm_sec, e_tps = 10 ^ 7, e_now = (\<lambda>n. int n),
      e_proto_now = (\<lambda>n. \<lparr>ts_seconds = word_of_nat n, ts_nanos = 0\<rparr>),
      e_rand = (\<lambda>n len. Some (replicate len (word_of_nat n))), e_sha256 = ref_sha256, e_junk = 0\<rparr>"

section \<open>The engine obeys the laws\<close>

lemma ref_env_simps [simp]:
  "db_begin ref_env = ref_begin" "db_commit ref_env = ref_commit"
  "db_rollback ref_env = ref_rollback" "db_users ref_env = ref_users" "db_rooms ref_env = ref_rooms"
  "db_messages ref_env = ref_messages" "db_insert ref_env = ref_insert"
  "db_last_id ref_env = ref_last_id" "db_created ref_env = ref_created"
  "db_change ref_env = ref_change" "e_sha256 ref_env = ref_sha256" "e_tps ref_env = 10 ^ 7"
  "e_mktime ref_env = tm_sec" "e_junk ref_env = 0"
  by (simp_all add: ref_env_def)

lemma ref_view_simps [simp]:
  "dv_tables ref_view = rb_tables" "dv_inside ref_view = rb_inside"
  "dv_open ref_view d = map_option fst (rb_txn d)" "dv_last_id ref_view = rb_last"
  "dv_same_text ref_view = (=)"
  by (simp_all add: ref_view_def)

lemma ref_seen: "dv_seen ref_view c d = rb_inside c d"
  by (auto simp: dv_seen_def rb_inside_def split: option.splits)

lemma ref_transaction_laws: "transaction_laws ref_env ref_view"
  by (auto simp: transaction_laws_def ref_begin_def ref_commit_def ref_rollback_def rb_inside_def)

lemma ref_query_laws: "query_laws ref_env ref_view"
  unfolding query_laws_def
proof (intro conjI allI impI)
  fix c q d r d' assume "db_messages ref_env c q d = (r, d')"
  then have r: "r = Inr (map message_row_of
        (let ms = sort_key (\<lambda>m. tm_key (dm_created_at m))
          (filter (message_matches ref_view q) (t_messages (rb_inside c d)))
         in case q of Messages_latest i n \<Rightarrow> take (nat (sint n)) (rev ms) | _ \<Rightarrow> ms))" "d' = d"
    by (auto simp: ref_messages_def Let_def)
  show "same_world ref_view c d d'" by (simp add: r(2))
  fix rows assume rows: "r = Inr rows"
  let ?ms = "sort_key (\<lambda>m. tm_key (dm_created_at m))
    (filter (message_matches ref_view q) (t_messages (rb_inside c d)))"
  show "message_answer ref_view q (dv_seen ref_view c d) rows"
  proof (cases q)
    case (Messages_latest i n)
    then show ?thesis
      using rows unfolding message_answer_def ref_seen
      by (intro exI [of _ "rev ?ms"]) (simp add: r(1) rev_map sorted_sort_key)
  qed (use rows in \<open>unfold message_answer_def ref_seen; intro exI [of _ ?ms];
      simp add: r(1) sorted_sort_key\<close>)+
qed (auto simp: ref_users_def ref_rooms_def ref_last_id_def ref_created_def user_answer_def
    room_answer_def ref_seen)

lemma sint_new_int32: "0 < i \<Longrightarrow> i < 2 ^ 31 \<Longrightarrow> sint (word_of_int i :: int32) = i"
  by (simp add: sint_int32)

lemma fresh_int32:
  assumes "next_id (map (\<lambda>x. sint (f x)) xs) < 2 ^ 31"
  shows "(word_of_int (next_id (map (\<lambda>x. sint (f x)) xs)) :: int32) \<notin> f ` set xs"
    "0 < sint (word_of_int (next_id (map (\<lambda>x. sint (f x)) xs)) :: int32)"
proof -
  let ?i = "next_id (map (\<lambda>x. sint (f x)) xs)"
  have s: "sint (word_of_int ?i :: int32) = ?i" using sint_new_int32 next_id_fresh(2) assms by blast
  show "(word_of_int ?i :: int32) \<notin> f ` set xs"
    using next_id_fresh(1) [of "map (\<lambda>x. sint (f x)) xs"] s by force
  show "0 < sint (word_of_int ?i :: int32)" using s next_id_fresh(2) by metis
qed

lemma fresh_long_long:
  assumes "next_id (map (\<lambda>x. sint (f x)) xs) < 2 ^ 63"
  shows "(word_of_int (next_id (map (\<lambda>x. sint (f x)) xs)) :: long_long) \<notin> f ` set xs"
    "0 < sint (word_of_int (next_id (map (\<lambda>x. sint (f x)) xs)) :: long_long)"
proof -
  let ?i = "next_id (map (\<lambda>x. sint (f x)) xs)"
  have "0 < ?i" by (rule next_id_fresh(2))
  then have s: "sint (word_of_int ?i :: long_long) = ?i" using assms by (simp add: sint_long_long)
  show "(word_of_int ?i :: long_long) \<notin> f ` set xs"
    using next_id_fresh(1) [of "map (\<lambda>x. sint (f x)) xs"] s by force
  show "0 < sint (word_of_int ?i :: long_long)" using s next_id_fresh(2) by metis
qed

lemma ref_store_law:
  assumes "ref_store c f i d = (r, d')" "map_option fst (rb_txn d) = Some c"
  shows "rb_tables d' = rb_tables d \<and> map_option fst (rb_txn d') = Some c \<and>
    rb_inside c d' = f (rb_inside c d) \<and> rb_last d' = i"
  using assms by (auto simp: ref_store_def rb_inside_def)

lemma ref_insert_law:
  assumes o: "map_option fst (rb_txn d) = Some c" and run: "ref_insert c st d = (r, d')"
  shows "rb_tables d' = rb_tables d \<and> map_option fst (rb_txn d') = Some c \<and>
    (r = Inr () \<longrightarrow> inserted ref_view st (rb_inside c d) (rb_inside c d') (rb_last d'))"
proof (cases st)
  case (Insert_user n h s)
  let ?us = "t_users (rb_inside c d)"
  let ?i = "next_id (map (\<lambda>u. sint (du_id u)) ?us)"
  show ?thesis
  proof (cases "?i < 2 ^ 31 \<and> n \<notin> du_username ` set ?us")
    case True
    with run Insert_user have "ref_store c (\<lambda>t. t\<lparr>t_users := ?us @ [\<lparr>du_id = word_of_int ?i,
        du_username = n, du_hashed_password = h, du_salt = s,
        du_created_at = Some (ref_tm (rb_time d))\<rparr>]\<rparr>) (scast (word_of_int ?i :: int32)) d = (r, d')"
      by (simp add: Let_def)
    from ref_store_law [OF this o] fresh_int32 [of du_id ?us] True show ?thesis
      by (auto simp: Insert_user inserted.simps)
  qed (use run o Insert_user in \<open>auto simp: Let_def\<close>)
next
  case (Insert_room n creator)
  let ?rs = "t_rooms (rb_inside c d)"
  let ?i = "next_id (map (\<lambda>r. sint (dr_id r)) ?rs)"
  show ?thesis
  proof (cases "find (\<lambda>u. scast (du_id u) = creator) (t_users (rb_inside c d))")
    case (Some u)
    then have u: "u \<in> set (t_users (rb_inside c d))" "scast (du_id u) = creator"
      by (auto simp: find_Some_iff)
    show ?thesis
    proof (cases "?i < 2 ^ 31 \<and> n \<notin> dr_name ` set ?rs")
      case True
      with run Insert_room Some have "ref_store c (\<lambda>t. t\<lparr>t_rooms := ?rs @ [\<lparr>dr_id = word_of_int ?i,
          dr_name = n, dr_creator_id = du_id u, dr_created_at = Some (ref_tm (rb_time d))\<rparr>]\<rparr>)
          (scast (word_of_int ?i :: int32)) d = (r, d')"
        by (simp add: Let_def)
      from ref_store_law [OF this o] fresh_int32 [of dr_id ?rs] True u show ?thesis
        by (auto simp: Insert_room inserted.simps)
    qed (use run o Insert_room Some in \<open>auto simp: Let_def\<close>)
  qed (use run o Insert_room in \<open>auto simp: Let_def\<close>)
next
  case (Insert_message room sender content)
  let ?ms = "t_messages (rb_inside c d)"
  let ?i = "next_id (map (\<lambda>m. sint (dm_id m)) ?ms)"
  show ?thesis
  proof (cases "find (\<lambda>r. scast (dr_id r) = room) (t_rooms (rb_inside c d))")
    case None
    with run o Insert_message show ?thesis by (auto simp: Let_def)
  next
    case (Some w)
    then have w: "w \<in> set (t_rooms (rb_inside c d))" "scast (dr_id w) = room"
      by (auto simp: find_Some_iff)
    show ?thesis
    proof (cases "find (\<lambda>u. scast (du_id u) = sender) (t_users (rb_inside c d))")
      case None
      with run o Insert_message Some show ?thesis by (auto simp: Let_def)
    next
      case (Some u)
      then have u: "u \<in> set (t_users (rb_inside c d))" "scast (du_id u) = sender"
        by (auto simp: find_Some_iff)
      show ?thesis
      proof (cases "?i < 2 ^ 63")
        case True
        with run Insert_message Some \<open>find _ (t_rooms _) = Some w\<close>
        have "ref_store c (\<lambda>t. t\<lparr>t_messages := ?ms @ [\<lparr>dm_id = word_of_int ?i,
            dm_room_id = dr_id w, dm_sender_id = du_id u, dm_content = content,
            dm_created_at = Some (ref_tm (rb_time d))\<rparr>]\<rparr>) (word_of_int ?i) d = (r, d')"
          by (simp add: Let_def)
        from ref_store_law [OF this o] fresh_long_long [of dm_id ?ms] True u w show ?thesis
          by (auto simp: Insert_message inserted.simps)
      qed (use run o Insert_message Some \<open>find _ (t_rooms _) = Some w\<close> in \<open>auto simp: Let_def\<close>)
    qed
  qed
qed

lemma ref_change_law:
  assumes o: "map_option fst (rb_txn d) = Some c" and run: "ref_change c st d = (r, d')"
  shows "rb_tables d' = rb_tables d \<and> map_option fst (rb_txn d') = Some c \<and>
    (\<forall>k. r = Inr k \<longrightarrow> changed ref_view st (rb_inside c d) (rb_inside c d') k)"
proof -
  have to: "rb_tables d2 = rb_tables d \<and> map_option fst (rb_txn d2) = Some c \<and>
      r2 = Inr (if t' = rb_inside c d then 0 else 1) \<and> rb_inside c d2 = t'"
    if "ref_change_to c t' d = (r2, d2)" for t' r2 d2
    using that by (auto simp: ref_change_to_def rb_inside_def)
  have fail: "rb_tables d' = rb_tables d \<and> map_option fst (rb_txn d') = Some c \<and>
      (\<forall>k. r = Inr k \<longrightarrow> changed ref_view st (rb_inside c d) (rb_inside c d') k)"
    if "(Inl ref_error, d) = (r, d')" using that o by auto
  show ?thesis
  proof (cases st)
    case (Update_user n h s i)
    show ?thesis
    proof (cases "\<exists>u \<in> set (t_users (rb_inside c d)). scast (du_id u) = i \<and>
        (\<exists>u' \<in> set (t_users (rb_inside c d)). scast (du_id u') \<noteq> i \<and> du_username u' = n)")
      case True
      with run Update_user show ?thesis by (intro fail) (simp add: Let_def)
    next
      case False
      then have "\<not> (\<exists>u \<in> set (t_users (rb_inside c d)). scast (du_id u) = i) \<or>
          \<not> (\<exists>u' \<in> set (t_users (rb_inside c d)). scast (du_id u') \<noteq> i \<and> du_username u' = n)" by blast
      with run Update_user have "ref_change_to c ((rb_inside c d)\<lparr>t_users := update_users n h s i
          (t_users (rb_inside c d))\<rparr>) d = (r, d')" by (auto simp: Let_def split: if_splits)
      from to [OF this] False show ?thesis by (auto simp: Update_user changed.simps)
    qed
  next
    case (Update_room n i)
    show ?thesis
    proof (cases "\<exists>u \<in> set (t_rooms (rb_inside c d)). scast (dr_id u) = i \<and>
        (\<exists>u' \<in> set (t_rooms (rb_inside c d)). scast (dr_id u') \<noteq> i \<and> dr_name u' = n)")
      case True
      with run Update_room show ?thesis by (intro fail) (simp add: Let_def)
    next
      case False
      then have "\<not> (\<exists>u \<in> set (t_rooms (rb_inside c d)). scast (dr_id u) = i) \<or>
          \<not> (\<exists>u' \<in> set (t_rooms (rb_inside c d)). scast (dr_id u') \<noteq> i \<and> dr_name u' = n)" by blast
      with run Update_room have "ref_change_to c ((rb_inside c d)\<lparr>t_rooms := update_rooms n i
          (t_rooms (rb_inside c d))\<rparr>) d = (r, d')" by (auto simp: Let_def split: if_splits)
      from to [OF this] False show ?thesis by (auto simp: Update_room changed.simps)
    qed
  next
    case (Delete_row T i)
    then show ?thesis using run to by (cases T) (auto simp: Let_def changed.simps)
  qed
qed

lemma ref_update_laws: "update_laws ref_env ref_view"
  unfolding update_laws_def
proof (intro conjI allI impI)
  fix c st d r d'
  assume o: "dv_open ref_view d = Some c" and run: "db_insert ref_env c st d = (r, d')"
  then have "map_option fst (rb_txn d) = Some c" "ref_insert c st d = (r, d')" by simp_all
  note l = ref_insert_law [OF this]
  from l show "dv_tables ref_view d' = dv_tables ref_view d" by simp
  from l show "dv_open ref_view d' = Some c" by simp
  fix u :: unit assume "r = Inr u"
  with l show "inserted ref_view st (dv_inside ref_view c d) (dv_inside ref_view c d')
    (dv_last_id ref_view d')" by simp
next
  fix c st d r d'
  assume o: "dv_open ref_view d = Some c" and run: "db_change ref_env c st d = (r, d')"
  then have "map_option fst (rb_txn d) = Some c" "ref_change c st d = (r, d')" by simp_all
  note l = ref_change_law [OF this]
  from l show "dv_tables ref_view d' = dv_tables ref_view d" by simp
  from l show "dv_open ref_view d' = Some c" by simp
  fix k assume "r = Inr k"
  with l show "changed ref_view st (dv_inside ref_view c d) (dv_inside ref_view c d') k" by simp
qed

lemma ref_engine_ok: "engine_ok ref_env ref_view"
  unfolding engine_ok_def
  by (simp add: ref_transaction_laws ref_query_laws ref_update_laws identity_equivp)

text \<open>The engine with updates that never work.\<close>

definition stuck_env :: "ref_db env" where
  "stuck_env = ref_env\<lparr>db_change := (\<lambda>c st d. (Inl ref_error, d))\<rparr>"

lemma stuck_env_simps:
  "db_begin stuck_env = db_begin ref_env" "db_commit stuck_env = db_commit ref_env"
  "db_rollback stuck_env = db_rollback ref_env" "db_users stuck_env = db_users ref_env"
  "db_rooms stuck_env = db_rooms ref_env" "db_messages stuck_env = db_messages ref_env"
  "db_insert stuck_env = db_insert ref_env" "db_last_id stuck_env = db_last_id ref_env"
  "db_created stuck_env = db_created ref_env" "e_sha256 stuck_env = e_sha256 ref_env"
  "db_change stuck_env = (\<lambda>c st d. (Inl ref_error, d))" "e_rand stuck_env = e_rand ref_env"
  by (simp_all add: stuck_env_def)

lemma stuck_engine_ok: "engine_ok stuck_env ref_view"
proof -
  have "transaction_laws stuck_env ref_view"
    using ref_transaction_laws by (simp only: transaction_laws_def stuck_env_simps)
  moreover have "query_laws stuck_env ref_view"
    using ref_query_laws by (simp only: query_laws_def stuck_env_simps)
  moreover have "update_laws stuck_env ref_view"
    unfolding update_laws_def
  proof (intro conjI allI impI)
    fix c st d r d' and u :: unit
    assume o: "dv_open ref_view d = Some c" and run: "db_insert stuck_env c st d = (r, d')"
    then have "map_option fst (rb_txn d) = Some c" "ref_insert c st d = (r, d')"
      by (simp_all add: stuck_env_simps)
    note l = ref_insert_law [OF this]
    from l show "dv_tables ref_view d' = dv_tables ref_view d" by simp
    from l show "dv_open ref_view d' = Some c" by simp
    assume "r = Inr u"
    with l show "inserted ref_view st (dv_inside ref_view c d) (dv_inside ref_view c d')
      (dv_last_id ref_view d')" by simp
  qed (auto simp: stuck_env_simps)
  ultimately show ?thesis by (simp add: engine_ok_def identity_equivp)
qed

section \<open>A small world\<close>

text \<open>
  Two users, one room, a pool of two connections, three sessions nobody has logged in to.
\<close>

definition ref_user :: "int32 \<Rightarrow> string \<Rightarrow> string \<Rightarrow> db_user" where
  "ref_user i n pw =
     \<lparr>du_id = i, du_username = n, du_hashed_password = hashPassword ref_sha256 pw ''5a'',
      du_salt = ''5a'', du_created_at = Some (ref_tm 0)\<rparr>"

definition ref_tables :: tables where
  "ref_tables =
     \<lparr>t_users = [ref_user 1 ''ann'' ''sesame'', ref_user 2 ''bob'' ''hunter''],
      t_rooms = [\<lparr>dr_id = 1, dr_name = ''lobby'', dr_creator_id = 1, dr_created_at = None\<rparr>],
      t_messages = []\<rparr>"

definition ref_db0 :: ref_db where
  "ref_db0 = \<lparr>rb_tables = ref_tables, rb_txn = None, rb_last = 0, rb_time = 1\<rparr>"

definition ref_pool :: pool where
  "ref_pool = no_pool\<lparr>cp_instance := True, cp_free := [0, 1]\<rparr>"

definition ref_state :: "ref_db session_state" where
  "ref_state =
     \<lparr>ds_db = ref_db0, ds_pool = ref_pool, ds_clock = 0, ds_draws = 0,
      ss_session = (\<lambda>_. new_session), ss_outbox = (\<lambda>_. []), ss_sessions = [],
      ss_byUserId = Map.empty, ss_byUsername = Map.empty\<rparr>"

lemma ref_schema_ok: "schema_ok ref_view ref_tables"
  by (auto simp: schema_ok_def unique_text_def ref_tables_def ref_user_def less_Suc_eq)

lemma ref_db_ok: "db_ok ref_env ref_view ref_db0" "db_ok stuck_env ref_view ref_db0"
  by (simp_all add: db_ok_def ref_engine_ok stuck_engine_ok idle_def ref_db0_def ref_schema_ok)

text \<open>What the simplifier needs to run a repository method on the engine, and the engine itself.\<close>

lemmas repo_run =
  cbind_def cthen_def db_call_def with_connection_def with_transaction_def transaction_scope_def
  getInstance_def getConnection_def wrapper_destroy_def returnConnection_def
  replenishConnectionAsync_def user_of_first_row_def room_of_first_row_def message_of_first_row_def
  created_or_now_def created_checked_def read_clock_def ctry_def created_from_base_def
  MySQLUserRepository_def MySQL_findByUsername_def MySQL_findByUserId_def MySQL_addUser_def
  MySQL_updateUser_def MySQLRoomRepository_def find_room_def MySQL_findByRoomName_def
  MySQL_addRoom_def MySQLMessageRepository_def MySQL_addMessage_def MySQL_findLatestByRoomId_def
  list_messages_def

lemmas ref_run =
  ref_env_def ref_begin_def ref_commit_def ref_rollback_def ref_users_def ref_rooms_def
  ref_messages_def ref_last_id_def ref_created_def ref_store_def ref_change_to_def rb_inside_def
  next_id_def user_row_of_def room_row_of_def message_row_of_def created_in_def from_time_t_def
  ref_pool_def no_pool_def ref_db0_def ref_tables_def ref_user_def ref_view_def Let_def

end
