(* ===== verification/Auth_Service.thy ===== *)
theory Auth_Service
  imports Reference_Engine
begin

text \<open>
  \<open>server/src/service/AuthService.cpp\<close>: logging in, registering, changing the password and the
  name. The service is given its user repository, as in the code; what it guarantees is proved
  once from the contract \<open>user_store\<close>. A \<open>User\<close> handed to the repository is a copy the handler
  owns.
\<close>

section \<open>Handlers\<close>

text \<open>\<open>Crypto::generateSalt()\<close> with its default length; every call reads the random source anew.\<close>

definition draw_salt :: "'db env \<Rightarrow> (('db, 'z) data_state_scheme, string) comp" where
  "draw_salt E s =
     (generateSalt (e_rand E (ds_draws s)) default_salt_length, s\<lparr>ds_draws := Suc (ds_draws s)\<rparr>)"

definition handleLogin ::
    "'db env \<Rightarrow> ('db, 'z) session_state_scheme user_repository \<Rightarrow> sid \<Rightarrow> login_request \<Rightarrow>
     (('db, 'z) session_state_scheme, unit) comp" where
  "handleLogin E repo i req =
     cbind (findByUsername repo (lq_username req)) (\<lambda>userOpt.
     case userOpt of
       None \<Rightarrow> session_send i (error_envelope ''User not found.'')
     | Some user \<Rightarrow>
         (let new_hash_attempt = hashPassword (e_sha256 E) (lq_password req) (u_salt user)
          in if new_hash_attempt = u_hashed_password user then
               cthen (manager_registerAuthenticatedSession i (u_id user) (u_username user))
                 (session_send i (envelope_with (LoginResponse
                    \<lparr>lp_success = True,
                     lp_message = ''Login successful. Welcome, '' @ u_username user @ ''!'',
                     lp_user_id = to_string (u_id user)\<rparr>)))
             else session_send i (error_envelope ''Password incorrect.'')))"

definition register_reply ::
    "sid \<Rightarrow> user option \<Rightarrow> (('db, 'z) session_state_scheme, unit) comp" where
  "register_reply i res =
     (case res of
        Some newUser \<Rightarrow>
          session_send i (envelope_with (RegistrationResponse
            \<lparr>gp_success = True,
             gp_message = ''Registration successful. You can now log in, '' @
               u_username newUser @ ''!''\<rparr>))
      | None \<Rightarrow>
          session_send i (envelope_with (RegistrationResponse
            \<lparr>gp_success = False,
             gp_message = ''Registration failed due to a server-side error.''\<rparr>)))"

definition handleRegister ::
    "'db env \<Rightarrow> ('db, 'z) session_state_scheme user_repository \<Rightarrow> sid \<Rightarrow> registration_request \<Rightarrow>
     (('db, 'z) session_state_scheme, unit) comp" where
  "handleRegister E repo i req =
     cbind (findByUsername repo (gq_username req)) (\<lambda>taken.
     if taken \<noteq> None then session_send i (error_envelope ''Username already taken.'')
     else
       cbind (draw_salt E) (\<lambda>salt.
       (let newUser = (new_user (e_junk E))
              \<lparr>u_username := gq_username req,
               u_hashed_password := hashPassword (e_sha256 E) (gq_password req) salt,
               u_salt := salt\<rparr>
        in cbind (addUser repo newUser) (register_reply i))))"

definition handleChangePassword ::
    "'db env \<Rightarrow> ('db, 'z) session_state_scheme user_repository \<Rightarrow> sid \<Rightarrow> change_password_request \<Rightarrow>
     (('db, 'z) session_state_scheme, unit) comp" where
  "handleChangePassword E repo i req =
     cbind (session_authenticated i) (\<lambda>auth.
     if \<not> auth then session_send i (error_envelope ''Not authenticated.'')
     else
       cbind (session_username i) (\<lambda>name.
       cbind (findByUsername repo name) (\<lambda>userOpt.
       case userOpt of
         None \<Rightarrow> session_send i (error_envelope ''User not found.'')
       | Some user \<Rightarrow>
           if hashPassword (e_sha256 E) (pq_old_password req) (u_salt user) \<noteq> u_hashed_password user
           then session_send i (error_envelope ''Old password is incorrect.'')
           else if pq_old_password req = [] \<or> pq_new_password req = []
           then session_send i (error_envelope ''Old password and new password must be provided.'')
           else if pq_old_password req = pq_new_password req
           then session_send i (error_envelope ''New password must be different from old password.'')
           else
             cbind (draw_salt E) (\<lambda>salt.
             cbind (updateUser repo (user\<lparr>u_salt := salt,
               u_hashed_password := hashPassword (e_sha256 E) (pq_new_password req) salt\<rparr>)) (\<lambda>_.
             session_send i (envelope_with (ChangePasswordResponse
               \<lparr>pp_success = True, pp_message = ''Password changed successfully.''\<rparr>)))))))"

definition handleChangeUsername ::
    "'db env \<Rightarrow> ('db, 'z) session_state_scheme user_repository \<Rightarrow> sid \<Rightarrow> change_username_request \<Rightarrow>
     (('db, 'z) session_state_scheme, unit) comp" where
  "handleChangeUsername E repo i req =
     cbind (session_authenticated i) (\<lambda>auth.
     if \<not> auth then session_send i (error_envelope ''Not authenticated.'')
     else
       cbind (session_username i) (\<lambda>name.
       cbind (findByUsername repo name) (\<lambda>userOpt.
       case userOpt of
         None \<Rightarrow> session_send i (error_envelope ''User not found.'')
       | Some user \<Rightarrow>
           cbind (findByUsername repo (nq_new_username req)) (\<lambda>taken.
           if taken \<noteq> None then session_send i (error_envelope ''Username already taken.'')
           else if nq_new_username req = []
           then session_send i (error_envelope ''New username must be provided.'')
           else if nq_new_username req = u_username user
           then session_send i
             (error_envelope ''New username must be different from current username.'')
           else
             cbind (updateUser repo (user\<lparr>u_username := nq_new_username req\<rparr>)) (\<lambda>_.
             cthen (manager_updateUsername i (nq_new_username req))
             (session_send i (envelope_with (ChangeUsernameResponse
               (change_username_response_default
                  \<lparr>np_success := True,
                   np_message := ''Username changed successfully to '' @ nq_new_username req @ ''.''\<rparr>)))))))))"

section \<open>What the handlers do, from the contract of the store\<close>

text \<open>A handler that serves session \<open>i\<close> touches no other session and no room.\<close>

definition only_touches ::
    "sid \<Rightarrow> ('db, 'z) session_state_scheme \<Rightarrow> ('db, 'z) session_state_scheme \<Rightarrow> bool" where
  "only_touches i s t \<longleftrightarrow>
     (\<forall>j. j \<noteq> i \<longrightarrow> ss_session t j = ss_session s j \<and> ss_outbox t j = ss_outbox s j) \<and>
     ss_sessions t = ss_sessions s \<and> session_state.more t = session_state.more s"

definition same_login ::
    "('db, 'z) session_state_scheme \<Rightarrow> ('db, 'z) session_state_scheme \<Rightarrow> bool" where
  "same_login s t \<longleftrightarrow>
     ss_session t = ss_session s \<and> ss_byUserId t = ss_byUserId s \<and>
     ss_byUsername t = ss_byUsername s"

text \<open>Exactly one reply, the given one; or none, when the handler does not return.\<close>

definition replied ::
    "sid \<Rightarrow> unit outcome \<Rightarrow> ('db, 'z) session_state_scheme \<Rightarrow> (envelope \<Rightarrow> bool) \<Rightarrow>
     ('db, 'z) session_state_scheme \<Rightarrow> bool" where
  "replied i out s P t \<longleftrightarrow>
     (out = Ret () \<longrightarrow> (\<exists>e. ss_outbox t i = ss_outbox s i @ [e] \<and> P e)) \<and>
     (out \<noteq> Ret () \<longrightarrow> ss_outbox t i = ss_outbox s i)"

definition success_reply :: "envelope \<Rightarrow> bool" where
  "success_reply e \<longleftrightarrow>
     (case payload e of
        Some (LoginResponse r) \<Rightarrow> lp_success r
      | Some (RegistrationResponse r) \<Rightarrow> gp_success r
      | Some (ChangePasswordResponse r) \<Rightarrow> pp_success r
      | Some (ChangeUsernameResponse r) \<Rightarrow> np_success r
      | _ \<Rightarrow> False)"

lemma success_reply_error [simp]: "\<not> success_reply (error_envelope msg)"
  by (simp add: success_reply_def error_envelope_def)

lemma success_replies [simp]:
  "success_reply (envelope_with (LoginResponse r1)) = lp_success r1"
  "success_reply (envelope_with (RegistrationResponse r2)) = gp_success r2"
  "success_reply (envelope_with (ChangePasswordResponse r3)) = pp_success r3"
  "success_reply (envelope_with (ChangeUsernameResponse r4)) = np_success r4"
  by (simp_all add: success_reply_def)

lemma draw_salt_frame:
  fixes s t :: "('db, 'z) session_state_scheme"
  assumes "draw_salt E s = (out, t)"
  shows "ds_db t = ds_db s" "data_state.more t = data_state.more s" "out \<noteq> Undef" "out \<noteq> Block"
  using assms by (auto simp: draw_salt_def generateSalt_def split: option.splits)

lemma only_touches_frame:
  fixes s t :: "('db, 'z) session_state_scheme"
  assumes "data_state.more t = data_state.more s"
  shows "only_touches i s t" "same_login s t" "ss_outbox t = ss_outbox s"
  using frame_session_state [OF assms] by (simp_all add: only_touches_def same_login_def)

lemma only_touches_trans: "only_touches i s u \<Longrightarrow> only_touches i u t \<Longrightarrow> only_touches i s t"
  by (simp add: only_touches_def)

lemma same_login_trans: "same_login s u \<Longrightarrow> same_login u t \<Longrightarrow> same_login s t"
  by (simp add: same_login_def)

text \<open>
  The ends of a branch: after a part that only touches the data layer, one reply; or the part does
  not return.
\<close>

lemma reply_branch:
  fixes s u :: "('db, 'z) session_state_scheme"
  assumes run: "session_send i e u = (out, t)" and u: "data_state.more u = data_state.more s"
  shows "ds_db t = ds_db u \<and> only_touches i s t \<and> same_login s t \<and> out = Ret () \<and>
    (P e \<longrightarrow> replied i out s P t)"
  using run frame_session_state [OF u]
  by (auto simp: session_send_apply only_touches_def same_login_def replied_def)

lemma error_branch:
  fixes s u :: "('db, 'z) session_state_scheme"
  assumes run: "session_send i (error_envelope msg) u = (out, t)"
    and u: "data_state.more u = data_state.more s"
  shows "ds_db t = ds_db u \<and> only_touches i s t \<and> same_login s t \<and> out = Ret () \<and>
    replied i out s (\<lambda>e. \<not> success_reply e) t"
  using reply_branch [OF run u, of "\<lambda>e. \<not> success_reply e"] by auto

lemma stopped_branch:
  fixes s t :: "('db, 'z) session_state_scheme"
  assumes "out \<noteq> Ret ()" "data_state.more t = data_state.more s"
  shows "only_touches i s t \<and> same_login s t \<and> replied i out s P t"
  using only_touches_frame [OF assms(2)] assms(1) by (simp add: replied_def)

lemma authenticated_prefix:
  assumes "isAuthenticated (ss_session s i)" "username (ss_session s i) = Some name"
  shows "cbind (session_authenticated i) (\<lambda>auth.
    if \<not> auth then A else cbind (session_username i) f) s = f name s"
  using assms by (simp add: session_authenticated_def session_username_def getUsername_def cbind_def)

context user_store
begin

lemma find_cases:
  fixes s :: "('db, 'z) session_state_scheme"
  assumes "invar (ds_db s)" "cbind (findByUsername repo n) f s = (out, t)"
  obtains (stopped) "out \<noteq> Ret ()" "out \<noteq> Undef" "invar (ds_db t)"
      "users (ds_db t) = users (ds_db s)" "data_state.more t = data_state.more s"
    | (found) a u where "f a u = (out, t)" "invar (ds_db u)" "users (ds_db u) = users (ds_db s)"
      "data_state.more u = data_state.more s"
      "\<And>x. a = Some x \<Longrightarrow> credential_of x \<in> users (ds_db s) \<and> same (u_username x) n"
proof -
  from assms(2) show thesis
  proof (cases rule: cbindE)
    case (returned a u)
    from find [OF assms(1) returned(1)] show thesis by (intro found [OF returned(2)]) auto
  qed (use find [OF assms(1)] stopped in fastforce)+
qed

lemma login_result:
  assumes inv: "invar (ds_db s)" and run: "handleLogin E repo i req s = (out, t)"
  shows "invar (ds_db t) \<and> users (ds_db t) = users (ds_db s) \<and> only_touches i s t \<and> out \<noteq> Undef \<and>
    ((\<exists>u. credential_of u \<in> users (ds_db s) \<and> same (u_username u) (lq_username req) \<and>
        hashPassword (e_sha256 E) (lq_password req) (u_salt u) = u_hashed_password u \<and>
        ss_session t i = setAuthenticated (u_id u) (u_username u) (ss_session s i) \<and>
        ss_byUserId t = (ss_byUserId s)(u_id u \<mapsto> i) \<and>
        ss_byUsername t = (ss_byUsername s)(u_username u \<mapsto> i) \<and> replied i out s success_reply t) \<or>
     (same_login s t \<and> replied i out s (\<lambda>e. \<not> success_reply e) t))"
  using inv run unfolding handleLogin_def
proof (cases rule: find_cases)
  case stopped
  from stopped_branch [OF stopped(1,5)] stopped show ?thesis by blast
next
  case (found a u)
  show ?thesis
  proof (cases a)
    case None
    with found(1) have "session_send i (error_envelope ''User not found.'') u = (out, t)" by simp
    from error_branch [OF this found(4)] found(2,3) show ?thesis by auto
  next
    case (Some x)
    note x = found(5) [OF Some]
    show ?thesis
    proof (cases "hashPassword (e_sha256 E) (lq_password req) (u_salt x) = u_hashed_password x")
      case False
      with found(1) Some have "session_send i (error_envelope ''Password incorrect.'') u = (out, t)"
        by simp
      from error_branch [OF this found(4)] found(2,3) show ?thesis by auto
    next
      case True
      let ?r = "\<lparr>lp_success = True, lp_message = ''Login successful. Welcome, '' @ u_username x @ ''!'',
        lp_user_id = to_string (u_id x)\<rparr>"
      let ?u = "snd (manager_registerAuthenticatedSession i (u_id x) (u_username x) u)"
      from found(1) Some True have t: "out = Ret ()"
        "t = snd (session_send i (envelope_with (LoginResponse ?r)) ?u)"
        by (simp_all add: cthen_def cbind_def register_run session_send_apply)
      have "invar (ds_db t) \<and> users (ds_db t) = users (ds_db s)"
        using found(2,3) by (simp add: t(2) session_send_apply register_run)
      moreover have "only_touches i s t"
        using frame_session_state [OF found(4)]
        by (simp add: only_touches_def t(2) session_send_apply register_run)
      moreover have "ss_session t i = setAuthenticated (u_id x) (u_username x) (ss_session s i) \<and>
        ss_byUserId t = (ss_byUserId s)(u_id x \<mapsto> i) \<and>
        ss_byUsername t = (ss_byUsername s)(u_username x \<mapsto> i)"
        using frame_session_state [OF found(4)]
        by (simp add: t(2) session_send_apply register_run)
      moreover have "replied i out s success_reply t"
        using frame_session_state [OF found(4)]
        by (simp add: replied_def t session_send_apply register_run success_reply_def)
      ultimately show ?thesis using x True t(1) by blast
    qed
  qed
qed

lemma draw_cases:
  fixes s :: "('db, 'z) session_state_scheme"
  assumes "cbind (draw_salt E) f s = (out, t)"
  obtains (stopped) "out \<noteq> Ret ()" "out \<noteq> Undef" "ds_db t = ds_db s"
      "data_state.more t = data_state.more s"
    | (drawn) salt u where "f salt u = (out, t)" "ds_db u = ds_db s"
      "data_state.more u = data_state.more s"
  using assms
proof (cases rule: cbindE)
  case (returned salt u)
  from draw_salt_frame [OF returned(1)] show thesis by (intro drawn [OF returned(2)])
next
  case (thrown e)
  from draw_salt_frame [OF thrown(1)] thrown(2) show thesis by (intro stopped) simp_all
next
  case blocked
  with draw_salt_frame [OF blocked(1)] show thesis by simp
next
  case undefined'
  with draw_salt_frame [OF undefined'(1)] show thesis by simp
qed

lemma register_result:
  assumes inv: "invar (ds_db s)" and run: "handleRegister E repo i req s = (out, t)"
  shows "invar (ds_db t) \<and> only_touches i s t \<and> same_login s t \<and> out \<noteq> Undef \<and>
    ((\<exists>u. u_username u = gq_username req \<and>
        u_hashed_password u = hashPassword (e_sha256 E) (gq_password req) (u_salt u) \<and>
        u_id u \<notin> cred_id ` users (ds_db s) \<and>
        (\<forall>c \<in> users (ds_db s). \<not> same (cred_name c) (gq_username req)) \<and>
        users (ds_db t) = insert (credential_of u) (users (ds_db s)) \<and>
        replied i out s success_reply t) \<or>
     ((users (ds_db t) = users (ds_db s) \<or>
        (\<exists>u. u_username u = gq_username req \<and>
           u_hashed_password u = hashPassword (e_sha256 E) (gq_password req) (u_salt u) \<and>
           store_add u (users (ds_db s)) (users (ds_db t)))) \<and>
      replied i out s (\<lambda>e. \<not> success_reply e) t))"
  using inv run unfolding handleRegister_def
proof (cases rule: find_cases)
  case stopped
  from stopped_branch [OF stopped(1,5)] stopped show ?thesis by blast
next
  case (found a u)
  show ?thesis
  proof (cases "a = None")
    case False
    with found(1) have "session_send i (error_envelope ''Username already taken.'') u = (out, t)"
      by simp
    from error_branch [OF this found(4)] found(2,3) show ?thesis by auto
  next
    case True
    let ?n = "\<lambda>salt. (new_user (e_junk E))
      \<lparr>u_username := gq_username req,
       u_hashed_password := hashPassword (e_sha256 E) (gq_password req) salt, u_salt := salt\<rparr>"
    from found(1) have "cbind (draw_salt E) (\<lambda>salt. cbind (addUser repo (?n salt))
       (register_reply i)) u = (out, t)"
      by (simp only: True Let_def simp_thms if_False)
    then show ?thesis
    proof (cases rule: draw_cases)
      case stopped
      then have fr: "data_state.more t = data_state.more s" using found(4) by simp
      from stopped_branch [OF stopped(1) fr] stopped found(2,3) show ?thesis by simp
    next
      case (drawn salt v)
      have v: "invar (ds_db v)" "users (ds_db v) = users (ds_db s)"
        "data_state.more v = data_state.more s" using drawn found by simp_all
      have n: "u_username (?n salt) = gq_username req"
        "u_hashed_password (?n salt) = hashPassword (e_sha256 E) (gq_password req) (u_salt (?n salt))"
        by simp_all
      from drawn(1) show ?thesis
      proof (cases rule: cbindE)
        case (returned res w)
        note w = add [OF v(1) returned(1), unfolded v(2,3)]
        then have fr: "data_state.more w = data_state.more s" by simp
        show ?thesis
        proof (cases res)
          case None
          from returned(2) have "session_send i (envelope_with (RegistrationResponse
            \<lparr>gp_success = False,
             gp_message = ''Registration failed due to a server-side error.''\<rparr>)) w = (out, t)"
            by (simp add: None register_reply_def)
          from reply_branch [OF this fr, of "\<lambda>e. \<not> success_reply e"]
          have r: "ds_db t = ds_db w" "only_touches i s t" "same_login s t" "out = Ret ()"
            "replied i out s (\<lambda>e. \<not> success_reply e) t" by auto
          with w n show ?thesis by (metis outcome.distinct(5))
        next
          case (Some x)
          from returned(2) have "session_send i (envelope_with (RegistrationResponse
            \<lparr>gp_success = True, gp_message = ''Registration successful. You can now log in, '' @
               u_username x @ ''!''\<rparr>)) w = (out, t)"
            by (simp only: Some register_reply_def option.case)
          from reply_branch [OF this fr, of success_reply]
          have r: "ds_db t = ds_db w" "only_touches i s t" "same_login s t" "out = Ret ()"
            "replied i out s success_reply t" by auto
          have x: "u_username x = gq_username req" "u_id x \<notin> cred_id ` users (ds_db s)"
            "\<forall>c \<in> users (ds_db s). \<not> same (cred_name c) (gq_username req)"
            "credential_of x = credential_of ((?n salt)\<lparr>u_id := u_id x\<rparr>)"
            "users (ds_db t) = insert (credential_of x) (users (ds_db s))"
            using w Some r(1) by simp_all
          from x(4) have "u_hashed_password x = hashPassword (e_sha256 E) (gq_password req) (u_salt x)"
            by (simp add: credential_of_def)
          with x r w show ?thesis by (metis outcome.distinct(5))
        qed
      next
        case (thrown e)
        note w = add [OF v(1) thrown(1), unfolded v(2,3)]
        then have fr: "data_state.more t = data_state.more s" by simp
        have "out \<noteq> Ret ()" using thrown(2) by simp
        from stopped_branch [OF this fr] w n thrown(2) show ?thesis by (metis outcome.distinct(9))
      next
        case blocked
        note w = add [OF v(1) blocked(1), unfolded v(2,3)]
        then have fr: "data_state.more t = data_state.more s" by simp
        have "out \<noteq> Ret ()" using blocked(2) by simp
        from stopped_branch [OF this fr] w n blocked(2) show ?thesis by (metis outcome.distinct(11))
      next
        case undefined'
        with add [OF v(1) undefined'(1)] show ?thesis by simp
      qed
    qed
  qed
qed

lemma change_password_result:
  assumes inv: "invar (ds_db s)" and run: "handleChangePassword E repo i req s = (out, t)"
    and auth: "isAuthenticated (ss_session s i)" "username (ss_session s i) = Some name"
  shows "invar (ds_db t) \<and> only_touches i s t \<and> same_login s t \<and> out \<noteq> Undef \<and>
    ((\<exists>u salt. credential_of u \<in> users (ds_db s) \<and> same (u_username u) name \<and>
        hashPassword (e_sha256 E) (pq_old_password req) (u_salt u) = u_hashed_password u \<and>
        pq_new_password req \<noteq> [] \<and> pq_new_password req \<noteq> pq_old_password req \<and>
        users (ds_db t) \<in> {users (ds_db s), store_update (u\<lparr>u_salt := salt, u_hashed_password :=
          hashPassword (e_sha256 E) (pq_new_password req) salt\<rparr>) (users (ds_db s))} \<and>
        replied i out s success_reply t) \<or>
     (users (ds_db t) = users (ds_db s) \<and> replied i out s (\<lambda>e. \<not> success_reply e) t))"
proof -
  let ?rest = "\<lambda>userOpt. case userOpt of
         None \<Rightarrow> session_send i (error_envelope ''User not found.'')
       | Some user \<Rightarrow>
           if hashPassword (e_sha256 E) (pq_old_password req) (u_salt user) \<noteq> u_hashed_password user
           then session_send i (error_envelope ''Old password is incorrect.'')
           else if pq_old_password req = [] \<or> pq_new_password req = []
           then session_send i (error_envelope ''Old password and new password must be provided.'')
           else if pq_old_password req = pq_new_password req
           then session_send i (error_envelope ''New password must be different from old password.'')
           else
             cbind (draw_salt E) (\<lambda>salt.
             cbind (updateUser repo (user\<lparr>u_salt := salt,
               u_hashed_password := hashPassword (e_sha256 E) (pq_new_password req) salt\<rparr>)) (\<lambda>_.
             session_send i (envelope_with (ChangePasswordResponse
               \<lparr>pp_success = True, pp_message = ''Password changed successfully.''\<rparr>))))"
  have "cbind (findByUsername repo name) ?rest s = (out, t)"
    using run by (simp only: handleChangePassword_def authenticated_prefix [OF auth])
  with inv show ?thesis
  proof (cases rule: find_cases)
    case stopped
    from stopped_branch [OF stopped(1,5)] stopped show ?thesis by blast
  next
    case (found a u)
    show ?thesis
    proof (cases "\<exists>msg. ?rest a u = session_send i (error_envelope msg) u")
      case True
      then obtain msg where "session_send i (error_envelope msg) u = (out, t)"
        using found(1) by auto
      from error_branch [OF this found(4)] found(2,3) show ?thesis by auto
    next
      case False
      then obtain x where a: "a = Some x" by (cases a) auto
      with False have c: "hashPassword (e_sha256 E) (pq_old_password req) (u_salt x) = u_hashed_password x"
        "pq_old_password req \<noteq> []" "pq_new_password req \<noteq> []"
        "pq_old_password req \<noteq> pq_new_password req" by (auto split: if_splits)
      let ?new = "\<lambda>salt. x\<lparr>u_salt := salt,
        u_hashed_password := hashPassword (e_sha256 E) (pq_new_password req) salt\<rparr>"
      note x = found(5) [OF a]
      from found(1) have "cbind (draw_salt E) (\<lambda>salt. cbind (updateUser repo (?new salt)) (\<lambda>_.
          session_send i (envelope_with (ChangePasswordResponse
            \<lparr>pp_success = True, pp_message = ''Password changed successfully.''\<rparr>)))) u = (out, t)"
        using c by (simp only: a option.case simp_thms if_False)
      then show ?thesis
      proof (cases rule: draw_cases)
        case stopped
        then have fr: "data_state.more t = data_state.more s" using found(4) by simp
        from stopped_branch [OF stopped(1) fr] stopped found(2,3) show ?thesis by simp
      next
        case (drawn salt v)
        have v: "invar (ds_db v)" "users (ds_db v) = users (ds_db s)"
          "data_state.more v = data_state.more s" using drawn found by simp_all
        have common: "?thesis" if "replied i out s success_reply t" "only_touches i s t"
          "same_login s t" "invar (ds_db t)" "out \<noteq> Undef"
          "users (ds_db t) \<in> {users (ds_db s), store_update (?new salt) (users (ds_db s))}"
          by (intro conjI disjI1 exI [of _ x] exI [of _ salt])
            (use that x c in simp_all)
        from drawn(1) show ?thesis
        proof (cases rule: cbindE)
          case (returned b w)
          note w = update [OF v(1) returned(1), unfolded v(2,3)]
          then have fr: "data_state.more w = data_state.more s" by simp
          from reply_branch [OF returned(2) fr, of success_reply] w show ?thesis
            by (intro common) auto
        next
          case (thrown e)
          note w = update [OF v(1) thrown(1), unfolded v(2,3)]
          then have fr: "data_state.more t = data_state.more s" by simp
          have "out \<noteq> Ret ()" using thrown(2) by simp
          from stopped_branch [OF this fr, of i success_reply] w thrown(2) show ?thesis
            by (intro common) auto
        next
          case blocked
          note w = update [OF v(1) blocked(1), unfolded v(2,3)]
          then have fr: "data_state.more t = data_state.more s" by simp
          have "out \<noteq> Ret ()" using blocked(2) by simp
          from stopped_branch [OF this fr, of i success_reply] w blocked(2) show ?thesis
            by (intro common) auto
        next
          case undefined'
          with update [OF v(1) undefined'(1)] show ?thesis by simp
        qed
      qed
    qed
  qed
qed

lemma change_username_result:
  assumes inv: "invar (ds_db s)" and run: "handleChangeUsername E repo i req s = (out, t)"
    and auth: "isAuthenticated (ss_session s i)" "username (ss_session s i) = Some name"
  shows "invar (ds_db t) \<and> only_touches i s t \<and> out \<noteq> Undef \<and>
    ((\<exists>u. credential_of u \<in> users (ds_db s) \<and> same (u_username u) name \<and>
        nq_new_username req \<noteq> [] \<and> nq_new_username req \<noteq> u_username u \<and>
        users (ds_db t) \<in> {users (ds_db s),
          store_update (u\<lparr>u_username := nq_new_username req\<rparr>) (users (ds_db s))} \<and>
        ((out = Ret () \<and>
          ss_session t i = setUsername (nq_new_username req) (ss_session s i) \<and>
          ss_byUserId t = ss_byUserId s \<and>
          ss_byUsername t = (ss_byUsername s)(name := None, nq_new_username req \<mapsto> i)) \<or>
         (out \<noteq> Ret () \<and> same_login s t)) \<and>
        replied i out s success_reply t) \<or>
     (users (ds_db t) = users (ds_db s) \<and> same_login s t \<and>
      replied i out s (\<lambda>e. \<not> success_reply e) t))"
proof -
  let ?ok = "envelope_with (ChangeUsernameResponse (change_username_response_default
    \<lparr>np_success := True,
     np_message := ''Username changed successfully to '' @ nq_new_username req @ ''.''\<rparr>))"
  let ?rename = "\<lambda>user. cbind (updateUser repo (user\<lparr>u_username := nq_new_username req\<rparr>)) (\<lambda>_.
    cthen (manager_updateUsername i (nq_new_username req)) (session_send i ?ok))"
  let ?checks = "\<lambda>user taken.
           if taken \<noteq> None then session_send i (error_envelope ''Username already taken.'')
           else if nq_new_username req = []
           then session_send i (error_envelope ''New username must be provided.'')
           else if nq_new_username req = u_username user
           then session_send i
             (error_envelope ''New username must be different from current username.'')
           else ?rename user"
  let ?rest = "\<lambda>userOpt. case userOpt of
         None \<Rightarrow> session_send i (error_envelope ''User not found.'')
       | Some user \<Rightarrow> cbind (findByUsername repo (nq_new_username req)) (?checks user)"
  have "cbind (findByUsername repo name) ?rest s = (out, t)"
    using run by (simp only: handleChangeUsername_def authenticated_prefix [OF auth])
  with inv show ?thesis
  proof (cases rule: find_cases)
    case stopped
    from stopped_branch [OF stopped(1,5)] stopped show ?thesis by blast
  next
    case (found a u)
    show ?thesis
    proof (cases a)
      case None
      with found(1) have "session_send i (error_envelope ''User not found.'') u = (out, t)" by simp
      from error_branch [OF this found(4)] found(2,3) show ?thesis by auto
    next
      case (Some x)
      note x = found(5) [OF Some]
      from found(1) have "cbind (findByUsername repo (nq_new_username req)) (?checks x) u = (out, t)"
        by (simp only: Some option.case)
      with found(2) show ?thesis
      proof (cases rule: find_cases)
        case stopped
        then have fr: "data_state.more t = data_state.more s" using found(4) by simp
        from stopped_branch [OF stopped(1) fr] stopped found(3) show ?thesis by simp
      next
        case (found a' v)
        have v: "invar (ds_db v)" "users (ds_db v) = users (ds_db s)"
          "data_state.more v = data_state.more s" using found \<open>users (ds_db u) = users (ds_db s)\<close>
            \<open>data_state.more u = data_state.more s\<close> by simp_all
        show ?thesis
        proof (cases "\<exists>msg. ?checks x a' v = session_send i (error_envelope msg) v")
          case True
          then obtain msg where "session_send i (error_envelope msg) v = (out, t)"
            using found(1) by auto
          from error_branch [OF this v(3)] v(1,2) show ?thesis by auto
        next
          case False
          then have c: "a' = None" "nq_new_username req \<noteq> []" "nq_new_username req \<noteq> u_username x"
            by (auto split: if_splits)
          let ?new = "x\<lparr>u_username := nq_new_username req\<rparr>"
          have common: "?thesis" if "replied i out s success_reply t" "only_touches i s t"
            "invar (ds_db t)" "out \<noteq> Undef"
            "users (ds_db t) \<in> {users (ds_db s), store_update ?new (users (ds_db s))}"
            "(out = Ret () \<and>
              ss_session t i = setUsername (nq_new_username req) (ss_session s i) \<and>
              ss_byUserId t = ss_byUserId s \<and>
              ss_byUsername t = (ss_byUsername s)(name := None, nq_new_username req \<mapsto> i)) \<or>
             (out \<noteq> Ret () \<and> same_login s t)"
            by (intro conjI disjI1 [of "\<exists>u. P u" for P] exI [of _ x]) (use that x c in simp_all)
          from found(1) have "?rename x v = (out, t)" using c by (simp only: simp_thms if_False)
          then show ?thesis
          proof (cases rule: cbindE)
            case (returned b w)
            note w = update [OF v(1) returned(1), unfolded v(2,3)]
            then have fr: "data_state.more w = data_state.more s" by simp
            note f = frame_session_state [OF fr]
            have old: "session_username i w = (Ret name, w)"
              by (simp add: session_username_def getUsername_def f auth)
            let ?u = "snd (manager_updateUsername i (nq_new_username req) w)"
            have run: "manager_updateUsername i (nq_new_username req) w = (Ret (), ?u)"
              by (simp add: updateUsername_run [OF old])
            have sent: "session_send i ?ok ?u = (out, t)"
              using returned(2) by (simp only: cthen_apply [of "manager_updateUsername i
                (nq_new_username req)" w "()" ?u, OF run])
            define e where "e = ?ok"
            have e: "success_reply e" "out = Ret ()" "t = snd (session_send i e ?u)"
              using sent by (auto simp: session_send_apply e_def)
            have t: "ds_db t = ds_db w" "ss_session t = (ss_session s)
                (i := setUsername (nq_new_username req) (ss_session s i))"
              "ss_byUserId t = ss_byUserId s"
              "ss_byUsername t = (ss_byUsername s)(name := None, nq_new_username req \<mapsto> i)"
              "ss_outbox t = (ss_outbox s)(i := ss_outbox s i @ [e])"
              "ss_sessions t = ss_sessions s" "session_state.more t = session_state.more s"
              by (simp_all add: e(3) session_send_apply updateUsername_run [OF old] f)
            show ?thesis
              by (rule common) (use t e w in \<open>simp_all add: replied_def only_touches_def\<close>)
          next
            case (thrown e)
            note w = update [OF v(1) thrown(1), unfolded v(2,3)]
            then have fr: "data_state.more t = data_state.more s" by simp
            have "out \<noteq> Ret ()" using thrown(2) by simp
            from stopped_branch [OF this fr, of i success_reply] w thrown(2) show ?thesis
              by (intro common) auto
          next
            case blocked
            note w = update [OF v(1) blocked(1), unfolded v(2,3)]
            then have fr: "data_state.more t = data_state.more s" by simp
            have "out \<noteq> Ret ()" using blocked(2) by simp
            from stopped_branch [OF this fr, of i success_reply] w blocked(2) show ?thesis
              by (intro common) auto
          next
            case undefined'
            with update [OF v(1) undefined'(1)] show ?thesis by simp
          qed
        qed
      qed
    qed
  qed
qed

end

context reliable_user_store
begin

lemma login_complete:
  assumes inv: "invar (ds_db s)" and up: "up s"
    and c: "(uid, name, hash, salt) \<in> users (ds_db s)" "same name (lq_username req)"
    and pw: "hashPassword (e_sha256 E) (lq_password req) salt = hash"
  shows "\<exists>t. handleLogin E repo i req s = (Ret (), t) \<and>
    ss_session t i = setAuthenticated uid name (ss_session s i) \<and>
    ss_byUserId t uid = Some i \<and> ss_byUsername t name = Some i \<and>
    ss_outbox t i = ss_outbox s i @ [envelope_with (LoginResponse
      \<lparr>lp_success = True, lp_message = ''Login successful. Welcome, '' @ name @ ''!'',
       lp_user_id = to_string uid\<rparr>)]"
proof -
  have "same (cred_name (uid, name, hash, salt)) (lq_username req)"
    using c(2) by (simp add: cred_name_def)
  from find_known [OF inv up c(1) this] obtain u w
    where run: "findByUsername repo (lq_username req) s = (Ret (Some u), w)"
      and u: "credential_of u = (uid, name, hash, salt)" and fr: "data_state.more w = data_state.more s"
    by blast
  note f = frame_session_state [OF fr]
  have u': "u_id u = uid" "u_username u = name" "u_hashed_password u = hash" "u_salt u = salt"
    using u by (simp_all add: credential_of_def)
  let ?m = "snd (manager_registerAuthenticatedSession i uid name w)"
  let ?e = "envelope_with (LoginResponse
      \<lparr>lp_success = True, lp_message = ''Login successful. Welcome, '' @ name @ ''!'',
       lp_user_id = to_string uid\<rparr>)"
  have "handleLogin E repo i req s = session_send i ?e ?m"
    unfolding handleLogin_def cbind_def run prod.case outcome.case option.case
    by (simp only: Let_def u' pw simp_thms if_True cthen_def cbind_def register_run prod.case
        outcome.case snd_conv)
  then show ?thesis by (simp add: session_send_apply register_run f)
qed

lemma taken_name_refused:
  assumes inv: "invar (ds_db s)" and up: "up s"
    and auth: "isAuthenticated (ss_session s i)" "username (ss_session s i) = Some name"
    and taken: "c \<in> users (ds_db s)" "same (cred_name c) (nq_new_username req)"
    and run: "handleChangeUsername E repo i req s = (out, t)"
  shows "out = Ret () \<and> same_login s t \<and> users (ds_db t) = users (ds_db s) \<and>
    replied i out s (\<lambda>e. \<not> success_reply e) t"
proof -
  obtain a u where first: "findByUsername repo name s = (Ret a, u)" "up u"
    using find_complete [OF inv up] by blast
  from find [OF inv first(1)] have u: "invar (ds_db u)" "users (ds_db u) = users (ds_db s)"
    "data_state.more u = data_state.more s" by simp_all
  have "\<exists>msg w. session_send i (error_envelope msg) w = (out, t) \<and>
      users (ds_db w) = users (ds_db s) \<and> data_state.more w = data_state.more s"
  proof (cases a)
    case None
    then have "session_send i (error_envelope ''User not found.'') u = (out, t)"
      using run by (simp add: handleChangeUsername_def authenticated_prefix [OF auth] cbind_Ret first(1))
    with u show ?thesis by blast
  next
    case (Some x)
    obtain y w where second: "findByUsername repo (nq_new_username req) u = (Ret (Some y), w)"
      "data_state.more w = data_state.more u"
      using find_known [OF u(1) first(2) taken(1) [folded u(2)] taken(2)] by metis
    with Some have "session_send i (error_envelope ''Username already taken.'') w = (out, t)"
      using run by (simp add: handleChangeUsername_def authenticated_prefix [OF auth]
          cbind_Ret first(1) second(1))
    moreover from find [OF u(1) second(1)] u(2) have "users (ds_db w) = users (ds_db s)" by simp
    ultimately show ?thesis using second(2) u(3) by metis
  qed
  then obtain msg w where w: "session_send i (error_envelope msg) w = (out, t)"
    "users (ds_db w) = users (ds_db s)" "data_state.more w = data_state.more s" by blast
  from error_branch [OF w(1,3)] w(2) show ?thesis by auto
qed

end

section \<open>Properties\<close>

text \<open>C11. Login is sound. A login request leaves the database and every other session as they are;
  the session becomes authenticated as a user only if the store holds a user of that name whose
  salted hash is that of the given password, and it then carries that user's id and stored name
  and is registered under both. In every other case the login state does not change. Exactly one
  reply goes out when the handler returns, a success exactly when the session was authenticated.\<close>

theorem login_sound:
  assumes "db_ok E V (ds_db s)"
    and "handleLogin E (MySQLUserRepository E) i req s = (out, t)"
  shows "db_ok E V (ds_db t) \<and> db_users_of V (ds_db t) = db_users_of V (ds_db s) \<and>
    only_touches i s t \<and> out \<noteq> Undef \<and>
    ((\<exists>u. credential_of u \<in> db_users_of V (ds_db s) \<and> dv_same_text V (u_username u) (lq_username req) \<and>
        hashPassword (e_sha256 E) (lq_password req) (u_salt u) = u_hashed_password u \<and>
        ss_session t i = setAuthenticated (u_id u) (u_username u) (ss_session s i) \<and>
        ss_byUserId t = (ss_byUserId s)(u_id u \<mapsto> i) \<and>
        ss_byUsername t = (ss_byUsername s)(u_username u \<mapsto> i) \<and> replied i out s success_reply t) \<or>
     (same_login s t \<and> replied i out s (\<lambda>e. \<not> success_reply e) t))"
  by (rule mysql_users.login_result [OF assms])

lemma login_sound_witness:
  "(let t = snd (handleLogin ref_env (MySQLUserRepository ref_env) 0
       \<lparr>lq_username = ''ann'', lq_password = ''sesame''\<rparr> ref_state)
    in db_ok ref_env ref_view (ds_db t) \<and> only_touches 0 ref_state t \<and>
       ss_byUsername t ''ann'' = Some 0)"
proof -
  let ?r = "handleLogin ref_env (MySQLUserRepository ref_env) 0
    \<lparr>lq_username = ''ann'', lq_password = ''sesame''\<rparr> ref_state"
  have ok: "db_ok ref_env ref_view (ds_db ref_state)" by (simp add: ref_state_def ref_db_ok)
  have "ss_byUsername (snd ?r) ''ann'' = Some 0" by code_simp
  moreover note login_sound [OF ok prod.collapse [of ?r, symmetric]]
  ultimately show ?thesis unfolding Let_def by blast
qed

text \<open>C12. Login is complete. While a pooled connection is free and the server answers queries, a
  user whose stored hash is that of the given password is logged in: the handler returns, the
  session is authenticated under the stored id and name and found under both, and the one reply is
  the login response with that id.\<close>

theorem login_complete_mysql:
  assumes "db_ok E V (ds_db s)" and "engine_up E s"
    and "(uid, name, hash, salt) \<in> db_users_of V (ds_db s)" "dv_same_text V name (lq_username req)"
    and "hashPassword (e_sha256 E) (lq_password req) salt = hash"
  shows "\<exists>t. handleLogin E (MySQLUserRepository E) i req s = (Ret (), t) \<and>
    ss_session t i = setAuthenticated uid name (ss_session s i) \<and>
    ss_byUserId t uid = Some i \<and> ss_byUsername t name = Some i \<and>
    ss_outbox t i = ss_outbox s i @ [envelope_with (LoginResponse
      \<lparr>lp_success = True, lp_message = ''Login successful. Welcome, '' @ name @ ''!'',
       lp_user_id = to_string uid\<rparr>)]"
  by (rule mysql_reliable.login_complete [OF assms])

lemma ref_engine_up: "engine_up ref_env ref_state"
  by (simp add: engine_up_def ref_state_def ref_pool_def ref_users_def)

lemma login_complete_mysql_witness:
  "\<exists>t. handleLogin ref_env (MySQLUserRepository ref_env) 2
     \<lparr>lq_username = ''bob'', lq_password = ''hunter''\<rparr> ref_state = (Ret (), t) \<and>
   ss_session t 2 = setAuthenticated 2 ''bob'' (ss_session ref_state 2)"
proof -
  have ok: "db_ok ref_env ref_view (ds_db ref_state)" by (simp add: ref_state_def ref_db_ok)
  have "(2, ''bob'', hashPassword ref_sha256 ''hunter'' ''5a'', ''5a'')
      \<in> db_users_of ref_view (ds_db ref_state)"
    by (simp add: db_users_of_def ref_state_def ref_db0_def ref_tables_def ref_user_def
        row_credential_def)
  from login_complete_mysql [OF ok ref_engine_up this, of
      "\<lparr>lq_username = ''bob'', lq_password = ''hunter''\<rparr>" 2]
  show ?thesis by simp blast
qed

text \<open>C13. Registration is sound. It touches no login state. A success reply means the store gained
  exactly one user: a fresh id, a name no stored user has, and the salted hash of the given
  password. Any other ending leaves the store as it was, or (a commit whose answer was lost) with
  that one user more; never with a part of it, and never with an existing user changed.\<close>

theorem register_sound:
  assumes "db_ok E V (ds_db s)"
    and "handleRegister E (MySQLUserRepository E) i req s = (out, t)"
  shows "db_ok E V (ds_db t) \<and> only_touches i s t \<and> same_login s t \<and> out \<noteq> Undef \<and>
    ((\<exists>u. u_username u = gq_username req \<and>
        u_hashed_password u = hashPassword (e_sha256 E) (gq_password req) (u_salt u) \<and>
        u_id u \<notin> cred_id ` db_users_of V (ds_db s) \<and>
        (\<forall>c \<in> db_users_of V (ds_db s). \<not> dv_same_text V (cred_name c) (gq_username req)) \<and>
        db_users_of V (ds_db t) = insert (credential_of u) (db_users_of V (ds_db s)) \<and>
        replied i out s success_reply t) \<or>
     ((db_users_of V (ds_db t) = db_users_of V (ds_db s) \<or>
        (\<exists>u. u_username u = gq_username req \<and>
           u_hashed_password u = hashPassword (e_sha256 E) (gq_password req) (u_salt u) \<and>
           store_add u (db_users_of V (ds_db s)) (db_users_of V (ds_db t)))) \<and>
      replied i out s (\<lambda>e. \<not> success_reply e) t))"
  by (rule mysql_users.register_result [OF assms])

lemma register_sound_witness:
  "(let t = snd (handleRegister ref_env (MySQLUserRepository ref_env) 1
       \<lparr>gq_username = ''eve'', gq_password = ''apple''\<rparr> ref_state)
    in db_ok ref_env ref_view (ds_db t) \<and> same_login ref_state t \<and>
       map du_username (t_users (rb_tables (ds_db t))) = [''ann'', ''bob'', ''eve''])"
proof -
  let ?r = "handleRegister ref_env (MySQLUserRepository ref_env) 1
    \<lparr>gq_username = ''eve'', gq_password = ''apple''\<rparr> ref_state"
  have ok: "db_ok ref_env ref_view (ds_db ref_state)" by (simp add: ref_state_def ref_db_ok)
  have "map du_username (t_users (rb_tables (ds_db (snd ?r)))) = [''ann'', ''bob'', ''eve'']"
    by (simp add: handleRegister_def register_reply_def draw_salt_def generateSalt_def new_user_def
        session_send_def ref_state_def repo_run ref_run)
  note names = this
  note p = register_sound [OF ok prod.collapse [of ?r, symmetric]]
  show ?thesis
    unfolding Let_def
    by (intro conjI names p [THEN conjunct1] p [THEN conjunct2, THEN conjunct2, THEN conjunct1])
qed

text \<open>C14. Changing the password of an authenticated session changes no login state. The store can
  change only in the record of the session's user, only after the old password was verified, and
  only to a fresh salt with the salted hash of the new password, which is neither empty nor the
  old one; all failing checks leave the store as it is. The success reply is weaker than it looks:
  it also goes out when the store did not change.\<close>

theorem change_password_sound:
  assumes "db_ok E V (ds_db s)"
    and "handleChangePassword E (MySQLUserRepository E) i req s = (out, t)"
    and "isAuthenticated (ss_session s i)" "username (ss_session s i) = Some name"
  shows "db_ok E V (ds_db t) \<and> only_touches i s t \<and> same_login s t \<and> out \<noteq> Undef \<and>
    ((\<exists>u salt. credential_of u \<in> db_users_of V (ds_db s) \<and> dv_same_text V (u_username u) name \<and>
        hashPassword (e_sha256 E) (pq_old_password req) (u_salt u) = u_hashed_password u \<and>
        pq_new_password req \<noteq> [] \<and> pq_new_password req \<noteq> pq_old_password req \<and>
        db_users_of V (ds_db t) \<in> {db_users_of V (ds_db s),
          store_update (u\<lparr>u_salt := salt, u_hashed_password :=
            hashPassword (e_sha256 E) (pq_new_password req) salt\<rparr>) (db_users_of V (ds_db s))} \<and>
        replied i out s success_reply t) \<or>
     (db_users_of V (ds_db t) = db_users_of V (ds_db s) \<and>
      replied i out s (\<lambda>e. \<not> success_reply e) t))"
  by (rule mysql_users.change_password_result [OF assms])

text \<open>The world in which session 0 belongs to ann.\<close>

definition ref_ann :: "ref_db session_state" where
  "ref_ann = snd (manager_registerAuthenticatedSession 0 1 ''ann'' ref_state)"

lemma ref_ann_ok:
  "db_ok ref_env ref_view (ds_db ref_ann)" "db_ok stuck_env ref_view (ds_db ref_ann)"
  "isAuthenticated (ss_session ref_ann 0)" "username (ss_session ref_ann 0) = Some ''ann''"
  by (simp_all add: ref_ann_def register_run ref_state_def ref_db_ok setAuthenticated_def
      isAuthenticated_def)

lemma change_password_sound_witness:
  "(let t = snd (handleChangePassword ref_env (MySQLUserRepository ref_env) 0
       \<lparr>pq_old_password = ''sesame'', pq_new_password = ''open''\<rparr> ref_ann)
    in db_ok ref_env ref_view (ds_db t) \<and> same_login ref_ann t \<and>
       map success_reply (ss_outbox t 0) = [True])"
proof -
  let ?r = "handleChangePassword ref_env (MySQLUserRepository ref_env) 0
    \<lparr>pq_old_password = ''sesame'', pq_new_password = ''open''\<rparr> ref_ann"
  have "map success_reply (ss_outbox (snd ?r) 0) = [True]"
    by (simp add: handleChangePassword_def draw_salt_def generateSalt_def session_send_def
        session_authenticated_def session_username_def getUsername_def isAuthenticated_def
        setAuthenticated_def ref_ann_def register_run ref_state_def update_users_def repo_run ref_run)
  note tables = this
  note p = change_password_sound [OF ref_ann_ok(1) prod.collapse [of ?r, symmetric] ref_ann_ok(3,4)]
  show ?thesis
    unfolding Let_def
    by (intro conjI tables p [THEN conjunct1] p [THEN conjunct2, THEN conjunct2, THEN conjunct1])
qed

text \<open>C15. Changing the name of an authenticated session. The store can change only in the name of
  the session's user, to a non-empty name different from the old one. When the handler returns
  with a success reply the session carries the new name and is registered under it instead of the
  old one; when a check fails neither the store nor any login state changes. A name that a stored
  user has is refused in this way whenever the lookups are answered (a connection is free and the
  server answers queries; a lookup that fails is taken for a free name).\<close>

theorem change_username_sound:
  assumes "db_ok E V (ds_db s)"
    and "handleChangeUsername E (MySQLUserRepository E) i req s = (out, t)"
    and "isAuthenticated (ss_session s i)" "username (ss_session s i) = Some name"
  shows "db_ok E V (ds_db t) \<and> only_touches i s t \<and> out \<noteq> Undef \<and>
    ((\<exists>u. credential_of u \<in> db_users_of V (ds_db s) \<and> dv_same_text V (u_username u) name \<and>
        nq_new_username req \<noteq> [] \<and> nq_new_username req \<noteq> u_username u \<and>
        db_users_of V (ds_db t) \<in> {db_users_of V (ds_db s),
          store_update (u\<lparr>u_username := nq_new_username req\<rparr>) (db_users_of V (ds_db s))} \<and>
        ((out = Ret () \<and>
          ss_session t i = setUsername (nq_new_username req) (ss_session s i) \<and>
          ss_byUserId t = ss_byUserId s \<and>
          ss_byUsername t = (ss_byUsername s)(name := None, nq_new_username req \<mapsto> i)) \<or>
         (out \<noteq> Ret () \<and> same_login s t)) \<and>
        replied i out s success_reply t) \<or>
     (db_users_of V (ds_db t) = db_users_of V (ds_db s) \<and> same_login s t \<and>
      replied i out s (\<lambda>e. \<not> success_reply e) t)) \<and>
    (engine_up E s \<and>
     (\<exists>c \<in> db_users_of V (ds_db s). dv_same_text V (cred_name c) (nq_new_username req)) \<longrightarrow>
       out = Ret () \<and> same_login s t \<and> db_users_of V (ds_db t) = db_users_of V (ds_db s) \<and>
       replied i out s (\<lambda>e. \<not> success_reply e) t)"
  using mysql_users.change_username_result [OF assms] mysql_reliable.taken_name_refused [OF assms(1) _ assms(3,4) _ _ assms(2)]
  by (intro conjI impI) blast+

lemmas auth_run =
  handleLogin_def handleRegister_def register_reply_def handleChangePassword_def
  handleChangeUsername_def draw_salt_def generateSalt_def new_user_def session_send_def
  session_authenticated_def session_username_def getUsername_def isAuthenticated_def
  setAuthenticated_def setUsername_def manager_updateUsername_def on_session_def update_users_def

lemma change_username_sound_witness:
  "(let t = snd (handleChangeUsername ref_env (MySQLUserRepository ref_env) 0
       \<lparr>nq_new_username = ''anna''\<rparr> ref_ann)
    in db_ok ref_env ref_view (ds_db t) \<and> only_touches 0 ref_ann t \<and>
       map du_username (t_users (rb_tables (ds_db t))) = [''anna'', ''bob''] \<and>
       ss_byUsername t ''ann'' = None \<and> ss_byUsername t ''anna'' = Some 0)"
proof -
  let ?r = "handleChangeUsername ref_env (MySQLUserRepository ref_env) 0
    \<lparr>nq_new_username = ''anna''\<rparr> ref_ann"
  have "map du_username (t_users (rb_tables (ds_db (snd ?r)))) = [''anna'', ''bob'']"
    "ss_byUsername (snd ?r) ''ann'' = None" "ss_byUsername (snd ?r) ''anna'' = Some 0"
    by (simp_all add: ref_ann_def register_run ref_state_def auth_run repo_run ref_run)
  note run = this
  note p = change_username_sound [OF ref_ann_ok(1) prod.collapse [of ?r, symmetric] ref_ann_ok(3,4)]
  show ?thesis
    unfolding Let_def
    by (intro conjI run p [THEN conjunct1] p [THEN conjunct2, THEN conjunct1])
qed



end
