(* ===== verification/Chat_Store.thy ===== *)
theory Chat_Store
  imports Room_Store Room_Membership Auth_Service
begin

text \<open>
  The three repositories together, as the server owns them: the contract \<open>chat_store\<close> joins the
  three interfaces and says what each of them leaves alone. From it follows what the services
  keep: \<open>service_ok\<close>, which ties the active rooms and the logged-in sessions to the stored rooms
  and users.
\<close>

section \<open>The contract\<close>

locale chat_store =
  user_store users_repo users same invar +
  rs: room_store rooms_repo stored same invar +
  ms: message_store messages_repo log invar
  for users_repo :: "('db, 'z) service_state_scheme user_repository"
    and rooms_repo :: "('db, 'z) service_state_scheme room_repository"
    and messages_repo :: "('db, 'z) service_state_scheme message_repository"
    and users :: "'db \<Rightarrow> credential set" and stored :: "'db \<Rightarrow> stored_room set"
    and log :: "'db \<Rightarrow> stored_message multiset"
    and same :: "string \<Rightarrow> string \<Rightarrow> bool" and invar :: "'db \<Rightarrow> bool" +
  assumes user_methods_keep:
      "invar (ds_db s) \<Longrightarrow> findByUsername users_repo n s = (o1, t) \<Longrightarrow>
       stored (ds_db t) = stored (ds_db s) \<and> log (ds_db t) = log (ds_db s)"
      "invar (ds_db s) \<Longrightarrow> findByUserId users_repo i s = (o2, t) \<Longrightarrow>
       stored (ds_db t) = stored (ds_db s) \<and> log (ds_db t) = log (ds_db s)"
      "invar (ds_db s) \<Longrightarrow> addUser users_repo u s = (o3, t) \<Longrightarrow>
       stored (ds_db t) = stored (ds_db s) \<and> log (ds_db t) = log (ds_db s)"
      "invar (ds_db s) \<Longrightarrow> updateUser users_repo u s = (o4, t) \<Longrightarrow>
       stored (ds_db t) = stored (ds_db s) \<and> log (ds_db t) = log (ds_db s)"
    and room_methods_keep:
      "invar (ds_db s) \<Longrightarrow> findByRoomName rooms_repo n s = (o5, t) \<Longrightarrow>
       users (ds_db t) = users (ds_db s) \<and> log (ds_db t) = log (ds_db s)"
      "invar (ds_db s) \<Longrightarrow> addRoom rooms_repo r s = (o6, t) \<Longrightarrow>
       users (ds_db t) = users (ds_db s) \<and> log (ds_db t) = log (ds_db s)"
    and message_methods_keep:
      "invar (ds_db s) \<Longrightarrow> addMessage messages_repo m s = (o7, t) \<Longrightarrow>
       users (ds_db t) = users (ds_db s) \<and> stored (ds_db t) = stored (ds_db s)"
      "invar (ds_db s) \<Longrightarrow> findLatestByRoomId messages_repo i k s = (o8, t) \<Longrightarrow>
       users (ds_db t) = users (ds_db s) \<and> stored (ds_db t) = stored (ds_db s)"
    and user_ids_positive: "invar d \<Longrightarrow> c \<in> users d \<Longrightarrow> 0 < sint (cred_id c)"
    and room_ids: "invar d \<Longrightarrow> x \<in> stored d \<Longrightarrow> y \<in> stored d \<Longrightarrow> fst x = fst y \<Longrightarrow> x = y"

text \<open>
  Sessions and members are stored users; \<open>ids\<close> are the ids of the stored users.
\<close>

definition logins_known :: "long_long set \<Rightarrow> ('db, 'z) service_state_scheme \<Rightarrow> bool" where
  "logins_known ids s \<longleftrightarrow>
     (\<forall>i u. userId (ss_session s i) = Some u \<longrightarrow> u \<in> ids) \<and>
     (\<forall>r u. seat s r u \<noteq> None \<longrightarrow> u \<in> ids)"

lemma logins_known_mono: "logins_known ids s \<Longrightarrow> ids \<subseteq> ids' \<Longrightarrow> logins_known ids' s"
  unfolding logins_known_def by blast

definition tables_ok ::
    "(string \<Rightarrow> string \<Rightarrow> bool) \<Rightarrow> stored_room set \<Rightarrow> long_long set \<Rightarrow>
     ('db, 'z) service_state_scheme \<Rightarrow> bool" where
  "tables_ok same K ids s \<longleftrightarrow>
     registry_ok s \<and> rooms_ok s \<and> rooms_known same K (rs_activeRooms s) \<and> logins_known ids s"

lemma tables_ok_mono:
  "tables_ok same K ids s \<Longrightarrow> K \<subseteq> K' \<Longrightarrow> ids \<subseteq> ids' \<Longrightarrow> tables_ok same K' ids' s"
  by (auto simp: tables_ok_def intro: rooms_known_mono logins_known_mono)

text \<open>It depends on nothing in the data layer, nor on the outboxes.\<close>

lemma frame_service_state:
  fixes s t :: "('db, 'z) service_state_scheme"
  assumes "data_state.more t = data_state.more s"
  shows "rs_activeRooms t = rs_activeRooms s" "rs_userToRoom t = rs_userToRoom s"
    "service_state.more t = service_state.more s"
  using assms by (cases s; cases t; simp)+

lemma tables_ok_frame:
  fixes s t :: "('db, 'z) service_state_scheme"
  assumes "data_state.more t = data_state.more s"
  shows "tables_ok same K ids t = tables_ok same K ids s" "place t = place s" "exact t = exact s"
  using frame_service_state [OF assms] frame_session_state [OF assms]
  by (simp_all add: tables_ok_def registry_ok_def rooms_ok_def logins_known_def exact_def
      place_def [abs_def] cong: option.case_cong)

lemma tables_ok_outbox [simp]:
  "tables_ok same K ids (s\<lparr>ss_outbox := f\<rparr>) = tables_ok same K ids s"
  "place (s\<lparr>ss_outbox := f\<rparr>) = place s" "exact (s\<lparr>ss_outbox := f\<rparr>) = exact s"
  "rooms_ok (s\<lparr>ss_outbox := f\<rparr>) = rooms_ok s" "registry_ok (s\<lparr>ss_outbox := f\<rparr>) = registry_ok s"
  by (simp_all add: tables_ok_def registry_ok_def rooms_ok_def logins_known_def exact_def
      place_def [abs_def] cong: option.case_cong)

text \<open>What the changes of the room tables need to keep it.\<close>

lemma tables_ok_changes:
  assumes "tables_ok same K ids s"
  shows "tables_ok same K ids (leave_current uid s)" "tables_ok same K ids (leave_room uid name s)"
    "isAuthenticated (ss_session s i) \<Longrightarrow> uid \<in> ids \<Longrightarrow>
       (r_id room, r_name room, r_creator_id room) \<in> K \<Longrightarrow> same (r_name room) name \<Longrightarrow>
       tables_ok same K ids (enter_room uid i name room s)"
    "isAuthenticated (ss_session s i) \<Longrightarrow> uid \<in> ids \<Longrightarrow>
       (r_id room, r_name room, uid) \<in> K \<Longrightarrow> same (r_name room) name \<Longrightarrow>
       tables_ok same K ids (open_room uid i name room s)"
    "rs_userToRoom s uid = Some name \<Longrightarrow> tables_ok same K ids (close_membership uid name s)"
proof -
  have reg: "registry_ok t = registry_ok s" if "ss_session t = ss_session s"
    "ss_byUserId t = ss_byUserId s" "ss_byUsername t = ss_byUsername s" for t
    using that by (simp add: registry_ok_def)
  have log: "logins_known ids t" if "ss_session t = ss_session s"
    "\<And>r u. seat t r u \<noteq> None \<Longrightarrow> u \<in> ids \<or> seat s r u \<noteq> None" for t
    using that assms unfolding tables_ok_def logins_known_def by metis
  have s: "registry_ok s" "rooms_ok s" "rooms_known same K (rs_activeRooms s)" "logins_known ids s"
    using assms by (simp_all add: tables_ok_def)
  note ok = rooms_ok_changes [OF s(2)] known_changes [OF s(3)]
  show "tables_ok same K ids (leave_current uid s)" "tables_ok same K ids (leave_room uid name s)"
    by (auto simp: tables_ok_def reg s(1) ok seat_changes intro!: log split: if_splits)
  show "tables_ok same K ids (enter_room uid i name room s)"
    if "isAuthenticated (ss_session s i)" "uid \<in> ids"
    "(r_id room, r_name room, r_creator_id room) \<in> K" "same (r_name room) name"
    using that by (auto simp: tables_ok_def reg s(1) ok seat_changes intro!: log split: if_splits)
  show "tables_ok same K ids (open_room uid i name room s)"
    if "isAuthenticated (ss_session s i)" "uid \<in> ids" "(r_id room, r_name room, uid) \<in> K"
    "same (r_name room) name"
    using that by (auto simp: tables_ok_def reg s(1) ok seat_changes intro!: log split: if_splits)
  show "tables_ok same K ids (close_membership uid name s)" if "rs_userToRoom s uid = Some name"
    using that by (auto simp: tables_ok_def reg s(1) ok seat_changes intro!: log split: if_splits)
qed

section \<open>The MySQL repositories together\<close>

text \<open>Which tables the methods can change.\<close>

lemma read_post_tables: "read_post V Q T out d \<Longrightarrow> dv_tables V d = T"
  by (simp add: read_post_def)

lemma add_post_tables: "add_post V st upd T out d \<Longrightarrow> maybe_inserted V st T (dv_tables V d)"
  by (cases out) (auto simp: add_post_def added_def maybe_inserted_def split: option.splits)

lemma maybe_inserted_tables:
  "maybe_inserted V (Insert_user n h x) T T' \<Longrightarrow> t_rooms T' = t_rooms T \<and> t_messages T' = t_messages T"
  "maybe_inserted V (Insert_room n c) T T' \<Longrightarrow> t_users T' = t_users T \<and> t_messages T' = t_messages T"
  "maybe_inserted V (Insert_message r w z) T T' \<Longrightarrow> t_users T' = t_users T \<and> t_rooms T' = t_rooms T"
  by (auto simp: maybe_inserted_def inserted.simps)

lemma updateUser_tables:
  assumes "engine_ok E V" "idle V (ds_db s)" "MySQL_updateUser E u s = (out, t)"
  shows "t_rooms (dv_tables V (ds_db t)) = t_rooms (dv_tables V (ds_db s)) \<and>
    t_messages (dv_tables V (ds_db t)) = t_messages (dv_tables V (ds_db s))"
  using updateUser_fact [OF assms]
  by (cases out) (auto simp: method_post_def updated_user_def maybe_updated_def changed.simps
      split: if_splits)

lemmas repository_fields = MySQLUserRepository_def MySQLRoomRepository_def MySQLMessageRepository_def

lemma mysql_reads_keep:
  fixes s t :: "('db, 'z) session_state_scheme"
  assumes eng: "engine_ok E V" "idle V (ds_db s)"
  shows "findByUsername (MySQLUserRepository E) n s = (o1, t) \<Longrightarrow> dv_tables V (ds_db t) = dv_tables V (ds_db s)"
    "findByUserId (MySQLUserRepository E) i s = (o1, t) \<Longrightarrow> dv_tables V (ds_db t) = dv_tables V (ds_db s)"
    "findByRoomName (MySQLRoomRepository E) n s = (o2, t) \<Longrightarrow> dv_tables V (ds_db t) = dv_tables V (ds_db s)"
    "findLatestByRoomId (MySQLMessageRepository E) i k s = (o3, t) \<Longrightarrow>
       dv_tables V (ds_db t) = dv_tables V (ds_db s)"
proof -
  show "dv_tables V (ds_db t) = dv_tables V (ds_db s)"
    if "findByUsername (MySQLUserRepository E) n s = (o1, t)"
    by (rule findByUsername_fact [OF eng, THEN read_post_tables])
      (use that in \<open>simp add: repository_fields\<close>)
  show "dv_tables V (ds_db t) = dv_tables V (ds_db s)"
    if "findByUserId (MySQLUserRepository E) i s = (o1, t)"
    by (rule findByUserId_fact [OF eng, THEN read_post_tables])
      (use that in \<open>simp add: repository_fields\<close>)
  show "dv_tables V (ds_db t) = dv_tables V (ds_db s)"
    if "findByRoomName (MySQLRoomRepository E) n s = (o2, t)"
    by (rule find_room_fact [OF eng, THEN read_post_tables])
      (use that in \<open>simp add: repository_fields MySQL_findByRoomName_def\<close>)
  show "dv_tables V (ds_db t) = dv_tables V (ds_db s)"
    if "findLatestByRoomId (MySQLMessageRepository E) i k s = (o3, t)"
    by (rule list_messages_fact [OF eng, THEN read_post_tables])
      (use that in \<open>simp add: repository_fields MySQL_findLatestByRoomId_def\<close>)
qed

lemma mysql_adds_keep:
  fixes s t :: "('db, 'z) session_state_scheme"
  assumes eng: "engine_ok E V" "idle V (ds_db s)"
  shows "addUser (MySQLUserRepository E) u s = (o1, t) \<Longrightarrow>
      t_rooms (dv_tables V (ds_db t)) = t_rooms (dv_tables V (ds_db s)) \<and>
      t_messages (dv_tables V (ds_db t)) = t_messages (dv_tables V (ds_db s))"
    "addRoom (MySQLRoomRepository E) r s = (o2, t) \<Longrightarrow>
      t_users (dv_tables V (ds_db t)) = t_users (dv_tables V (ds_db s)) \<and>
      t_messages (dv_tables V (ds_db t)) = t_messages (dv_tables V (ds_db s))"
    "addMessage (MySQLMessageRepository E) m s = (o3, t) \<Longrightarrow>
      t_users (dv_tables V (ds_db t)) = t_users (dv_tables V (ds_db s)) \<and>
      t_rooms (dv_tables V (ds_db t)) = t_rooms (dv_tables V (ds_db s))"
    "updateUser (MySQLUserRepository E) u s = (o4, t) \<Longrightarrow>
      t_rooms (dv_tables V (ds_db t)) = t_rooms (dv_tables V (ds_db s)) \<and>
      t_messages (dv_tables V (ds_db t)) = t_messages (dv_tables V (ds_db s))"
proof -
  show "t_rooms (dv_tables V (ds_db t)) = t_rooms (dv_tables V (ds_db s)) \<and>
      t_messages (dv_tables V (ds_db t)) = t_messages (dv_tables V (ds_db s))"
    if "addUser (MySQLUserRepository E) u s = (o1, t)"
    by (rule addUser_fact [OF eng, THEN add_post_tables, THEN maybe_inserted_tables(1)])
      (use that in \<open>simp add: repository_fields\<close>)
  show "t_users (dv_tables V (ds_db t)) = t_users (dv_tables V (ds_db s)) \<and>
      t_messages (dv_tables V (ds_db t)) = t_messages (dv_tables V (ds_db s))"
    if "addRoom (MySQLRoomRepository E) r s = (o2, t)"
    by (rule addRoom_fact [OF eng, THEN add_post_tables, THEN maybe_inserted_tables(2)])
      (use that in \<open>simp add: repository_fields\<close>)
  show "t_users (dv_tables V (ds_db t)) = t_users (dv_tables V (ds_db s)) \<and>
      t_rooms (dv_tables V (ds_db t)) = t_rooms (dv_tables V (ds_db s))"
    if "addMessage (MySQLMessageRepository E) m s = (o3, t)"
    by (rule addMessage_fact [OF eng, THEN add_post_tables, THEN maybe_inserted_tables(3)])
      (use that in \<open>simp add: repository_fields\<close>)
  show "t_rooms (dv_tables V (ds_db t)) = t_rooms (dv_tables V (ds_db s)) \<and>
      t_messages (dv_tables V (ds_db t)) = t_messages (dv_tables V (ds_db s))"
    if "updateUser (MySQLUserRepository E) u s = (o4, t)"
    by (rule updateUser_tables [OF eng]) (use that in \<open>simp add: repository_fields\<close>)
qed

interpretation mysql_chat: chat_store "MySQLUserRepository E" "MySQLRoomRepository E"
    "MySQLMessageRepository E" "db_users_of V" "db_rooms_of V" "db_log_of V" "dv_same_text V"
    "db_ok E V" for E V
proof (intro chat_store.intro chat_store_axioms.intro mysql_users.user_store_axioms
    mysql_rooms.room_store_axioms mysql_messages.message_store_axioms)
  fix s t :: "('a, 'b) service_state_scheme"
  assume "db_ok E V (ds_db s)"
  then have eng: "engine_ok E V" "idle V (ds_db s)" by (simp_all add: db_ok_def)
  note reads = mysql_reads_keep [OF eng] and adds = mysql_adds_keep [OF eng]
  show "db_rooms_of V (ds_db t) = db_rooms_of V (ds_db s) \<and> db_log_of V (ds_db t) = db_log_of V (ds_db s)"
    if "findByUsername (MySQLUserRepository E) n s = (out, t)" for n out
    using reads(1) [OF that] by (simp add: db_rooms_of_def db_log_of_def)
  show "db_rooms_of V (ds_db t) = db_rooms_of V (ds_db s) \<and> db_log_of V (ds_db t) = db_log_of V (ds_db s)"
    if "findByUserId (MySQLUserRepository E) n s = (out, t)" for n out
    using reads(2) [OF that] by (simp add: db_rooms_of_def db_log_of_def)
  show "db_rooms_of V (ds_db t) = db_rooms_of V (ds_db s) \<and> db_log_of V (ds_db t) = db_log_of V (ds_db s)"
    if "addUser (MySQLUserRepository E) u s = (out, t)" for u out
    using adds(1) [OF that] by (simp add: db_rooms_of_def db_log_of_def)
  show "db_rooms_of V (ds_db t) = db_rooms_of V (ds_db s) \<and> db_log_of V (ds_db t) = db_log_of V (ds_db s)"
    if "updateUser (MySQLUserRepository E) u s = (out, t)" for u out
    using adds(4) [OF that] by (simp add: db_rooms_of_def db_log_of_def)
  show "db_users_of V (ds_db t) = db_users_of V (ds_db s) \<and> db_log_of V (ds_db t) = db_log_of V (ds_db s)"
    if "findByRoomName (MySQLRoomRepository E) n s = (out, t)" for n out
    using reads(3) [OF that] by (simp add: db_users_of_def db_log_of_def)
  show "db_users_of V (ds_db t) = db_users_of V (ds_db s) \<and> db_log_of V (ds_db t) = db_log_of V (ds_db s)"
    if "addRoom (MySQLRoomRepository E) r s = (out, t)" for r out
    using adds(2) [OF that] by (simp add: db_users_of_def db_log_of_def)
  show "db_users_of V (ds_db t) = db_users_of V (ds_db s) \<and> db_rooms_of V (ds_db t) = db_rooms_of V (ds_db s)"
    if "addMessage (MySQLMessageRepository E) m s = (out, t)" for m out
    using adds(3) [OF that] by (simp add: db_rooms_of_def db_users_of_def)
  show "db_users_of V (ds_db t) = db_users_of V (ds_db s) \<and> db_rooms_of V (ds_db t) = db_rooms_of V (ds_db s)"
    if "findLatestByRoomId (MySQLMessageRepository E) i k s = (out, t)" for i k out
    using reads(4) [OF that] by (simp add: db_rooms_of_def db_users_of_def)
next
  fix d c assume "db_ok E V d" "c \<in> db_users_of V d"
  then show "0 < sint (cred_id c)"
    by (auto simp: db_ok_def schema_ok_def db_users_of_def sint_scast_int32)
next
  fix d x y assume ok: "db_ok E V d" and x: "x \<in> db_rooms_of V d" "y \<in> db_rooms_of V d" "fst x = fst y"
  from x obtain a b where ab: "a \<in> set (t_rooms (dv_tables V d))" "b \<in> set (t_rooms (dv_tables V d))"
    "x = row_stored a" "y = row_stored b" "dr_id a = dr_id b"
    by (auto simp: db_rooms_of_def scast_int32_inject)
  moreover have "inj_on dr_id (set (t_rooms (dv_tables V d)))"
    using ok by (simp add: db_ok_def schema_ok_def distinct_map)
  ultimately show "x = y" by (metis inj_onD)
qed

end
