(* ===== verification/Room_Facts.thy ===== *)
theory Room_Facts
  imports Chat_Store
begin

text \<open>
  What the room operations do, from the contract of the stores: which state they leave, whom they
  tell, and that they keep \<open>service_ok\<close>. The one map \<open>place\<close> is their specification: a join moves
  the user, a leave empties the place if it is in the named room, a create fills it.
\<close>

section \<open>The invariant of the services\<close>

definition service_ok ::
    "('db \<Rightarrow> credential set) \<Rightarrow> ('db \<Rightarrow> stored_room set) \<Rightarrow> (string \<Rightarrow> string \<Rightarrow> bool) \<Rightarrow>
     ('db \<Rightarrow> bool) \<Rightarrow> ('db, 'z) service_state_scheme \<Rightarrow> bool" where
  "service_ok users stored same invar s \<longleftrightarrow>
     invar (ds_db s) \<and>
     tables_ok same (stored (ds_db s)) (cred_id ` users (ds_db s)) s"

lemma service_okD:
  assumes "service_ok users stored same invar s"
  shows "invar (ds_db s)" "registry_ok s" "rooms_ok s"
    "rooms_known same (stored (ds_db s)) (rs_activeRooms s)"
    "logins_known (cred_id ` users (ds_db s)) s" "rooms_wf (rs_activeRooms s)"
  using assms by (simp_all add: service_ok_def tables_ok_def rooms_ok_def)

text \<open>After a repository method: the tables as before, the stores grown.\<close>

lemma service_ok_grow:
  fixes s t :: "('db, 'z) service_state_scheme"
  assumes "service_ok users stored same invar s" "invar (ds_db t)"
    and "stored (ds_db s) \<subseteq> stored (ds_db t)"
    and "cred_id ` users (ds_db s) \<subseteq> cred_id ` users (ds_db t)"
    and "data_state.more t = data_state.more s"
  shows "service_ok users stored same invar t"
proof -
  have "tables_ok same (stored (ds_db t)) (cred_id ` users (ds_db t)) s"
    using assms(1) by (intro tables_ok_mono [OF _ assms(3,4)]) (simp add: service_ok_def)
  with assms(2) show ?thesis by (simp add: service_ok_def tables_ok_frame(1) [OF assms(5)])
qed

lemma service_ok_outbox [simp]:
  "service_ok users stored same invar (s\<lparr>ss_outbox := f\<rparr>) = service_ok users stored same invar s"
  by (simp add: service_ok_def)

section \<open>Announcements\<close>

text \<open>
  The state after an announcement to a room and a reply to the session that caused it.
\<close>

definition told ::
    "('db, 'z) service_state_scheme \<Rightarrow> string \<Rightarrow> long_long \<Rightarrow> envelope \<Rightarrow> sid \<Rightarrow> envelope \<Rightarrow>
     ('db, 'z) service_state_scheme" where
  "told s r x e i reply =
     s\<lparr>ss_outbox := (\<lambda>j. ss_outbox s j @ replicate (reached s r x j) e @
        (if j = i then [reply] else []))\<rparr>"

lemma told_simps [simp]:
  "ds_db (told s r x e i reply) = ds_db s" "ss_session (told s r x e i reply) = ss_session s"
  "rs_activeRooms (told s r x e i reply) = rs_activeRooms s"
  "rs_userToRoom (told s r x e i reply) = rs_userToRoom s"
  "service_ok users stored same invar (told s r x e i reply) = service_ok users stored same invar s"
  "place (told s r x e i reply) = place s" "exact (told s r x e i reply) = exact s"
  "ss_outbox (told s r x e i reply) j = ss_outbox s j @ replicate (reached s r x j) e @
     (if j = i then [reply] else [])"
  by (simp_all add: told_def)

lemma announce_run:
  assumes "rooms_wf (rs_activeRooms s)"
  shows "cthen (broadcastToRoom r e x) (session_send i reply) s = (Ret (), told s r x e i reply)"
  by (auto simp: cthen_def cbind_def broadcast_run [OF assms] session_send_apply told_def
      intro!: arg_cong [where f = "\<lambda>g. s\<lparr>ss_outbox := g\<rparr>"])

definition room_success :: "envelope \<Rightarrow> bool" where
  "room_success e \<longleftrightarrow>
     (case payload e of Some (RoomOperationResponse r) \<Rightarrow> op_success r | _ \<Rightarrow> False)"

lemma room_success_simps [simp]:
  "room_success (room_response req b msg) = b"
  "room_success (envelope_with (RoomOperationResponse r)) = op_success r"
  by (simp_all add: room_success_def room_response_def)

text \<open>An operation that changes nothing and says so, or does not return.\<close>

definition refused ::
    "sid \<Rightarrow> unit outcome \<Rightarrow> ('db, 'z) service_state_scheme \<Rightarrow> ('db, 'z) service_state_scheme \<Rightarrow> bool" where
  "refused i out s t \<longleftrightarrow>
     (\<exists>u. data_state.more u = data_state.more s \<and>
        ((\<exists>e. out = Ret () \<and> \<not> room_success e \<and> t = snd (session_send i e u)) \<or>
         (out \<noteq> Ret () \<and> t = u)))"

lemma refused_same:
  fixes s t :: "('db, 'z) service_state_scheme"
  assumes "refused i out s t"
  shows "place t = place s" "exact t = exact s" "rs_activeRooms t = rs_activeRooms s"
    "rs_userToRoom t = rs_userToRoom s" "ss_session t = ss_session s"
    "\<And>j. j \<noteq> i \<Longrightarrow> ss_outbox t j = ss_outbox s j"
    "replied i out s (\<lambda>e. \<not> room_success e) t"
proof -
  obtain u where u: "data_state.more u = data_state.more s"
    "(\<exists>e. out = Ret () \<and> \<not> room_success e \<and> t = snd (session_send i e u)) \<or> (out \<noteq> Ret () \<and> t = u)"
    using assms by (auto simp: refused_def)
  note f = tables_ok_frame(2,3) [OF u(1)] frame_service_state [OF u(1)] frame_session_state [OF u(1)]
  show "place t = place s" "exact t = exact s" "rs_activeRooms t = rs_activeRooms s"
    "rs_userToRoom t = rs_userToRoom s" "ss_session t = ss_session s"
    "\<And>j. j \<noteq> i \<Longrightarrow> ss_outbox t j = ss_outbox s j"
    "replied i out s (\<lambda>e. \<not> room_success e) t"
    using u(2) by (auto simp: session_send_apply f replied_def)
qed

lemma refused_send:
  fixes s u :: "('db, 'z) service_state_scheme"
  assumes "session_send i e u = (out, t)" "data_state.more u = data_state.more s" "\<not> room_success e"
  shows "refused i out s t \<and> out = Ret () \<and> ds_db t = ds_db u"
  unfolding refused_def using assms by (auto simp: session_send_apply intro!: exI [of _ u])

lemma refused_stop:
  "out \<noteq> Ret () \<Longrightarrow> data_state.more t = data_state.more s \<Longrightarrow> refused i out s t"
  by (auto simp: refused_def)

text \<open>The specification of the three operations on the one map.\<close>

definition place_step ::
    "sid \<Rightarrow> long_long \<Rightarrow> room_operation_request \<Rightarrow> (long_long \<Rightarrow> (string \<times> sid) option) \<Rightarrow>
     long_long \<Rightarrow> (string \<times> sid) option" where
  "place_step i uid req p =
     (case oq_operation req of
        LEAVE \<Rightarrow> (if map_option fst (p uid) = Some (oq_room_name req) then p(uid := None) else p)
      | Other_operation n \<Rightarrow> p
      | _ \<Rightarrow> p(uid \<mapsto> (oq_room_name req, i)))"

section \<open>The operations\<close>

lemma session_getter_bind:
  "userId (ss_session s i) = Some uid \<Longrightarrow> cbind (session_user_id i) f s = f uid s"
  "username (ss_session s i) = Some n \<Longrightarrow> cbind (session_username i) g s = g n s"
  by (simp_all add: session_user_id_def getUserId_def session_username_def getUsername_def cbind_def)

lemma session_authenticated_bind:
  "cbind (session_authenticated i) f s = f (isAuthenticated (ss_session s i)) s"
  by (simp add: session_authenticated_def)

lemma disconnect_run:
  assumes "rooms_wf (rs_activeRooms s)" "isAuthenticated (ss_session s i)"
    and uid: "userId (ss_session s i) = Some uid" and n: "username (ss_session s i) = Some n"
    and "rs_userToRoom s uid = Some r"
  shows "handleDisconnect i s = (Ret (), close_membership uid r (s\<lparr>ss_outbox := (\<lambda>j. ss_outbox s j @
    replicate (reached s r uid j) (member_event USER_LEFT uid n '' has left the room.''))\<rparr>))"
    (is "_ = (_, ?t)")
proof -
  have "cthen (broadcastToRoom r (member_event USER_LEFT uid n '' has left the room.'') uid)
      (cmodify (close_membership uid r)) s = (Ret (), ?t)"
    by (simp add: cthen_def cbind_def broadcast_run [OF assms(1)])
  then show ?thesis
    by (simp add: handleDisconnect_def session_authenticated_bind assms(2,5)
        session_getter_bind(1) [OF uid] session_getter_bind(2) [OF n])
qed

context chat_store
begin

abbreviation ok :: "('db, 'z) service_state_scheme \<Rightarrow> bool" where
  "ok \<equiv> service_ok users stored same invar"

lemma ok_login:
  assumes "ok s" "isAuthenticated (ss_session s i)"
  obtains uid n where "userId (ss_session s i) = Some uid" "username (ss_session s i) = Some n"
    "uid \<in> cred_id ` users (ds_db s)" "session_user_id i s = (Ret uid, s)"
    "session_username i s = (Ret n, s)"
proof -
  from registry_ok_getters [OF service_okD(2) [OF assms(1)] assms(2)] obtain uid n where
    g: "session_user_id i s = (Ret uid, s)" "session_username i s = (Ret n, s)"
    "userId (ss_session s i) = Some uid" "username (ss_session s i) = Some n" by blast
  moreover have "uid \<in> cred_id ` users (ds_db s)"
    using service_okD(5) [OF assms(1)] g(3) by (auto simp: logins_known_def)
  ultimately show thesis by (intro that)
qed

lemma username_apply: "username (ss_session s i) = Some n \<Longrightarrow> session_username i s = (Ret n, s)"
  by (simp add: session_username_def getUsername_def)

lemma find_room_cases:
  fixes s :: "('db, 'z) service_state_scheme"
  assumes "ok s" "cbind (findByRoomName rooms_repo n) f s = (out, t)"
  obtains (stopped) "out \<noteq> Ret ()" "out \<noteq> Undef" "ok t" "stored (ds_db t) = stored (ds_db s)"
      "users (ds_db t) = users (ds_db s)" "data_state.more t = data_state.more s"
    | (found) a u where "f a u = (out, t)" "ok u" "stored (ds_db u) = stored (ds_db s)"
      "users (ds_db u) = users (ds_db s)" "data_state.more u = data_state.more s"
      "\<And>x. a = Some x \<Longrightarrow> stored_as x \<in> stored (ds_db s) \<and> same (r_name x) n"
proof -
  have inv: "invar (ds_db s)" using service_okD [OF assms(1)] by simp
  have keep: "ok u \<and> stored (ds_db u) = stored (ds_db s) \<and> users (ds_db u) = users (ds_db s) \<and>
      data_state.more u = data_state.more s \<and> o1 \<noteq> Undef \<and>
      (\<forall>x. o1 = Ret (Some x) \<longrightarrow> stored_as x \<in> stored (ds_db s) \<and> same (r_name x) n)"
    if "findByRoomName rooms_repo n s = (o1, u)" for o1 u
    using rs.find [OF inv that] room_methods_keep(1) [OF inv that]
      service_ok_grow [of users stored same invar s u] assms(1) by simp
  from assms(2) show thesis
  proof (cases rule: cbindE)
    case (returned a u)
    from keep [OF returned(1)] show thesis by (intro found [OF returned(2)]) auto
  qed (use keep stopped in fastforce)+
qed

text \<open>A join: the user's place becomes the room, and everybody else in it is told.\<close>

lemma join_result:
  assumes s: "ok s" and i: "isAuthenticated (ss_session s i)" "userId (ss_session s i) = Some uid"
    and n: "username (ss_session s i) = Some n"
    and run: "join_operation rooms_repo i uid req s = (out, t)"
  shows "ok t \<and> out \<noteq> Undef \<and> users (ds_db t) = users (ds_db s) \<and>
    ((\<exists>room u. out = Ret () \<and> data_state.more u = data_state.more s \<and>
        stored_as room \<in> stored (ds_db t) \<and> same (r_name room) (oq_room_name req) \<and>
        t = told (enter_room uid i (oq_room_name req) room (leave_current uid u)) (oq_room_name req)
          uid (member_event USER_JOINED uid n '' has joined the room.'') i
          (room_response req True (''Joined room '' @ oq_room_name req @ '' successfully.''))) \<or>
     refused i out s t)"
proof -
  let ?r = "oq_room_name req"
  from s run [unfolded join_operation_def Let_def] show ?thesis
  proof (cases rule: find_room_cases)
    case stopped
    then show ?thesis using refused_stop by blast
  next
    case (found a u)
    note f = frame_session_state [OF found(5)]
    show ?thesis
    proof (cases a)
      case None
      from found(1) [unfolded None option.case] have "refused i out s t \<and> out = Ret () \<and> ds_db t = ds_db u"
        by (rule refused_send [OF _ found(5)]) (simp add: room_operation_response_default_def)
      moreover from found(1) [unfolded None option.case] found(2) have "ok t"
        by (auto simp: session_send_apply)
      ultimately show ?thesis using found(3,4) by auto
    next
      case (Some room)
      let ?v = "enter_room uid i ?r room (leave_current uid u)"
      have room: "stored_as room \<in> stored (ds_db u)" "same (r_name room) ?r"
        using found(3,6) Some by auto
      have "uid \<in> cred_id ` users (ds_db u)"
        using service_okD(5) [OF s] i(2) found(4) by (auto simp: logins_known_def)
      then have v: "ok ?v"
        using found(2) i room unfolding service_ok_def stored_as_def
        by (auto simp: f intro!: tables_ok_changes)
      have "session_username i ?v = (Ret n, ?v)" by (rule username_apply) (simp add: f n)
      then have "out = Ret () \<and> t = told ?v ?r uid
          (member_event USER_JOINED uid n '' has joined the room.'') i
          (room_response req True (''Joined room '' @ ?r @ '' successfully.''))"
        using found(1) [unfolded Some option.case]
        by (simp only: cthen_cmodify cbind_Ret announce_run [OF service_okD(6) [OF v]] prod.inject)
      moreover from this v have "ok t" "ds_db t = ds_db u" by simp_all
      ultimately show ?thesis using room found(4,5) by auto
    qed
  qed
qed

text \<open>A leave: the place is emptied if it is the named room; that room is told in any case.\<close>

lemma leave_result:
  assumes s: "ok s" and n: "username (ss_session s i) = Some n"
    and run: "leave_operation i uid req s = (out, t)"
  shows "ok t \<and> out = Ret () \<and> ds_db t = ds_db s \<and>
    t = told (leave_room uid (oq_room_name req) s) (oq_room_name req)
      uid (member_event USER_LEFT uid n '' has left the room.'') i
      (room_response req True (''Left room '' @ oq_room_name req @ '' successfully.''))"
proof -
  let ?r = "oq_room_name req"
  let ?v = "leave_room uid ?r s"
  have v: "ok ?v" using s by (simp add: service_ok_def tables_ok_changes)
  have "session_username i ?v = (Ret n, ?v)" by (rule username_apply) (simp add: n)
  then have "out = Ret () \<and> t = told ?v ?r uid
      (member_event USER_LEFT uid n '' has left the room.'') i
      (room_response req True (''Left room '' @ ?r @ '' successfully.''))"
    using run [unfolded leave_operation_def Let_def]
    by (simp only: cthen_cmodify cbind_Ret announce_run [OF service_okD(6) [OF v]] prod.inject)
  with v show ?thesis by simp
qed

text \<open>A create: a new room is stored, with the session's user as its creator and first member.\<close>

lemma create_result:
  assumes s: "ok s" and i: "isAuthenticated (ss_session s i)" "userId (ss_session s i) = Some uid"
    and run: "create_operation E rooms_repo i uid req s = (out, t)"
  shows "ok t \<and> out \<noteq> Undef \<and> users (ds_db t) = users (ds_db s) \<and>
    ((\<exists>room u msg. out = Ret () \<and> data_state.more u = data_state.more s \<and>
        stored_as room = (r_id room, oq_room_name req, uid) \<and>
        r_id room \<notin> fst ` stored (ds_db s) \<and>
        (\<forall>x \<in> stored (ds_db s). \<not> same (fst (snd x)) (oq_room_name req)) \<and>
        stored (ds_db t) = insert (stored_as room) (stored (ds_db s)) \<and>
        t = snd (session_send i (room_response req True msg)
          (open_room uid i (oq_room_name req) room u))) \<or>
     refused i out s t)"
proof -
  let ?r = "oq_room_name req"
  let ?n = "(new_room (e_junk E))\<lparr>r_name := ?r, r_creator_id := uid\<rparr>"
  from s run [unfolded create_operation_def Let_def] show ?thesis
  proof (cases rule: find_room_cases)
    case stopped
    then show ?thesis using refused_stop by blast
  next
    case (found a u)
    note fr = found(5)
    show ?thesis
    proof (cases "a = None")
      case False
      with found(1) have sent: "session_send i (room_response req False (''Room name '' @ [CHR 0x27] @
          ?r @ [CHR 0x27] @ '' is already taken.'')) u = (out, t)" by (simp only: simp_thms if_True)
      have "refused i out s t \<and> out = Ret () \<and> ds_db t = ds_db u"
        by (rule refused_send [OF sent fr]) simp
      moreover from sent found(2) have "ok t" by (auto simp: session_send_apply)
      ultimately show ?thesis using found(4) by auto
    next
      case True
      have inv: "invar (ds_db u)" using service_okD(1) [OF found(2)] .
      have keep: "ok w \<and> users (ds_db w) = users (ds_db s) \<and> data_state.more w = data_state.more s \<and>
          o1 \<noteq> Undef \<and>
          (\<forall>x. o1 = Ret (Some x) \<longrightarrow>
             stored_as x = stored_as (?n\<lparr>r_id := r_id x\<rparr>) \<and> r_id x \<notin> fst ` stored (ds_db s) \<and>
             (\<forall>y \<in> stored (ds_db s). \<not> same (fst (snd y)) ?r) \<and>
             stored (ds_db w) = insert (stored_as x) (stored (ds_db s)))"
        if "addRoom rooms_repo ?n u = (o1, w)" for o1 w
      proof -
        note a = rs.add [OF inv that] and k = room_methods_keep(2) [OF inv that]
        have "stored (ds_db u) \<subseteq> stored (ds_db w)" using a by auto
        then have "ok w" using a k by (intro service_ok_grow [OF found(2)]) auto
        with a k found(3-5) show ?thesis by simp
      qed
      from found(1) have "cbind (addRoom rooms_repo ?n) (\<lambda>res.
        case res of
          Some room \<Rightarrow>
            cthen (cmodify (open_room uid i ?r room))
            (session_send i (room_response req True (''Created room '' @ ?r @ '' successfully.'')))
        | None \<Rightarrow> session_send i (room_response req False (''Created room '' @ ?r @ '' failed.''))) u
        = (out, t)" by (simp only: True simp_thms if_False)
      then show ?thesis
      proof (cases rule: cbindE)
        case (returned res w)
        note k = keep [OF returned(1)]
        then have fr: "data_state.more w = data_state.more s" by simp
        note f = frame_session_state [OF fr]
        show ?thesis
        proof (cases res)
          case None
          with returned(2) have sent: "session_send i (room_response req False (''Created room '' @ ?r
              @ '' failed.'')) w = (out, t)" by (simp only: option.case)
          have "refused i out s t \<and> out = Ret () \<and> ds_db t = ds_db w"
            by (rule refused_send [OF sent fr]) simp
          moreover from sent k have "ok t" by (auto simp: session_send_apply)
          ultimately show ?thesis using k by auto
        next
          case (Some room)
          let ?v = "open_room uid i ?r room w"
          have room: "stored_as room = (r_id room, ?r, uid)" "r_id room \<notin> fst ` stored (ds_db s)"
            "\<forall>y \<in> stored (ds_db s). \<not> same (fst (snd y)) ?r"
            "stored (ds_db w) = insert (stored_as room) (stored (ds_db s))"
            using k Some by (simp_all add: stored_as_def)
          have "uid \<in> cred_id ` users (ds_db w)"
            using service_okD(5) [OF s] i(2) k by (auto simp: logins_known_def)
          moreover have "same ?r ?r"
            using rs.same_equiv [OF inv] by (simp add: equivp_reflp)
          ultimately have v: "ok ?v"
            using k i room unfolding service_ok_def stored_as_def
            by (auto simp: f intro!: tables_ok_changes)
          have t: "out = Ret ()" "t = snd (session_send i (room_response req True (''Created room '' @ ?r
              @ '' successfully.'')) ?v)"
            using returned(2) Some by (simp_all add: session_send_apply)
          have u: "ok t" "ds_db t = ds_db w" using v by (simp_all add: t(2) session_send_apply)
          have g: "users (ds_db t) = users (ds_db s)" "out \<noteq> Undef"
            "stored (ds_db t) = insert (stored_as room) (stored (ds_db s))"
            using k t(1) room(4) u(2) by simp_all
          show ?thesis
            by (intro conjI disjI1 u(1) g(1,2) exI [of _ room] exI [of _ w]
                exI [of _ "''Created room '' @ ?r @ '' successfully.''"]; fact t fr room g(3))
        qed
      next
        case (thrown e)
        with keep [OF thrown(1)] show ?thesis using refused_stop [of out t s i] by auto
      next
        case blocked
        with keep [OF blocked(1)] show ?thesis using refused_stop [of out t s i] by auto
      next
        case undefined'
        with keep [OF undefined'(1)] show ?thesis by simp
      qed
    qed
  qed
qed

lemma room_operation_login:
  assumes "ok s" "isAuthenticated (ss_session s i)" "userId (ss_session s i) = Some uid"
    "handleRoomOperation E rooms_repo i req s = (out, t)"
  obtains n where "username (ss_session s i) = Some n"
    "(case oq_operation req of
         JOIN \<Rightarrow> join_operation rooms_repo i uid req
       | LEAVE \<Rightarrow> leave_operation i uid req
       | CREATE \<Rightarrow> create_operation E rooms_repo i uid req
       | Other_operation k \<Rightarrow> session_send i (room_response req False ''Unknown operation.'')) s
     = (out, t)"
proof -
  from ok_login [OF assms(1,2)] obtain n where n: "username (ss_session s i) = Some n"
    "session_user_id i s = (Ret uid, s)" using assms(3) by (metis option.inject)
  from assms(4) show thesis
    unfolding handleRoomOperation_def
    by (intro that [OF n(1)])
      (simp add: session_authenticated_bind assms(2) session_getter_bind(1) [OF assms(3)])
qed

text \<open>A room operation refines the step on the one map, or is refused and changes nothing.\<close>

lemma room_operation_result:
  assumes s: "ok s" "exact s"
    and i: "isAuthenticated (ss_session s i)" "userId (ss_session s i) = Some uid"
    and free: "oq_operation req = CREATE \<Longrightarrow> place s uid = None"
    and run: "handleRoomOperation E rooms_repo i req s = (out, t)"
  shows "ok t \<and> exact t \<and> out \<noteq> Undef \<and>
    ((out = Ret () \<and> room_success (last (ss_outbox t i)) \<and>
      place t = place_step i uid req (place s)) \<or>
     (place t = place s \<and> replied i out s (\<lambda>e. \<not> room_success e) t))"
proof -
  let ?r = "oq_room_name req"
  obtain n where n: "username (ss_session s i) = Some n"
    and op: "(case oq_operation req of
         JOIN \<Rightarrow> join_operation rooms_repo i uid req
       | LEAVE \<Rightarrow> leave_operation i uid req
       | CREATE \<Rightarrow> create_operation E rooms_repo i uid req
       | Other_operation k \<Rightarrow> session_send i (room_response req False ''Unknown operation.'')) s
     = (out, t)"
    by (rule room_operation_login [OF s(1) i run])
  have refuse: ?thesis if "ok t" "out \<noteq> Undef" "refused i out s t"
    using that s(2) refused_same [OF that(3)] by simp
  note here = place_room [OF service_okD(3) [OF s(1)]]
  show ?thesis
  proof (cases "oq_operation req")
    case JOIN
    from join_result [OF s(1) i n op [unfolded JOIN room_operation.case]] show ?thesis
    proof (elim conjE disjE exE)
      fix room u
      assume t: "ok t" "out \<noteq> Undef" "out = Ret ()" and fr: "data_state.more u = data_state.more s"
        and told: "t = told (enter_room uid i ?r room (leave_current uid u)) ?r uid
          (member_event USER_JOINED uid n '' has joined the room.'') i
          (room_response req True (''Joined room '' @ ?r @ '' successfully.''))"
      have "exact (enter_room uid i ?r room (leave_current uid u))"
        using s(2) by (intro exact_changes) (simp_all add: tables_ok_frame [OF fr] seat_changes)
      then show ?thesis
        using t by (simp add: told place_changes place_step_def JOIN tables_ok_frame [OF fr])
    qed (rule refuse)
  next
    case LEAVE
    from leave_result [OF s(1) n op [unfolded LEAVE room_operation.case]] exact_changes(2) [OF s(2)]
    show ?thesis by (auto simp: place_changes place_step_def LEAVE here)
  next
    case CREATE
    from create_result [OF s(1) i op [unfolded CREATE room_operation.case]] show ?thesis
    proof (elim conjE disjE exE)
      fix room u msg
      assume t: "ok t" "out \<noteq> Undef" "out = Ret ()" and fr: "data_state.more u = data_state.more s"
        and sent: "t = snd (session_send i (room_response req True msg) (open_room uid i ?r room u))"
      have "rs_userToRoom u uid = None"
        using here [of uid] free [OF CREATE] by (simp add: frame_service_state [OF fr])
      then have "exact (open_room uid i ?r room u)" "place (open_room uid i ?r room u) = (place u)(uid \<mapsto> (?r, i))"
        using s(2) by (simp_all add: exact_changes place_changes tables_ok_frame [OF fr])
      then show ?thesis
        using t by (simp add: sent session_send_apply place_step_def CREATE tables_ok_frame [OF fr])
    qed (rule refuse)
  next
    case (Other_operation k)
    from op [unfolded Other_operation room_operation.case]
    have sent: "session_send i (room_response req False ''Unknown operation.'') s = (out, t)" .
    have r: "refused i out s t \<and> out = Ret () \<and> ds_db t = ds_db s"
      by (rule refused_send [OF sent]) simp_all
    have "ok t" using sent s(1) by (auto simp: session_send_apply)
    then show ?thesis by (rule refuse [OF _ _ r [THEN conjunct1]]) (use r in simp)
  qed
qed

text \<open>A successful create by a user who sits in a room: the old seat stays, beyond the connection.\<close>

lemma create_keeps_seat:
  assumes s: "ok s" and i: "isAuthenticated (ss_session s i)" "userId (ss_session s i) = Some uid"
    and old: "rs_userToRoom s uid = Some old" "seat s old uid = Some j"
    and op: "oq_operation req = CREATE"
    and run: "handleRoomOperation E rooms_repo i req s = (Ret (), t)"
      "room_success (last (ss_outbox t i))"
  shows "old \<noteq> oq_room_name req \<and> seat t old uid = Some j \<and> seat t (oq_room_name req) uid = Some i \<and>
    rs_userToRoom t uid = Some (oq_room_name req) \<and> \<not> exact t \<and>
    (\<exists>t'. handleDisconnect i t = (Ret (), t') \<and> rs_userToRoom t' uid = None \<and>
       seat t' (oq_room_name req) uid = None \<and> seat t' old uid = Some j)"
proof -
  let ?r = "oq_room_name req"
  obtain n where n: "username (ss_session s i) = Some n"
    and run': "create_operation E rooms_repo i uid req s = (Ret (), t)"
    using room_operation_login [OF s i run(1)] op by auto
  have "\<not> refused i (Ret ()) s t"
    using refused_same(7) [of i "Ret ()" s t] run(2) by (auto simp: replied_def)
  with create_result [OF s i run'] obtain room u msg where t: "ok t" "data_state.more u = data_state.more s"
    "\<forall>x \<in> stored (ds_db s). \<not> same (fst (snd x)) ?r"
    "t = snd (session_send i (room_response req True msg) (open_room uid i ?r room u))" by auto
  note f = frame_session_state [OF t(2)] frame_service_state [OF t(2)]
  obtain ar where "rs_activeRooms s old = Some ar"
    using old(2) by (auto simp: seat_in_def split: option.splits)
  then have "(ar_id ar, ar_name ar, ar_creator_id ar) \<in> stored (ds_db s)" "same (ar_name ar) old"
    using service_okD(4) [OF s] by (simp_all add: rooms_known_def)
  with t(3) have ne: "old \<noteq> ?r" by fastforce
  have seats: "seat t r v = (if r = ?r \<and> v = uid then Some i else seat s r v)" for r v
    by (simp add: t(4) session_send_apply seat_changes f)
  have now: "rs_userToRoom t uid = Some ?r"
    by (simp add: t(4) session_send_apply seat_changes)
  have login: "isAuthenticated (ss_session t i)" "userId (ss_session t i) = Some uid"
    "username (ss_session t i) = Some n" using i n by (simp_all add: t(4) session_send_apply f)
  have "\<not> exact t" unfolding exact_def using seats [of old uid] old(2) ne now
    by (intro notI) (metis option.discI option.inject)
  with disconnect_run [OF service_okD(6) [OF t(1)] login now] seats ne old(2) now show ?thesis
    by (simp add: seat_changes)
qed

text \<open>Whom a successful join or a leave tells: the others whose place the room is, once each.\<close>

lemma notified_result:
  assumes s: "ok s" "exact s"
    and i: "isAuthenticated (ss_session s i)" "userId (ss_session s i) = Some uid"
      "username (ss_session s i) = Some n"
    and op: "oq_operation req = JOIN \<and> e = member_event USER_JOINED uid n '' has joined the room.'' \<or>
      oq_operation req = LEAVE \<and> e = member_event USER_LEFT uid n '' has left the room.''"
    and run: "handleRoomOperation E rooms_repo i req s = (out, t)"
  shows "refused i out s t \<or>
    (\<exists>reply. room_success reply \<and> (\<forall>j. ss_outbox t j = ss_outbox s j @
      replicate (card {u. u \<noteq> uid \<and> place s u = Some (oq_room_name req, j)}) e @
      (if j = i then [reply] else [])))"
proof -
  let ?r = "oq_room_name req"
  have reached: "reached v ?r uid j = card {u. u \<noteq> uid \<and> place s u = Some (?r, j)}"
    if "\<And>u. u \<noteq> uid \<Longrightarrow> seat v ?r u = seat s ?r u" for v :: "('db, 'z) service_state_scheme" and j
    unfolding reached_def seat_place [OF s(2), symmetric]
    by (rule arg_cong [where f = card]) (use that in auto)
  obtain n' where op': "username (ss_session s i) = Some n'" "(case oq_operation req of
         JOIN \<Rightarrow> join_operation rooms_repo i uid req
       | LEAVE \<Rightarrow> leave_operation i uid req
       | CREATE \<Rightarrow> create_operation E rooms_repo i uid req
       | Other_operation k \<Rightarrow> session_send i (room_response req False ''Unknown operation.'')) s
     = (out, t)" by (rule room_operation_login [OF s(1) i(1,2) run])
  from op show ?thesis
  proof (elim disjE conjE)
    assume J: "oq_operation req = JOIN" "e = member_event USER_JOINED uid n '' has joined the room.''"
    from join_result [OF s(1) i op'(2) [unfolded J(1) room_operation.case]] show ?thesis
    proof (elim conjE disjE exE)
      fix room u
      assume fr: "data_state.more u = data_state.more s"
        and told: "t = told (enter_room uid i ?r room (leave_current uid u)) ?r uid
          (member_event USER_JOINED uid n '' has joined the room.'') i
          (room_response req True (''Joined room '' @ ?r @ '' successfully.''))"
      note r = reached [of "enter_room uid i ?r room (leave_current uid u)"]
      have "\<forall>j. ss_outbox t j = ss_outbox s j @
          replicate (card {u. u \<noteq> uid \<and> place s u = Some (?r, j)}) e @
          (if j = i then [room_response req True (''Joined room '' @ ?r @ '' successfully.'')] else [])"
        by (simp add: told J(2) frame_session_state [OF fr] seat_changes frame_service_state [OF fr] r)
      then show ?thesis by (intro disjI2 exI conjI) simp_all
    qed simp
  next
    assume L: "oq_operation req = LEAVE" "e = member_event USER_LEFT uid n '' has left the room.''"
    note told = leave_result [OF s(1) i(3) op'(2) [unfolded L(1) room_operation.case]]
    note r = reached [of "leave_room uid ?r s"]
    have "\<forall>j. ss_outbox t j = ss_outbox s j @
        replicate (card {u. u \<noteq> uid \<and> place s u = Some (?r, j)}) e @
        (if j = i then [room_response req True (''Left room '' @ ?r @ '' successfully.'')] else [])"
      by (simp add: told L(2) seat_changes r)
    then show ?thesis by (intro disjI2 exI conjI) simp_all
  qed
qed

text \<open>The end of a connection: the user's room is told and the place emptied.\<close>

lemma disconnect_result:
  assumes s: "ok s"
    and i: "isAuthenticated (ss_session s i)" "userId (ss_session s i) = Some uid"
      "username (ss_session s i) = Some n"
  shows "\<exists>t. handleDisconnect i s = (Ret (), t) \<and> ok t \<and> ds_db t = ds_db s \<and>
    ss_session t = ss_session s \<and> (exact s \<longrightarrow> exact t) \<and> place t = (place s)(uid := None) \<and>
    (\<forall>j. ss_outbox t j = ss_outbox s j @
       (case rs_userToRoom s uid of
          None \<Rightarrow> []
        | Some r \<Rightarrow> replicate (reached s r uid j) (member_event USER_LEFT uid n '' has left the room.'')))"
proof -
  show ?thesis
  proof (cases "rs_userToRoom s uid")
    case None
    then have "handleDisconnect i s = (Ret (), s)"
      by (simp add: handleDisconnect_def session_authenticated_bind i(1) session_getter_bind(1) [OF i(2)])
    moreover have "place s uid = None" using None by (simp add: place_def)
    ultimately show ?thesis using s None by (auto simp: fun_upd_idem)
  next
    case (Some r)
    let ?e = "member_event USER_LEFT uid n '' has left the room.''"
    let ?v = "s\<lparr>ss_outbox := (\<lambda>j. ss_outbox s j @ replicate (reached s r uid j) ?e)\<rparr>"
    let ?t = "close_membership uid r ?v"
    have "handleDisconnect i s = (Ret (), ?t)"
      by (rule disconnect_run [OF service_okD(6) [OF s] i Some])
    moreover have "ok ?t"
      using s Some by (auto simp: service_ok_def intro!: tables_ok_changes)
    moreover have "exact s \<longrightarrow> exact ?t" using Some by (simp add: exact_changes)
    ultimately show ?thesis using Some by (intro exI [of _ ?t]) (simp add: place_changes)
  qed
qed

end

end
