(* ===== verification/Room_Properties.thy ===== *)
theory Room_Properties
  imports Room_Facts
begin

text \<open>
  The properties of \<open>RoomService\<close> over the MySQL repositories, on every state that satisfies
  \<open>server_ok\<close>: the refinement of the room operations, whom they tell, the end of a connection, and
  the seat that a create leaves behind.
\<close>

definition server_ok :: "'db env \<Rightarrow> 'db db_view \<Rightarrow> ('db, 'z) service_state_scheme \<Rightarrow> bool" where
  "server_ok E V s \<longleftrightarrow>
     service_ok (db_users_of V) (db_rooms_of V) (dv_same_text V) (db_ok E V) s"

section \<open>A small world with a room\<close>

text \<open>Session 0 belongs to ann, who sits in the lobby, session 1 to bob, who is in no room.\<close>

definition ref_lobby :: active_room where
  "ref_lobby = \<lparr>ar_id = 1, ar_creator_id = 1, ar_name = ''lobby'', ar_members = [(1, 0)]\<rparr>"

definition ref_service :: "ref_db service_state" where
  "ref_service =
     \<lparr>ds_db = ref_db0, ds_pool = ref_pool, ds_clock = 0, ds_draws = 0,
      ss_session = (\<lambda>_. new_session)
        (0 := setAuthenticated 1 ''ann'' new_session, 1 := setAuthenticated 2 ''bob'' new_session),
      ss_outbox = (\<lambda>_. []), ss_sessions = [],
      ss_byUserId = [1 \<mapsto> 0, 2 \<mapsto> 1], ss_byUsername = [''ann'' \<mapsto> 0, ''bob'' \<mapsto> 1],
      rs_activeRooms = [''lobby'' \<mapsto> ref_lobby], rs_userToRoom = [1 \<mapsto> ''lobby'']\<rparr>"

lemma ref_service_sessions:
  "isAuthenticated (ss_session ref_service 0)" "isAuthenticated (ss_session ref_service 1)"
  "userId (ss_session ref_service 0) = Some 1" "userId (ss_session ref_service 1) = Some 2"
  "username (ss_session ref_service 0) = Some ''ann''"
  "username (ss_session ref_service 1) = Some ''bob''"
  by (simp_all add: ref_service_def setAuthenticated_def isAuthenticated_def)

lemma ref_service_tables:
  "db_users_of ref_view ref_db0 = {(1, ''ann'', hashPassword ref_sha256 ''sesame'' ''5a'', ''5a''),
     (2, ''bob'', hashPassword ref_sha256 ''hunter'' ''5a'', ''5a'')}"
  "db_rooms_of ref_view ref_db0 = {(1, ''lobby'', 1)}"
  by (simp_all add: db_users_of_def db_rooms_of_def ref_db0_def ref_tables_def ref_user_def
      row_credential_def row_stored_def)

lemma ref_service_seat:
  "seat ref_service r u = (if r = ''lobby'' \<and> u = 1 then Some 0 else None)"
  unfolding ref_service_def service_state.simps seat_in_def ref_lobby_def by simp

lemma ref_service_db: "ds_db ref_service = ref_db0"
  "rs_userToRoom ref_service = [1 \<mapsto> ''lobby'']"
  by (simp_all add: ref_service_def)

lemma ref_service_exact: "exact ref_service"
  unfolding exact_def ref_service_seat by (simp add: ref_service_def)

lemma ref_service_place: "place ref_service = [1 \<mapsto> (''lobby'', 0)]"
  by (auto simp: place_def ref_service_seat ref_service_db fun_eq_iff)

lemma new_session_ok: "session_ok new_session" "session_ok (setAuthenticated u n x)"
  by (auto simp: session_ok_def new_session_def setAuthenticated_def)

lemma ref_service_ok: "db_ok E ref_view ref_db0 \<Longrightarrow> server_ok E ref_view ref_service"
proof -
  assume db: "db_ok E ref_view ref_db0"
  have "registry_ok ref_service"
    by (auto simp: registry_ok_def ref_service_def isAuthenticated_def setAuthenticated_def
        new_session_ok [unfolded setAuthenticated_def] split: if_splits)
  moreover have "rooms_ok ref_service"
    unfolding rooms_ok_def ref_service_seat
    by (auto simp: ref_service_sessions) (auto simp: rooms_wf_def ref_service_def ref_lobby_def split: if_splits)
  moreover have "rooms_known (=) {(1, ''lobby'', 1)} (rs_activeRooms ref_service)"
    by (simp add: rooms_known_def ref_service_def ref_lobby_def)
  moreover have "logins_known {1, 2} ref_service"
    unfolding logins_known_def ref_service_seat
    by (auto simp: ref_service_def setAuthenticated_def new_session_def split: if_splits)
  ultimately show ?thesis
    using db ref_service_tables
    by (simp add: server_ok_def service_ok_def tables_ok_def cred_id_def ref_view_def ref_service_db)
qed

section \<open>Room operations\<close>

text \<open>C17. The room operations refine one map from users to their place. In a state whose two room
  tables agree, an operation of a logged-in session (a create only from no room) keeps the
  invariant and the agreement; it either answers with success, and then the map changes exactly as
  the operation says (a join or create puts the user's session into the named room and nowhere
  else, a leave empties the place if it is the named room), or it answers with a failure, or does
  not return, and the map is as before. No operation runs into undefined behaviour.\<close>

theorem room_operation_refines:
  assumes "server_ok E V s" and "exact s"
    and "isAuthenticated (ss_session s i)" "userId (ss_session s i) = Some uid"
    and "oq_operation req = CREATE \<Longrightarrow> place s uid = None"
    and "handleRoomOperation E (MySQLRoomRepository E) i req s = (out, t)"
  shows "server_ok E V t \<and> exact t \<and> out \<noteq> Undef \<and>
    ((out = Ret () \<and> room_success (last (ss_outbox t i)) \<and>
      place t = place_step i uid req (place s)) \<or>
     (place t = place s \<and> replied i out s (\<lambda>e. \<not> room_success e) t))"
  using assms unfolding server_ok_def by (rule mysql_chat.room_operation_result)

lemmas room_run =
  handleRoomOperation_def join_operation_def leave_operation_def create_operation_def
  broadcastToRoom_def room_response_def enter_room_def leave_current_def leave_room_def open_room_def
  drop_member_def no_active_room_def new_room_def session_send_def session_authenticated_def
  session_user_id_def session_username_def getUserId_def getUsername_def isAuthenticated_def
  setAuthenticated_def ref_service_def ref_lobby_def

lemma room_operation_refines_witness:
  "(let t = snd (handleRoomOperation ref_env (MySQLRoomRepository ref_env) 1
       \<lparr>oq_operation = JOIN, oq_room_name = ''lobby''\<rparr> ref_service)
    in server_ok ref_env ref_view t \<and> exact t \<and> rs_userToRoom t = [1 \<mapsto> ''lobby'', 2 \<mapsto> ''lobby''])"
proof -
  let ?r = "handleRoomOperation ref_env (MySQLRoomRepository ref_env) 1
    \<lparr>oq_operation = JOIN, oq_room_name = ''lobby''\<rparr> ref_service"
  have "rs_userToRoom (snd ?r) = [1 \<mapsto> ''lobby'', 2 \<mapsto> ''lobby'']"
    by (simp add: room_run repo_run ref_run)
  note run = this
  note p = room_operation_refines [OF ref_service_ok [OF ref_db_ok(1)] ref_service_exact
      ref_service_sessions(2,4) _ prod.collapse [of ?r, symmetric]]
  show ?thesis
    unfolding Let_def by (intro conjI run p [THEN conjunct1] p [THEN conjunct2, THEN conjunct1]) simp_all
qed

text \<open>C18. A join and a leave are announced. When one of them is not refused, each session receives
  one notification for every other user whose place is that room through it (so a member with one
  session is told once, and nobody outside the room is told), and the session that asked receives,
  after these, one success reply. A leave is announced to the named room whether the user was in
  it or not.\<close>

theorem room_changes_announced:
  assumes "server_ok E V s" and "exact s"
    and "isAuthenticated (ss_session s i)" "userId (ss_session s i) = Some uid"
      "username (ss_session s i) = Some n"
    and "oq_operation req = JOIN \<and> e = member_event USER_JOINED uid n '' has joined the room.'' \<or>
      oq_operation req = LEAVE \<and> e = member_event USER_LEFT uid n '' has left the room.''"
    and "handleRoomOperation E (MySQLRoomRepository E) i req s = (out, t)"
  shows "refused i out s t \<or>
    (\<exists>reply. room_success reply \<and> (\<forall>j. ss_outbox t j = ss_outbox s j @
      replicate (card {u. u \<noteq> uid \<and> place s u = Some (oq_room_name req, j)}) e @
      (if j = i then [reply] else [])))"
  using assms unfolding server_ok_def by (rule mysql_chat.notified_result)

lemma room_changes_announced_witness:
  "(let t = snd (handleRoomOperation ref_env (MySQLRoomRepository ref_env) 1
       \<lparr>oq_operation = LEAVE, oq_room_name = ''lobby''\<rparr> ref_service)
    in \<not> refused 1 (Ret ()) ref_service t \<and>
       ss_outbox t 0 = [member_event USER_LEFT 2 ''bob'' '' has left the room.''])"
proof -
  let ?r = "handleRoomOperation ref_env (MySQLRoomRepository ref_env) 1
    \<lparr>oq_operation = LEAVE, oq_room_name = ''lobby''\<rparr> ref_service"
  have "fst ?r = Ret ()" by (simp add: room_run repo_run Let_def)
  then have run: "?r = (Ret (), snd ?r)" by (metis prod.collapse)
  have "ss_outbox (snd ?r) 1 = [room_response \<lparr>oq_operation = LEAVE, oq_room_name = ''lobby''\<rparr> True
      ''Left room lobby successfully.'']"
    by (simp add: room_run repo_run Let_def)
  then have no: "\<not> refused 1 (Ret ()) ref_service (snd ?r)"
    using refused_same(7) [of 1 "Ret ()" ref_service "snd ?r"]
    by (auto simp: replied_def ref_service_def)
  have "ss_outbox (snd ?r) 0 = ss_outbox ref_service 0 @
      replicate (card {u. u \<noteq> 2 \<and> place ref_service u = Some (''lobby'', 0)})
        (member_event USER_LEFT 2 ''bob'' '' has left the room.'')"
    using room_changes_announced [OF ref_service_ok [OF ref_db_ok(1)] ref_service_exact
        ref_service_sessions(2,4,6) _ run,
        of "member_event USER_LEFT 2 ''bob'' '' has left the room.''"] no
    by auto
  moreover have "{u. u \<noteq> 2 \<and> place ref_service u = Some (''lobby'', 0)} = {1}"
    by (auto simp: ref_service_place split: if_splits)
  ultimately show ?thesis using no by (simp add: ref_service_def)
qed

text \<open>C19. The end of a connection frees the user's place. For a logged-in session the handler returns,
  changes neither the database nor any session, keeps the invariant (and the agreement of the
  tables), empties the place of the session's user whatever it was and nobody else's, and tells
  every other user in that room, once per place, and nobody else.\<close>

theorem disconnect_frees_place:
  assumes "server_ok E V s"
    and "isAuthenticated (ss_session s i)" "userId (ss_session s i) = Some uid"
      "username (ss_session s i) = Some n"
  shows "\<exists>t. handleDisconnect i s = (Ret (), t) \<and> server_ok E V t \<and> ds_db t = ds_db s \<and>
    ss_session t = ss_session s \<and> (exact s \<longrightarrow> exact t) \<and> place t = (place s)(uid := None) \<and>
    (\<forall>j. ss_outbox t j = ss_outbox s j @
       (case rs_userToRoom s uid of
          None \<Rightarrow> []
        | Some r \<Rightarrow> replicate (reached s r uid j) (member_event USER_LEFT uid n '' has left the room.'')))"
  using assms unfolding server_ok_def by (rule mysql_chat.disconnect_result)

lemma disconnect_frees_place_witness:
  "\<exists>t. handleDisconnect 0 ref_service = (Ret (), t) \<and> server_ok ref_env ref_view t \<and>
     place t = Map.empty"
  using disconnect_frees_place [OF ref_service_ok [OF ref_db_ok(1)] ref_service_sessions(1,3,5)]
  by (auto simp: ref_service_place)

text \<open>C20. A create does not leave the room the user was in. Take any state that satisfies the
  invariant and any user who sits in a room. If that user's create is answered with success, then
  the user holds a seat in both rooms and the tables no longer agree; and after the user's
  connection has ended, the seat in the old room is still there, with its session as a recipient.\<close>

theorem create_keeps_old_seat:
  assumes "server_ok E V s"
    and "isAuthenticated (ss_session s i)" "userId (ss_session s i) = Some uid"
    and "rs_userToRoom s uid = Some old" "seat s old uid = Some j"
    and "oq_operation req = CREATE"
    and "handleRoomOperation E (MySQLRoomRepository E) i req s = (Ret (), t)"
      "room_success (last (ss_outbox t i))"
  shows "old \<noteq> oq_room_name req \<and> seat t old uid = Some j \<and> seat t (oq_room_name req) uid = Some i \<and>
    rs_userToRoom t uid = Some (oq_room_name req) \<and> \<not> exact t \<and>
    (\<exists>t'. handleDisconnect i t = (Ret (), t') \<and> rs_userToRoom t' uid = None \<and>
       seat t' (oq_room_name req) uid = None \<and> seat t' old uid = Some j)"
  using assms unfolding server_ok_def by (rule mysql_chat.create_keeps_seat)

lemma create_keeps_old_seat_witness:
  "\<exists>t t'. handleRoomOperation ref_env (MySQLRoomRepository ref_env) 0
      \<lparr>oq_operation = CREATE, oq_room_name = ''den''\<rparr> ref_service = (Ret (), t) \<and>
     handleDisconnect 0 t = (Ret (), t') \<and> rs_userToRoom t' 1 = None \<and> seat t' ''lobby'' 1 = Some 0"
proof -
  let ?r = "handleRoomOperation ref_env (MySQLRoomRepository ref_env) 0
    \<lparr>oq_operation = CREATE, oq_room_name = ''den''\<rparr> ref_service"
  have r: "fst ?r = Ret ()" "map room_success (ss_outbox (snd ?r) 0) = [True]"
    by (simp_all add: room_run repo_run ref_run room_success_def)
  from r(1) have run: "?r = (Ret (), snd ?r)" by (metis prod.collapse)
  from r(2) have success: "room_success (last (ss_outbox (snd ?r) 0))"
    by (cases "ss_outbox (snd ?r) 0") simp_all
  have seat: "rs_userToRoom ref_service 1 = Some ''lobby''" "seat ref_service ''lobby'' 1 = Some 0"
    by (simp_all add: ref_service_db ref_service_seat)
  note p = create_keeps_old_seat [OF ref_service_ok [OF ref_db_ok(1)] ref_service_sessions(1,3) seat
      _ run success]
  from p run show ?thesis by auto
qed

end
