(* ===== verification/Engine_Answers.thy ===== *)
theory Engine_Answers
  imports User_Store
begin

text \<open>
  What the repositories do while the database answers: a connection is free, and no statement that
  reads fails. The facts of \<open>Repository_Facts\<close> say what a method leaves behind if it returns; with
  the rules here, a method whose body throws nothing also returns, and what it finds is complete.
\<close>

definition engine_answers :: "'db env \<Rightarrow> 'db db_view \<Rightarrow> ('db, 'z) data_state_scheme \<Rightarrow> bool" where
  "engine_answers E V s \<longleftrightarrow>
     engine_up E s \<and> (\<forall>c d. idle V d \<longrightarrow> fst (db_begin E c d) = Inr ()) \<and>
     (\<forall>c q d. \<exists>rows. fst (db_messages E c q d) = Inr rows)"

section \<open>Computations that return\<close>

text \<open>A triple with nothing for the exceptional exit.\<close>

abbreviation total ::
    "('db \<Rightarrow> bool) \<Rightarrow> (('db, 'z) data_state_scheme, 'a) comp \<Rightarrow> ('a \<Rightarrow> 'db \<Rightarrow> bool) \<Rightarrow> bool" where
  "total P m Q \<equiv> triple P m Q (\<lambda>_. False)"

lemma totalD: "total P m Q \<Longrightarrow> P (ds_db s) \<Longrightarrow> \<exists>a t. m s = (Ret a, t) \<and> Q a (ds_db t)"
  using tripleD [of P m Q "\<lambda>_. False" s "fst (m s)" "snd (m s)"]
  by (cases "m s"; cases "fst (m s)") auto

lemma total_call:
  assumes "triple P (db_call f :: (('db, 'z) data_state_scheme, 'a) comp) Q X"
    and "\<And>d. \<exists>a. fst (f d) = Inr a"
  shows "total P (db_call f :: (('db, 'z) data_state_scheme, 'a) comp) Q"
proof (rule triple_call)
  fix d r d' assume P: "P d" and r: "f d = (r, d')"
  obtain a where a: "r = Inr a" using assms(2) [of d] r by auto
  obtain s :: "('db, 'z) data_state_scheme" where s: "ds_db s = d"
    by (metis data_state.select_convs(1))
  have "db_call f s = (Ret a, s\<lparr>ds_db := d'\<rparr>)" using r a s by (simp add: db_call_def)
  from tripleD [OF assms(1), of s "Ret a", OF _ this] P s a show "case r of Inl e \<Rightarrow> False | Inr a \<Rightarrow> Q a d'" by simp
qed

lemma total_transaction:
  assumes ok: "engine_ok E V" and up: "\<And>c d. idle V d \<Longrightarrow> fst (db_begin E c d) = Inr ()"
    and body: "total (in_txn V c T T) (body :: (('db, 'z) data_state_scheme, 'a \<times> bool) comp)
      (\<lambda>(a, k) d. \<not> k \<and> in_txn V c T T d \<and> Q a)"
  shows "total (\<lambda>d. idle V d \<and> dv_tables V d = T) (with_transaction E c body)
    (\<lambda>a d. idle V d \<and> dv_tables V d = T \<and> Q a)"
  unfolding with_transaction_def
proof (rule triple_bind)
  note laws = engine_okD(1) [OF ok]
  show "total (\<lambda>d. idle V d \<and> dv_tables V d = T) (db_call (db_begin E c)) (\<lambda>_. in_txn V c T T)"
  proof (rule triple_call)
    fix d r d' assume d: "idle V d \<and> dv_tables V d = T" and r: "db_begin E c d = (r, d')"
    with up [of d c] have r': "db_begin E c d = (Inr (), d')" by simp
    have "dv_open V d = None" using d by (simp add: idle_def)
    from begin_law [OF laws this, of c _ d' "()"] r r' d
    show "case r of Inl e \<Rightarrow> False | Inr a \<Rightarrow> in_txn V c T T d'"
      by (auto simp: in_txn_def)
  qed
  show "total (in_txn V c T T) (transaction_scope E c body)
    (\<lambda>a d. idle V d \<and> dv_tables V d = T \<and> Q a)" for x :: unit
  proof (rule tripleI)
    fix s :: "('db, 'z) data_state_scheme" and out t
    assume s: "in_txn V c T T (ds_db s)" and run: "transaction_scope E c body s = (out, t)"
    from totalD [OF body s] obtain a u where b: "body s = (Ret (a, False), u)" "in_txn V c T T (ds_db u)" "Q a"
      by auto
    have "dv_open V (ds_db u) = Some c" using b(2) by (rule in_txn_open)
    from rollback_law [OF laws this] b run
    show "case out of Ret a \<Rightarrow> idle V (ds_db t) \<and> dv_tables V (ds_db t) = T \<and> Q a
        | Throw e \<Rightarrow> False | _ \<Rightarrow> False"
      by (auto simp: transaction_scope_def idle_def in_txn_def)
  qed
qed

text \<open>A repository method with such a body returns, and a connection is free again.\<close>

lemma total_method:
  fixes s :: "('db, 'z) data_state_scheme"
  assumes "cp_instance (ds_pool s)" "cp_free (ds_pool s) \<noteq> []"
    and body: "\<And>c. total P (body c) Q" "\<And>c. pool_silent (body c)" and P: "P (ds_db s)"
  shows "\<exists>a t. with_connection dflt body s = (Ret a, t) \<and> Q a (ds_db t) \<and> ds_pool t = ds_pool s"
proof -
  let ?c = "last (cp_free (ds_pool s))"
  let ?s = "s\<lparr>ds_pool := (ds_pool s)\<lparr>cp_free := butlast (cp_free (ds_pool s))\<rparr>\<rparr>"
  have "P (ds_db ?s)" using P by simp
  from totalD [OF body(1) this] obtain a u where b: "body ?c ?s = (Ret a, u)" "Q a (ds_db u)" by blast
  from pool_silentD [OF body(2) b(1)] have "ds_pool u = ds_pool ?s" by simp
  with with_connection_run [of s body "Ret a" u dflt "Ret a" True, OF assms(1,2) b(1)] b(2) assms(2) show ?thesis
    by (simp add: wrapper_destroy_def returnConnection_def)
qed

lemma answers_pool:
  "engine_answers E V s \<Longrightarrow> ds_pool t = ds_pool s \<Longrightarrow> engine_answers E V t"
  by (simp add: engine_answers_def engine_up_def)

section \<open>The methods the history uses\<close>

lemma total_first_user:
  "total (\<lambda>d. P d \<and> user_answer V q T rows) (user_of_first_row E rows)
     (\<lambda>a d. P d \<and> found_user V q T a \<and> (a = None \<longrightarrow> (\<forall>x \<in> set (t_users T). \<not> user_matches V q x)))"
proof (cases rows)
  case Nil
  then show ?thesis
    by (auto simp: user_of_first_row_def found_user_def user_answer_def filter_empty_conv intro!: triple_return)
next
  case (Cons r rs)
  show ?thesis
  proof (cases "user_answer V q T rows")
    case True
    with Cons answer_first_user obtain x where x: "x \<in> set (t_users T)" "user_matches V q x"
      "r = user_row_of x" by blast
    show ?thesis
      unfolding Cons x(3) user_of_first_row_def user_row_of_def
      by simp (rule triple_bind [OF triple_silent], simp, rule triple_return,
        use x(1,2) in \<open>auto simp: found_user_def is_user_def\<close>)
  qed (simp add: triple_def)
qed

lemma findByUserId_complete:
  fixes s :: "('db, 'z) data_state_scheme"
  assumes ok: "db_ok E V (ds_db s)" and up: "engine_answers E V s"
  shows "\<exists>a t. findByUserId (MySQLUserRepository E) i s = (Ret a, t) \<and> engine_answers E V t \<and>
    (a = None \<longrightarrow> i \<notin> cred_id ` db_users_of V (ds_db s))"
proof -
  let ?T = "dv_tables V (ds_db s)"
  let ?N = "\<lambda>a. a = None \<longrightarrow> (\<forall>x \<in> set (t_users ?T). \<not> user_matches V (Users_by_id i) x)"
  let ?body = "\<lambda>c. (cbind (db_call (db_users E c (Users_by_id i))) (\<lambda>rows.
     cbind (user_of_first_row E rows) (\<lambda>u. creturn (u, False)))) :: (('db, 'z) data_state_scheme, user option \<times> bool) comp"
  have eng: "engine_ok E V" "idle V (ds_db s)" using ok by (simp_all add: db_ok_def)
  have users: "\<exists>rows. fst (db_users E c q d) = Inr rows" for c q d
    using up by (simp add: engine_answers_def engine_up_def)
  have "total (in_txn V c ?T ?T) (?body c) (\<lambda>(a, k) d. \<not> k \<and> in_txn V c ?T ?T d \<and> ?N a)" for c
    by (rule triple_bind [OF total_call [OF txn_query(1) [OF eng(1)] users]],
        rule triple_bind [OF total_first_user], rule triple_return) auto
  then have "total (\<lambda>d. idle V d \<and> dv_tables V d = ?T) (with_transaction E c (?body c))
      (\<lambda>a d. idle V d \<and> dv_tables V d = ?T \<and> ?N a)" for c
    by (intro total_transaction [OF eng(1)]) (use up in \<open>simp_all add: engine_answers_def\<close>)
  then obtain a t where run: "with_connection None (\<lambda>c. with_transaction E c (?body c)) s = (Ret a, t)"
    and n: "?N a" and p: "ds_pool t = ds_pool s"
    using total_method [of s "\<lambda>d. idle V d \<and> dv_tables V d = ?T" "\<lambda>c. with_transaction E c (?body c)"
        "\<lambda>a d. idle V d \<and> dv_tables V d = ?T \<and> ?N a" None] eng(2) up
    by (auto simp: engine_answers_def engine_up_def)
  have "i \<notin> cred_id ` db_users_of V (ds_db s)" if "a = None"
    using n that by (auto simp: db_users_of_def row_credential_def cred_id_def)
  moreover have "findByUserId (MySQLUserRepository E) i s = (Ret a, t)"
    using run by (simp add: MySQLUserRepository_def MySQL_findByUserId_def)
  ultimately show ?thesis using answers_pool [OF up p] by blast
qed

lemma list_messages_complete:
  fixes s :: "('db, 'z) data_state_scheme"
  assumes ok: "db_ok E V (ds_db s)" and up: "engine_answers E V s"
  shows "\<exists>ms t xs. list_messages E q s = (Ret ms, t) \<and> engine_answers E V t \<and>
    message_answer V q (dv_tables V (ds_db s)) (map message_row_of xs) \<and> list_all2 (is_message E) ms xs"
proof -
  let ?T = "dv_tables V (ds_db s)"
  let ?P = "\<lambda>d. idle V d \<and> dv_tables V d = ?T"
  let ?A = "\<lambda>ms. \<exists>xs. message_answer V q ?T (map message_row_of xs) \<and> list_all2 (is_message E) ms xs"
  let ?body = "\<lambda>c. (cbind (db_call (db_messages E c q)) (fetch_messages E (new_message (e_junk E))))
     :: (('db, 'z) data_state_scheme, message list) comp"
  have eng: "engine_ok E V" "idle V (ds_db s)" using ok by (simp_all add: db_ok_def)
  have msgs: "\<exists>rows. fst (db_messages E c q d) = Inr rows" for c d
    using up by (simp add: engine_answers_def)
  have "total ?P (?body c) (\<lambda>ms d. ?P d \<and> ?A ms)" for c
  proof (rule triple_bind [OF total_call [OF triple_query(3) [OF eng(1) same_world_idle seen_idle] msgs] triple_pure])
    fix rows assume a: "message_answer V q ?T rows"
    then obtain xs where xs: "rows = map message_row_of xs" using answer_messages by blast
    show "total ?P (fetch_messages E (new_message (e_junk E)) rows) (\<lambda>ms d. ?P d \<and> ?A ms)"
      unfolding xs by (rule triple_weaken [OF triple_fetch_messages [where P = ?P]])
        (use a xs in auto)
  qed
  then obtain ms t where "with_connection [] ?body s = (Ret ms, t)" "?A ms" "ds_pool t = ds_pool s"
    using total_method [of s ?P ?body "\<lambda>ms d. ?P d \<and> ?A ms" "[]"] eng(2) up
    by (auto simp: engine_answers_def engine_up_def)
  then show ?thesis using answers_pool [OF up] unfolding list_messages_def by blast
qed

end
