(* ===== verification/Room_History.thy ===== *)
theory Room_History
  imports Room_Properties Engine_Answers
begin

text \<open>
  \<open>RoomService::handleHistoryRequest\<close>: which messages of a room a member is shown, in which order
  and under which names; and the dereference of an empty optional it can run into.
\<close>

section \<open>Runs of a loop\<close>

lemma cmap_Ret:
  assumes "\<And>x a u v. x \<in> set xs \<Longrightarrow> I u \<Longrightarrow> f x u = (Ret a, v) \<Longrightarrow> I v \<and> R x a"
    and "I s" "cmap f xs s = (Ret ys, t)"
  shows "I t \<and> list_all2 R xs ys"
  using assms
proof (induction xs arbitrary: s ys)
  case (Cons x xs)
  from Cons.prems(3) obtain a as u where r: "f x s = (Ret a, u)" "cmap f xs u = (Ret as, t)" "ys = a # as"
    by (auto simp: cbind_Ret_iff)
  from Cons.prems(1) [OF _ Cons.prems(2) r(1)] have u: "I u" "R x a" by simp_all
  have "I t \<and> list_all2 R xs as"
    using Cons.prems(1) by (intro Cons.IH [OF _ u(1) r(2)]) auto
  with u r(3) show ?case by simp
qed simp

lemma cmap_total:
  assumes "\<And>x u. x \<in> set xs \<Longrightarrow> I u \<Longrightarrow> \<exists>a v. f x u = (Ret a, v) \<and> I v" and "I s"
  shows "\<exists>ys t. cmap f xs s = (Ret ys, t) \<and> I t"
  using assms
proof (induction xs arbitrary: s)
  case (Cons x xs)
  from Cons.prems(1) [of x s] Cons.prems(2) obtain a u where r: "f x s = (Ret a, u)" "I u" by auto
  obtain ys t where "cmap f xs u = (Ret ys, t)" "I t"
    using Cons.IH [OF _ r(2)] Cons.prems(1) by auto
  with r(1) show ?case by (simp add: cbind_def creturn_def)
qed (simp add: creturn_def)

lemma cmap_Undef:
  "cmap f xs s = (Ret ys, w) \<Longrightarrow> f x w = (Undef, w') \<Longrightarrow> cmap f (xs @ x # zs) s = (Undef, w')"
proof (induction xs arbitrary: s ys)
  case (Cons a xs)
  then obtain b bs u where "f a s = (Ret b, u)" "cmap f xs u = (Ret bs, w)"
    by (auto simp: cbind_Ret_iff)
  with Cons.IH Cons.prems(2) show ?case by (simp add: cbind_def)
qed (simp add: cbind_def creturn_def)

section \<open>What the database shows\<close>

text \<open>The latest \<open>n\<close> messages of a room, oldest first.\<close>

definition latest_rows :: "long_long \<Rightarrow> nat \<Rightarrow> tables \<Rightarrow> db_message list \<Rightarrow> bool" where
  "latest_rows room n T rows \<longleftrightarrow>
     (\<exists>xs. mset xs = mset (filter (\<lambda>m. scast (dm_room_id m) = room) (t_messages T)) \<and>
        sorted (rev (map (\<lambda>m. tm_key (dm_created_at m)) xs)) \<and> rows = rev (take n xs))"

lemma latest_rows_sorted:
  assumes "latest_rows room n T rows"
  shows "sorted (map (\<lambda>m. tm_key (dm_created_at m)) rows)" "length rows \<le> n"
proof -
  from assms obtain xs where xs: "sorted (rev (map (\<lambda>m. tm_key (dm_created_at m)) xs))"
    "rows = rev (take n xs)" by (auto simp: latest_rows_def)
  have "rev (map (\<lambda>m. tm_key (dm_created_at m)) xs) =
      rev (map (\<lambda>m. tm_key (dm_created_at m)) (drop n xs)) @ map (\<lambda>m. tm_key (dm_created_at m)) rows"
    by (simp add: xs(2) rev_map [symmetric] flip: map_append rev_append)
  with xs(1) show "sorted (map (\<lambda>m. tm_key (dm_created_at m)) rows)"
    by (metis sorted_append)
  show "length rows \<le> n" by (simp add: xs(2))
qed

text \<open>
  The entry for a message: its sender's id, its content, the room, the time the database has for it
  (if \<open>mktime\<close> can read it), and the name of the stored user of that id; \<open>Unknown\<close> when there is
  none, or when the lookup was not answered.
\<close>

definition entry_of ::
    "'db env \<Rightarrow> credential set \<Rightarrow> string \<Rightarrow> bool \<Rightarrow> db_message \<Rightarrow> message_broadcast \<Rightarrow> bool" where
  "entry_of E users room answered x e \<longleftrightarrow>
     mb_from_user_id e = to_string (scast (dm_sender_id x)) \<and> mb_content e = dm_content x \<and>
     mb_room_name e = Some room \<and>
     (\<forall>c. dm_created_at x = Some c \<and> e_mktime E c \<noteq> -1 \<longrightarrow>
        mb_timestamp e = Some (convertTimePointToTimestamp (e_tps E)
          (from_time_t (e_tps E) (e_mktime E c)))) \<and>
     ((\<exists>c \<in> users. cred_id c = scast (dm_sender_id x) \<and> cred_name c = mb_from_username e) \<or>
      (mb_from_username e = ''Unknown'' \<and>
       (answered \<longrightarrow> scast (dm_sender_id x) \<notin> cred_id ` users)))"

text \<open>The same of a message as the repository gives it.\<close>

definition entry_for ::
    "'db env \<Rightarrow> credential set \<Rightarrow> string \<Rightarrow> bool \<Rightarrow> message \<Rightarrow> message_broadcast \<Rightarrow> bool" where
  "entry_for E users room answered m e \<longleftrightarrow>
     mb_from_user_id e = to_string (m_sender_id m) \<and> mb_content e = m_content m \<and>
     mb_room_name e = Some room \<and>
     mb_timestamp e = Some (convertTimePointToTimestamp (e_tps E) (m_created_at m)) \<and>
     ((\<exists>c \<in> users. cred_id c = m_sender_id m \<and> cred_name c = mb_from_username e) \<or>
      (mb_from_username e = ''Unknown'' \<and> (answered \<longrightarrow> m_sender_id m \<notin> cred_id ` users)))"

lemma entry_for_of:
  "is_message E m x \<Longrightarrow> entry_for E users room answered m e \<Longrightarrow> entry_of E users room answered x e"
  by (auto simp: is_message_def entry_for_def entry_of_def)

text \<open>A state of the loop: the stores are those of \<open>s\<close>, and the engine answers if it did at \<open>s\<close>.\<close>

definition still ::
    "'db env \<Rightarrow> 'db db_view \<Rightarrow> ('db, 'z) service_state_scheme \<Rightarrow> ('db, 'z) service_state_scheme \<Rightarrow>
     bool" where
  "still E V s t \<longleftrightarrow>
     db_ok E V (ds_db t) \<and> db_users_of V (ds_db t) = db_users_of V (ds_db s) \<and>
     data_state.more t = data_state.more s \<and> (engine_answers E V s \<longrightarrow> engine_answers E V t)"

lemma still_find_id:
  fixes s t :: "('db, 'z) service_state_scheme"
  assumes "still E V s t" "findByUserId (MySQLUserRepository E) i t = (Ret a, u)"
  shows "still E V s u" "a = None \<Longrightarrow> engine_answers E V s \<Longrightarrow> i \<notin> cred_id ` db_users_of V (ds_db s)"
    "\<And>x. a = Some x \<Longrightarrow> credential_of x \<in> db_users_of V (ds_db s) \<and> u_id x = i"
proof -
  have ok: "db_ok E V (ds_db t)" using assms(1) by (simp add: still_def)
  note f = mysql_users.find_id [OF ok assms(2)] and c = findByUserId_complete [OF ok, of i]
  show "still E V s u" using assms f c by (auto simp: still_def)
  show "i \<notin> cred_id ` db_users_of V (ds_db s)" if "a = None" "engine_answers E V s"
    using assms c that by (auto simp: still_def)
  show "credential_of x \<in> db_users_of V (ds_db s) \<and> u_id x = i" if "a = Some x" for x
    using assms(1) f that by (simp add: still_def)
qed

lemma history_entry_Ret:
  fixes s t :: "('db, 'z) service_state_scheme"
  assumes s: "still E V s v"
    and run: "history_entry E (MySQLUserRepository E) room m v = (Ret e, t)"
  shows "still E V s t \<and> entry_for E (db_users_of V (ds_db s)) room (engine_answers E V s) m e"
proof -
  let ?U = "MySQLUserRepository E :: ('db, 'z) service_state_scheme user_repository"
  let ?N = "\<lambda>name. (\<exists>c \<in> db_users_of V (ds_db s). cred_id c = m_sender_id m \<and> cred_name c = name) \<or>
    (name = ''Unknown'' \<and> (engine_answers E V s \<longrightarrow> m_sender_id m \<notin> cred_id ` db_users_of V (ds_db s)))"
  from run obtain known u name where k: "findByUserId ?U (m_sender_id m) v = (Ret known, u)"
    and n: "(if known = None then creturn ''Unknown''
        else cbind (findByUserId ?U (m_sender_id m)) (\<lambda>again.
          case again of None \<Rightarrow> cundef | Some u \<Rightarrow> creturn (u_username u))) u = (Ret name, t)"
    and e: "e = \<lparr>mb_from_user_id = to_string (m_sender_id m), mb_from_username = name,
            mb_content = m_content m,
            mb_timestamp = Some (convertTimePointToTimestamp (e_tps E) (m_created_at m)),
            mb_room_name = Some room\<rparr>"
    unfolding history_entry_def by (auto simp: cbind_Ret_iff)
  note f = still_find_id [OF s k]
  have "still E V s t \<and> ?N name"
  proof (cases "known = None")
    case True
    with n f show ?thesis by simp
  next
    case False
    with n obtain x where x: "findByUserId ?U (m_sender_id m) u = (Ret (Some x), t)" "name = u_username x"
      by (auto simp: cbind_Ret_iff split: option.splits)
    from still_find_id [OF f(1) x(1)] x(2) show ?thesis
      by (auto intro!: bexI [of _ "credential_of x"])
  qed
  with e show ?thesis by (simp add: entry_for_def)
qed

text \<open>When the engine answers, an entry is made for every message.\<close>

lemma history_entry_complete:
  fixes s v :: "('db, 'z) service_state_scheme"
  assumes s: "still E V s v" "engine_answers E V s"
  shows "\<exists>e t. history_entry E (MySQLUserRepository E) room m v = (Ret e, t) \<and> still E V s t"
proof -
  let ?U = "MySQLUserRepository E :: ('db, 'z) service_state_scheme user_repository"
  have returns: "\<exists>a u. findByUserId ?U (m_sender_id m) w = (Ret a, u)" if "still E V s w" for w
    using findByUserId_complete [of E V w] that s(2) by (meson still_def)
  obtain a u where a: "findByUserId ?U (m_sender_id m) v = (Ret a, u)" using returns [OF s(1)] by blast
  note f = still_find_id [OF s(1) a]
  show ?thesis
  proof (cases a)
    case None
    with a f(1) show ?thesis by (simp add: history_entry_def cbind_def creturn_def)
  next
    case (Some x)
    obtain b w where b: "findByUserId ?U (m_sender_id m) u = (Ret b, w)" using returns [OF f(1)] by blast
    note g = still_find_id [OF f(1) b]
    have "b \<noteq> None" using g(2) s(2) f(3) [OF Some] by (metis cred_id_def credential_of_def fst_conv image_eqI)
    with a b Some g(1) show ?thesis by (auto simp: history_entry_def cbind_def creturn_def)
  qed
qed

lemma latest_messages:
  fixes s t :: "('db, 'z) service_state_scheme"
  assumes ok: "db_ok E V (ds_db s)"
    and run: "findLatestByRoomId (MySQLMessageRepository E) room n s = (Ret ms, t)"
  shows "still E V s t"
    and "(ms = [] \<and> \<not> engine_answers E V s) \<or>
      (\<exists>rows. latest_rows room (nat (sint n)) (dv_tables V (ds_db s)) rows \<and>
        list_all2 (is_message E) (rev ms) rows)"
proof -
  let ?T = "dv_tables V (ds_db s)"
  let ?q = "Messages_latest room n"
  have eng: "engine_ok E V" "idle V (ds_db s)" using ok by (simp_all add: db_ok_def)
  have r: "list_messages E ?q s = (Ret ms, t)"
    using run by (simp add: repository_fields MySQL_findLatestByRoomId_def)
  have inj: "inj message_row_of" by (rule injI) (auto simp: message_row_of_def)
  have rows: "\<exists>rows. latest_rows room (nat (sint n)) ?T rows \<and> list_all2 (is_message E) (rev ms) rows"
    if "message_answer V ?q ?T (map message_row_of xs)" "list_all2 (is_message E) ms xs" for xs
  proof -
    from that(1) have "latest_rows room (nat (sint n)) ?T (rev xs)"
      unfolding message_answer_def latest_rows_def
      by (auto simp: inj_map_eq_map [OF inj] simp del: rev_is_rev_conv)
    with that(2) show ?thesis by (metis list_all2_rev)
  qed
  note c = list_messages_complete [OF ok, of ?q, unfolded r]
  show "still E V s t"
    using mysql_messages.latest [OF ok run] mysql_chat.message_methods_keep(2) [OF ok run] c
    by (auto simp: still_def)
  from list_messages_fact [OF eng r] have f: "found_messages E V ?q ?T ms" by (simp add: read_post_def)
  show "(ms = [] \<and> \<not> engine_answers E V s) \<or>
      (\<exists>rows. latest_rows room (nat (sint n)) ?T rows \<and> list_all2 (is_message E) (rev ms) rows)"
  proof (cases "engine_answers E V s")
    case True
    with c rows show ?thesis by auto
  next
    case False
    with f rows show ?thesis by (auto simp: found_messages_def)
  qed
qed

text \<open>The handler after its guards, and what its loop shows.\<close>

lemma history_request_run:
  assumes "isAuthenticated (ss_session s i)" and uid: "userId (ss_session s i) = Some uid"
  shows "handleHistoryRequest E U M i req s =
    (if rs_userToRoom s uid \<noteq> Some (hq_room_name req) then (Ret (), s)
     else cbind (getUserCurrentRoomId uid) (\<lambda>roomId.
         cbind (findLatestByRoomId M roomId (history_limit (hq_limit req))) (\<lambda>latest.
         cbind (cmap (history_entry E U (hq_room_name req)) (rev latest)) (\<lambda>entries.
         session_send i (envelope_with (HistoryMessageResponse
           \<lparr>hp_room_name = hq_room_name req, hp_messages = entries\<rparr>))))) s)"
  by (simp add: handleHistoryRequest_def session_authenticated_bind assms(1)
      session_getter_bind(1) [OF uid])

lemma history_entries_Ret:
  fixes s t :: "('db, 'z) service_state_scheme"
  assumes ok: "db_ok E V (ds_db s)"
    and m: "findLatestByRoomId (MySQLMessageRepository E) room n s = (Ret ms, v)"
    and c: "cmap (history_entry E (MySQLUserRepository E) r) (rev ms) v = (Ret es, t)"
  shows "still E V s t"
    "(es = [] \<and> \<not> engine_answers E V s) \<or>
     (\<exists>rows. latest_rows room (nat (sint n)) (dv_tables V (ds_db s)) rows \<and>
       list_all2 (entry_of E (db_users_of V (ds_db s)) r (engine_answers E V s)) rows es)"
proof -
  let ?e = "entry_for E (db_users_of V (ds_db s)) r (engine_answers E V s)"
  note l = latest_messages [OF ok m]
  have e: "still E V s t \<and> list_all2 ?e (rev ms) es"
    by (rule cmap_Ret [where I = "still E V s", OF _ l(1) c]) (rule history_entry_Ret)
  then show "still E V s t" by simp
  from l(2) show "(es = [] \<and> \<not> engine_answers E V s) \<or>
     (\<exists>rows. latest_rows room (nat (sint n)) (dv_tables V (ds_db s)) rows \<and>
       list_all2 (entry_of E (db_users_of V (ds_db s)) r (engine_answers E V s)) rows es)"
  proof (elim disjE exE conjE)
    fix rows assume r: "latest_rows room (nat (sint n)) (dv_tables V (ds_db s)) rows"
      "list_all2 (is_message E) (rev ms) rows"
    from r(2) e [THEN conjunct2]
    have "list_all2 (entry_of E (db_users_of V (ds_db s)) r (engine_answers E V s)) rows es"
      unfolding list_all2_conv_all_nth by (metis entry_for_of)
    with r(1) show ?thesis by blast
  qed (use e in simp)
qed

lemma history_returns:
  fixes s :: "('db, 'z) service_state_scheme"
  assumes ok: "db_ok E V (ds_db s)" and up: "engine_answers E V s"
  shows "\<exists>ms v es t. findLatestByRoomId (MySQLMessageRepository E) room n s = (Ret ms, v) \<and>
    cmap (history_entry E (MySQLUserRepository E) r) (rev ms) v = (Ret es, t)"
proof -
  obtain ms v where m: "findLatestByRoomId (MySQLMessageRepository E) room n s = (Ret ms, v)"
    using list_messages_complete [OF ok up, of "Messages_latest room n"] by (auto simp: repository_fields MySQL_findLatestByRoomId_def)
  have "\<exists>es t. cmap (history_entry E (MySQLUserRepository E) r) (rev ms) v = (Ret es, t) \<and> still E V s t"
    by (rule cmap_total [where I = "still E V s", OF _ latest_messages(1) [OF ok m]])
      (rule history_entry_complete [OF _ up])
  with m show ?thesis by blast
qed

section \<open>Properties\<close>

text \<open>C21. The history of a room. A logged-in user is answered only about the room the user is in; any
  other request is dropped without a reply and without a change. The answer goes to that session
  only and names the room, and its entries are, for the stored room of that name, the latest
  messages in the database up to the limit (50 when the request names none), oldest first: each
  with its sender's id, its content, its time, and the name of the stored user of that id. Nothing
  else changes. While the engine answers (a connection is free and no reading statement fails) the
  handler returns, and this is the answer, with \<open>Unknown\<close> only for a sender who is not stored; a
  query that fails may also leave the list empty or a name \<open>Unknown\<close>.\<close>

theorem history_serves_latest:
  assumes "server_ok E V s"
    and "isAuthenticated (ss_session s i)" "userId (ss_session s i) = Some uid"
    and "handleHistoryRequest E (MySQLUserRepository E) (MySQLMessageRepository E) i req s = (out, t)"
  shows "(rs_userToRoom s uid \<noteq> Some (hq_room_name req) \<longrightarrow> out = Ret () \<and> t = s) \<and>
    (engine_answers E V s \<longrightarrow> out = Ret ()) \<and>
    (rs_userToRoom s uid = Some (hq_room_name req) \<and> out = Ret () \<longrightarrow>
      (\<exists>ar u es. rs_activeRooms s (hq_room_name req) = Some ar \<and>
         data_state.more u = data_state.more s \<and>
         t = snd (session_send i (envelope_with (HistoryMessageResponse
           \<lparr>hp_room_name = hq_room_name req, hp_messages = es\<rparr>)) u) \<and>
         ((es = [] \<and> \<not> engine_answers E V s) \<or>
          (\<exists>rows. latest_rows (ar_id ar) (nat (sint (history_limit (hq_limit req))))
              (dv_tables V (ds_db s)) rows \<and>
            list_all2 (entry_of E (db_users_of V (ds_db s)) (hq_room_name req) (engine_answers E V s))
              rows es))))"
proof -
  let ?r = "hq_room_name req"
  let ?M = "MySQLMessageRepository E :: ('a, 'b) service_state_scheme message_repository"
  have ok: "db_ok E V (ds_db s)" "rooms_ok s"
    using assms(1) by (simp_all add: server_ok_def service_okD)
  note run = assms(4) [unfolded history_request_run [OF assms(2,3)]]
  show ?thesis
  proof (cases "rs_userToRoom s uid = Some ?r")
    case False
    with run show ?thesis by simp
  next
    case True
    with ok(2) have "seat s ?r uid \<noteq> None" unfolding rooms_ok_def by blast
    then obtain ar where ar: "rs_activeRooms s ?r = Some ar"
      by (auto simp: seat_in_def split: option.splits)
    have id: "getUserCurrentRoomId uid s = (Ret (ar_id ar), s)"
      by (simp add: getUserCurrentRoomId_def True ar)
    have up: "out = Ret ()" if "engine_answers E V s"
      using history_returns [OF ok(1) that, of "ar_id ar" "history_limit (hq_limit req)" ?r] run True
      by (auto simp: cbind_Ret id session_send_apply)
    show ?thesis
    proof (cases "out = Ret ()")
      case ret: True
      from run [unfolded ret] True obtain ms v es u where
        m: "findLatestByRoomId ?M (ar_id ar) (history_limit (hq_limit req)) s = (Ret ms, v)"
        and c: "cmap (history_entry E (MySQLUserRepository E) ?r) (rev ms) v = (Ret es, u)"
        and t: "t = snd (session_send i (envelope_with (HistoryMessageResponse
           \<lparr>hp_room_name = ?r, hp_messages = es\<rparr>)) u)"
        by (auto simp: cbind_Ret_iff id session_send_apply)
      have "data_state.more u = data_state.more s"
        using history_entries_Ret(1) [OF ok(1) m c] by (simp add: still_def)
      with history_entries_Ret(2) [OF ok(1) m c] ar t ret True show ?thesis by blast
    qed (use True up in auto)
  qed
qed

text \<open>The small world with two messages in the lobby.\<close>

definition ref_said :: "long_long \<Rightarrow> int32 \<Rightarrow> string \<Rightarrow> int \<Rightarrow> db_message" where
  "ref_said i who text n =
     \<lparr>dm_id = i, dm_room_id = 1, dm_sender_id = who, dm_content = text,
      dm_created_at = Some (ref_tm n)\<rparr>"

definition ref_talk_db :: ref_db where
  "ref_talk_db = ref_db0\<lparr>rb_tables := ref_tables
     \<lparr>t_messages := [ref_said 1 1 ''hi'' 3, ref_said 2 2 ''ho'' 5]\<rparr>\<rparr>"

definition ref_talk :: "ref_db service_state" where
  "ref_talk = ref_service\<lparr>ds_db := ref_talk_db\<rparr>"

lemma ref_talk_db_ok: "engine_ok E ref_view \<Longrightarrow> db_ok E ref_view ref_talk_db"
  using ref_db_ok(1) ref_schema_ok
  by (simp add: db_ok_def idle_def ref_talk_db_def ref_db0_def schema_ok_def ref_said_def)

lemma ref_talk_ok: "engine_ok E ref_view \<Longrightarrow> server_ok E ref_view ref_talk"
proof -
  assume eng: "engine_ok E ref_view"
  have "db_ok E ref_view ref_db0"
    using eng ref_db_ok(1) by (simp add: db_ok_def)
  from ref_service_ok [OF this]
  have "tables_ok (=) (db_rooms_of ref_view ref_db0) (cred_id ` db_users_of ref_view ref_db0) ref_service"
    by (simp add: server_ok_def service_ok_def ref_service_db)
  moreover have "db_rooms_of ref_view ref_talk_db = db_rooms_of ref_view ref_db0"
    "db_users_of ref_view ref_talk_db = db_users_of ref_view ref_db0"
    by (simp_all add: db_rooms_of_def db_users_of_def ref_talk_db_def ref_db0_def)
  moreover have "tables_ok (=) K ids ref_talk = tables_ok (=) K ids ref_service" for K ids
    by (rule tables_ok_frame(1)) (simp add: ref_talk_def ref_service_def)
  ultimately show ?thesis
    using ref_talk_db_ok [OF eng] by (simp add: server_ok_def service_ok_def) (simp add: ref_talk_def)
qed

lemma ref_talk_sessions:
  "isAuthenticated (ss_session ref_talk 0)" "userId (ss_session ref_talk 0) = Some 1"
  "username (ss_session ref_talk 0) = Some ''ann''" "rs_userToRoom ref_talk = [1 \<mapsto> ''lobby'']"
  by (simp_all add: ref_talk_def ref_service_sessions ref_service_db)

lemmas history_run =
  handleHistoryRequest_def history_entry_def history_limit_def getUserCurrentRoomId_def
  convertTimePointToTimestamp_def new_message_def
  ref_talk_def ref_talk_db_def ref_said_def ref_tm_def tm_key_def

lemma ref_talk_answers: "engine_answers ref_env ref_view ref_talk"
  by (simp add: engine_answers_def engine_up_def ref_talk_def ref_service_def ref_pool_def ref_users_def
      ref_messages_def ref_begin_def idle_def ref_view_simps Let_def)

lemma history_serves_latest_witness:
  "(let r = handleHistoryRequest ref_env (MySQLUserRepository ref_env) (MySQLMessageRepository ref_env)
       0 \<lparr>hq_room_name = ''lobby'', hq_limit = 1\<rparr> ref_talk
    in fst r = Ret () \<and>
       (\<exists>es rows. latest_rows 1 1 (rb_tables ref_talk_db) rows \<and>
          list_all2 (entry_of ref_env (db_users_of ref_view ref_talk_db) ''lobby'' True) rows es \<and>
          map mb_content es = [''ho''] \<and> map mb_from_username es = [''bob''] \<and>
          ss_outbox (snd r) 0 = [envelope_with (HistoryMessageResponse
            \<lparr>hp_room_name = ''lobby'', hp_messages = es\<rparr>)]))"
proof -
  let ?r = "handleHistoryRequest ref_env (MySQLUserRepository ref_env) (MySQLMessageRepository ref_env)
    0 \<lparr>hq_room_name = ''lobby'', hq_limit = 1\<rparr> ref_talk"
  have sent: "\<exists>es. ss_outbox (snd ?r) 0 = [envelope_with
      (HistoryMessageResponse \<lparr>hp_room_name = ''lobby'', hp_messages = es\<rparr>)] \<and>
      map mb_content es = [''ho''] \<and> map mb_from_username es = [''bob'']"
    by (simp add: history_run room_run repo_run ref_run) (intro exI conjI, rule refl, simp, simp)
  note p = history_serves_latest [OF ref_talk_ok [OF ref_engine_ok] ref_talk_sessions(1,2)
      prod.collapse [of ?r, symmetric]]
  have out: "fst ?r = Ret ()" using p ref_talk_answers by blast
  have room: "rs_activeRooms ref_talk ''lobby'' = Some ref_lobby" "ar_id ref_lobby = 1"
    by (simp_all add: ref_talk_def ref_service_def ref_lobby_def)
  from p [THEN conjunct2, THEN conjunct2] out obtain u es rows where
    u: "data_state.more u = data_state.more ref_talk"
    "snd ?r = snd (session_send 0 (envelope_with (HistoryMessageResponse
        \<lparr>hp_room_name = ''lobby'', hp_messages = es\<rparr>)) u)"
    and es: "latest_rows 1 1 (rb_tables (ds_db ref_talk)) rows"
       "list_all2 (entry_of ref_env (db_users_of ref_view (ds_db ref_talk)) ''lobby'' True) rows es"
    using ref_talk_answers by (auto simp: ref_talk_sessions room history_limit_def)
  have box: "ss_outbox (snd ?r) 0 = [envelope_with (HistoryMessageResponse
      \<lparr>hp_room_name = ''lobby'', hp_messages = es\<rparr>)]"
    by (simp add: u(2) session_send_apply frame_session_state [OF u(1)])
      (simp add: ref_talk_def ref_service_def)
  with sent have "map mb_content es = [''ho'']" "map mb_from_username es = [''bob'']"
    by (auto simp: envelope_with_def)
  moreover have "ds_db ref_talk = ref_talk_db" by (simp add: ref_talk_def)
  ultimately show ?thesis
    using es unfolding Let_def by (intro conjI out exI [of _ es] exI [of _ rows] box) simp_all
qed

text \<open>
  The engine whose connections break after the first query for a user.
\<close>

definition flaky_env :: "ref_db env" where
  "flaky_env = ref_env\<lparr>db_users := (\<lambda>c q d.
     if 1 < rb_time d then (Inl ref_error, d) else (fst (ref_users c q d), d\<lparr>rb_time := 2\<rparr>))\<rparr>"

lemma flaky_engine_ok: "engine_ok flaky_env ref_view"
proof -
  have same: "db_begin flaky_env = db_begin ref_env" "db_commit flaky_env = db_commit ref_env"
    "db_rollback flaky_env = db_rollback ref_env" "db_rooms flaky_env = db_rooms ref_env"
    "db_messages flaky_env = db_messages ref_env" "db_insert flaky_env = db_insert ref_env"
    "db_last_id flaky_env = db_last_id ref_env" "db_created flaky_env = db_created ref_env"
    "db_change flaky_env = db_change ref_env"
    by (simp_all add: flaky_env_def)
  have "transaction_laws flaky_env ref_view"
    using ref_transaction_laws by (simp only: transaction_laws_def same)
  moreover have "update_laws flaky_env ref_view"
    unfolding update_laws_def same by (rule ref_update_laws [unfolded update_laws_def])
  moreover have "same_world ref_view c d d' \<and>
      (\<forall>rows. r = Inr rows \<longrightarrow> user_answer ref_view q (dv_seen ref_view c d) rows)"
    if "db_users flaky_env c q d = (r, d')" for c q d r d'
  proof -
    have *: "same_world ref_view c d (d\<lparr>rb_time := 2\<rparr>)" "same_world ref_view c d d"
      by (simp_all add: same_world_def rb_inside_def split: option.split)
    show ?thesis
    proof (cases "1 < rb_time d")
      case True
      with that * show ?thesis by (auto simp: flaky_env_def)
    next
      case False
      with that have "r = fst (ref_users c q d)" "d' = d\<lparr>rb_time := 2\<rparr>"
        by (auto simp: flaky_env_def)
      with * show ?thesis by (simp add: ref_users_def user_answer_def ref_seen)
    qed
  qed
  note user_law = this
  have "query_laws flaky_env ref_view"
    unfolding query_laws_def same
    by (rule conjI [OF _ ref_query_laws [unfolded query_laws_def, THEN conjunct2]])
      (intro allI impI user_law)
  ultimately show ?thesis by (simp add: engine_ok_def identity_equivp)
qed

text \<open>C22. The history can dereference nothing. Whatever repositories the service has: if a member's
  request has found messages, entries have been made for some of them, oldest first, and for the
  next one the first lookup of its sender finds a user but the second finds none, then the handler
  dereferences an empty optional.\<close>

theorem history_dereferences_nothing:
  assumes "isAuthenticated (ss_session s i)" "userId (ss_session s i) = Some uid"
    and "rs_userToRoom s uid = Some (hq_room_name req)" "rs_activeRooms s (hq_room_name req) = Some ar"
    and "findLatestByRoomId M (ar_id ar) (history_limit (hq_limit req)) s = (Ret latest, v)"
    and "rev latest = before @ m # after"
    and "cmap (history_entry E U (hq_room_name req)) before v = (Ret es, w)"
    and "findByUserId U (m_sender_id m) w = (Ret (Some u), w')"
    and "findByUserId U (m_sender_id m) w' = (Ret None, w'')"
  shows "fst (handleHistoryRequest E U M i req s) = Undef"
proof -
  let ?h = "history_entry E U (hq_room_name req)"
  have id: "getUserCurrentRoomId uid s = (Ret (ar_id ar), s)"
    by (simp add: getUserCurrentRoomId_def assms(3,4))
  have "?h m w = (Undef, w'')" using assms(8,9) by (simp add: history_entry_def cbind_def cundef_def)
  from cmap_Undef [OF assms(7) this] have "fst (cmap ?h (rev latest) v) = Undef" by (simp add: assms(6))
  then show ?thesis
    by (cases "cmap ?h (rev latest) v")
      (simp add: history_request_run [OF assms(1,2)] assms(3) cbind_def id assms(5))
qed

text \<open>An engine within the contract that does so: it fails after the first query for a user.\<close>

lemma history_dereferences_nothing_witness:
  "engine_ok flaky_env ref_view \<and> server_ok flaky_env ref_view ref_talk \<and>
   fst (handleHistoryRequest flaky_env (MySQLUserRepository flaky_env)
     (MySQLMessageRepository flaky_env) 0 \<lparr>hq_room_name = ''lobby'', hq_limit = 20\<rparr> ref_talk) = Undef"
proof -
  let ?U = "MySQLUserRepository flaky_env" and ?M = "MySQLMessageRepository flaky_env"
  let ?f = "findLatestByRoomId ?M 1 20 ref_talk"
  let ?ms = "case fst ?f of Ret ms \<Rightarrow> ms | _ \<Rightarrow> []"
  let ?g = "findByUserId ?U 1 (snd ?f)"
  note run = flaky_env_def ref_error_def history_run room_run repo_run ref_run
  have f: "?f = (Ret ?ms, snd ?f)" "map m_sender_id (rev ?ms) = [1, 2]" by (simp_all add: run)
  then obtain m m' where ms: "rev ?ms = [] @ m # [m']" "m_sender_id m = 1" by auto
  have g: "\<exists>u. ?g = (Ret (Some u), snd ?g)" "\<exists>z. findByUserId ?U 1 (snd ?g) = (Ret None, z)"
    by (simp_all add: run)
  then obtain u z where uz: "?g = (Ret (Some u), snd ?g)" "findByUserId ?U 1 (snd ?g) = (Ret None, z)" by blast
  have room: "rs_userToRoom ref_talk 1 = Some ''lobby''" "rs_activeRooms ref_talk ''lobby'' = Some ref_lobby"
    "ar_id ref_lobby = 1" by (simp_all add: ref_talk_def ref_service_def ref_lobby_def)
  have "fst (handleHistoryRequest flaky_env ?U ?M 0 \<lparr>hq_room_name = ''lobby'', hq_limit = 20\<rparr> ref_talk) = Undef"
    by (rule history_dereferences_nothing [of ref_talk 0 1 _ ref_lobby ?M ?ms "snd ?f" "[]" m "[m']" _ ?U "[]"
          "snd ?f" u "snd ?g" z])
      (use f(1) ms uz room ref_talk_sessions in \<open>simp_all add: history_limit_def creturn_def\<close>)
  then show ?thesis by (intro conjI flaky_engine_ok ref_talk_ok)
qed

end
