(* ===== verification/Message_Service.thy ===== *)
theory Message_Service
  imports Room_History
begin

text \<open>
  \<open>server/src/service/MessageService.cpp\<close>: messages to the room the sender is in, and messages to one
  user. The result of \<open>addMessage\<close> is not looked at, as in the code; the warnings print the
  sender's name and so call its getter.
\<close>

section \<open>Handlers\<close>

text \<open>\<open>google::protobuf::util::TimeUtil::GetCurrentTime()\<close>.\<close>

definition proto_now :: "'db env \<Rightarrow> (('db, 'z) data_state_scheme, timestamp) comp" where
  "proto_now E s = (Ret (e_proto_now E (ds_clock s)), s\<lparr>ds_clock := Suc (ds_clock s)\<rparr>)"

definition chat_envelope :: "long_long \<Rightarrow> string \<Rightarrow> string \<Rightarrow> string \<Rightarrow> timestamp \<Rightarrow> envelope" where
  "chat_envelope uid name content room now =
     envelope_with (MessageBroadcast
       \<lparr>mb_from_user_id = to_string uid, mb_from_username = name, mb_content = content,
        mb_timestamp = Some now, mb_room_name = Some room\<rparr>)"

definition handlePublicMessage ::
    "'db env \<Rightarrow> ('db, 'z) service_state_scheme message_repository \<Rightarrow> sid \<Rightarrow> public_message \<Rightarrow>
     (('db, 'z) service_state_scheme, unit) comp" where
  "handlePublicMessage E messages i req =
     cbind (session_authenticated i) (\<lambda>auth.
     if \<not> auth then creturn ()
     else
       cbind (session_user_id i) (\<lambda>senderId.
       cbind (getUserCurrentRoomName senderId) (\<lambda>roomName.
       if roomName = [] then
         cbind (session_username i) (\<lambda>_.
         session_send i (error_code_envelope
           ''You are not in any room. Join a room to send messages.'' 403))
       else
         cbind (getUserCurrentRoomId senderId) (\<lambda>roomId.
         cbind (addMessage messages ((new_message (e_junk E))
           \<lparr>m_sender_id := senderId, m_room_id := roomId, m_content := pm_content req\<rparr>)) (\<lambda>_.
         cbind (session_username i) (\<lambda>name.
         cbind (proto_now E) (\<lambda>now.
         cbind (session_user_id i) (\<lambda>again.
         cbind (getUserCurrentRoomName again) (\<lambda>target.
         broadcastToRoom target (chat_envelope senderId name (pm_content req) roomName now) 0)))))))))"

definition handlePrivateMessage ::
    "'db env \<Rightarrow> sid \<Rightarrow> private_message_request \<Rightarrow> (('db, 'z) service_state_scheme, unit) comp" where
  "handlePrivateMessage E i req =
     cbind (session_authenticated i) (\<lambda>auth.
     if \<not> auth then creturn ()
     else
       cbind (session_user_id i) (\<lambda>senderId.
       cbind (session_username i) (\<lambda>senderName.
       cbind (getUserCurrentRoomName senderId) (\<lambda>roomname.
       if roomname = [] then
         session_send i (error_code_envelope
           ''You are not in any room. Join a room to send messages.'' 403)
       else
         cbind (manager_findByUsername (vq_to_username req)) (\<lambda>accept.
         cbind (case accept of None \<Rightarrow> creturn False | Some j \<Rightarrow> session_authenticated j) (\<lambda>online.
         case (if online then accept else None) of
           None \<Rightarrow> session_send i (error_code_envelope (''The user '' @ vq_to_username req @
             '' you are trying to message does not exist or is not online.'') 404)
         | Some j \<Rightarrow>
             cbind (session_user_id j) (\<lambda>acceptId.
             if acceptId = senderId then
               session_send i (error_code_envelope
                 ''You cannot send a private message to yourself.'' 400)
             else
               cbind (proto_now E) (\<lambda>now.
               (let response = chat_envelope senderId senderName (vq_content req) roomname now
                in cthen (session_send j response) (session_send i response))))))))))"

section \<open>What the handlers do\<close>

lemma proto_now_bind:
  "cbind (proto_now E) f s = f (e_proto_now E (ds_clock s)) (s\<lparr>ds_clock := Suc (ds_clock s)\<rparr>)"
  by (simp add: proto_now_def cbind_def)

context chat_store
begin

lemma ok_clock: "ok s \<Longrightarrow> ok (s\<lparr>ds_clock := n\<rparr>)"
  by (rule service_ok_grow) (auto simp: service_okD(1))

text \<open>No member has the id 0, which \<open>broadcastToRoom\<close> excludes by default.\<close>

lemma reached_all: "ok s \<Longrightarrow> reached s r 0 j = card {u. seat s r u = Some j}"
proof -
  assume s: "ok s"
  have "seat s r 0 = None"
  proof (rule ccontr)
    assume "seat s r 0 \<noteq> None"
    with service_okD(5) [OF s] have "0 \<in> cred_id ` users (ds_db s)" by (auto simp: logins_known_def)
    with user_ids_positive [OF service_okD(1) [OF s]] show False by force
  qed
  then have "{u. u \<noteq> 0 \<and> seat s r u = Some j} = {u. seat s r u = Some j}" by auto
  then show ?thesis by (simp add: reached_def)
qed

lemma public_message_result:
  assumes s: "ok s"
    and i: "isAuthenticated (ss_session s i)" "userId (ss_session s i) = Some uid"
      "username (ss_session s i) = Some n"
    and room: "rs_userToRoom s uid = Some r" "r \<noteq> []"
    and run: "handlePublicMessage E messages_repo i req s = (out, t)"
  shows "ok t \<and> out \<noteq> Undef \<and> users (ds_db t) = users (ds_db s) \<and>
    stored (ds_db t) = stored (ds_db s) \<and> ss_session t = ss_session s \<and> place t = place s \<and>
    (exact s \<longrightarrow> exact t) \<and>
    (\<exists>ar. rs_activeRooms s r = Some ar \<and>
       (ar_id ar, ar_name ar, ar_creator_id ar) \<in> stored (ds_db s) \<and> same (ar_name ar) r \<and>
       log (ds_db t) \<in> {log (ds_db s), add_mset (ar_id ar, uid, pm_content req) (log (ds_db s))}) \<and>
    (if out = Ret () then
       \<exists>now. \<forall>j. ss_outbox t j = ss_outbox s j @
         replicate (card {u. seat s r u = Some j}) (chat_envelope uid n (pm_content req) r now)
     else ss_outbox t = ss_outbox s)"
proof -
  have "seat s r uid \<noteq> None" using service_okD(3) [OF s] room(1) by (simp add: rooms_ok_def)
  then obtain ar where ar: "rs_activeRooms s r = Some ar"
    by (auto simp: seat_in_def split: option.splits)
  from service_okD(4) [OF s] ar have known: "(ar_id ar, ar_name ar, ar_creator_id ar) \<in> stored (ds_db s)"
    "same (ar_name ar) r" by (simp_all add: rooms_known_def)
  let ?m = "(new_message (e_junk E))
    \<lparr>m_sender_id := uid, m_room_id := ar_id ar, m_content := pm_content req\<rparr>"
  let ?rest = "\<lambda>_. cbind (session_username i) (\<lambda>name.
         cbind (proto_now E) (\<lambda>now.
         cbind (session_user_id i) (\<lambda>again.
         cbind (getUserCurrentRoomName again) (\<lambda>target.
         broadcastToRoom target (chat_envelope uid name (pm_content req) r now) 0))))"
  from run have "cbind (addMessage messages_repo ?m) ?rest s = (out, t)"
    using room by (simp add: handlePublicMessage_def session_authenticated_bind i(1)
        session_getter_bind(1) [OF i(2)] getUserCurrentRoomName_def getUserCurrentRoomId_def ar)
  moreover have keep: "ok u \<and> o1 \<noteq> Undef \<and> data_state.more u = data_state.more s \<and>
      users (ds_db u) = users (ds_db s) \<and> stored (ds_db u) = stored (ds_db s) \<and>
      log (ds_db u) \<in> {log (ds_db s), add_mset (ar_id ar, uid, pm_content req) (log (ds_db s))}"
    if "addMessage messages_repo ?m s = (o1, u)" for o1 u
    using ms.add [OF service_okD(1) [OF s] that] message_methods_keep(1) [OF service_okD(1) [OF s] that]
      service_ok_grow [OF s, of u] by (simp add: logged_as_def)
  ultimately obtain u where u: "ok u" "out \<noteq> Undef" "data_state.more u = data_state.more s"
      "users (ds_db u) = users (ds_db s)" "stored (ds_db u) = stored (ds_db s)"
      "log (ds_db u) \<in> {log (ds_db s), add_mset (ar_id ar, uid, pm_content req) (log (ds_db s))}"
    and t: "(out \<noteq> Ret () \<and> t = u) \<or> ?rest () u = (out, t)"
  proof (cases rule: cbindE)
    case (returned a u)
    have "out \<noteq> Undef"
    proof -
      note f = frame_session_state [OF keep [OF returned(1), THEN conjunct2, THEN conjunct2, THEN conjunct1]]
      have "?rest () u = broadcastToRoom (case rs_userToRoom u uid of Some name \<Rightarrow> name | None \<Rightarrow> '''')
          (chat_envelope uid n (pm_content req) r (e_proto_now E (ds_clock u))) 0
          (u\<lparr>ds_clock := Suc (ds_clock u)\<rparr>)"
        using i f by (simp add: session_getter_bind proto_now_bind getUserCurrentRoomName_def)
      moreover have "rooms_wf (rs_activeRooms (u\<lparr>ds_clock := Suc (ds_clock u)\<rparr>))"
        using keep [OF returned(1)] service_okD(6) by fastforce
      ultimately show ?thesis using returned(2) by (auto simp: broadcast_run)
    qed
    with keep [OF returned(1)] returned(2) show thesis by (intro that [of u]) auto
  qed (use keep that in fastforce)+
  note f = frame_session_state [OF u(3)] frame_service_state [OF u(3)] tables_ok_frame(2,3) [OF u(3)]
  from t show ?thesis
  proof
    assume "out \<noteq> Ret () \<and> t = u"
    then show ?thesis using u ar known f by auto
  next
    assume run: "?rest () u = (out, t)"
    let ?now = "e_proto_now E (ds_clock u)"
    let ?v = "u\<lparr>ds_clock := Suc (ds_clock u)\<rparr>"
    let ?e = "chat_envelope uid n (pm_content req) r ?now"
    have v: "ok ?v" by (rule ok_clock [OF u(1)])
    have "?rest () u = broadcastToRoom r ?e 0 ?v"
      using i f room by (simp add: session_getter_bind proto_now_bind getUserCurrentRoomName_def)
    with run have "out = Ret ()" "t = ?v\<lparr>ss_outbox := (\<lambda>j. ss_outbox ?v j @ replicate (reached ?v r 0 j) ?e)\<rparr>"
      by (auto simp: broadcast_run [OF service_okD(6) [OF v]])
    moreover have "place ?v = place u" "exact ?v = exact u" by (rule tables_ok_frame; simp)+
    ultimately show ?thesis using u ar known f v reached_all [OF v] by auto
  qed
qed

end

text \<open>Outside a room both handlers answer with the code 403 and do nothing else.\<close>

lemma no_room_reply:
  assumes i: "isAuthenticated (ss_session s i)" "userId (ss_session s i) = Some uid"
      "username (ss_session s i) = Some n"
    and room: "rs_userToRoom s uid \<in> {None, Some []}"
  shows "handlePublicMessage E messages i preq s = session_send i (error_code_envelope
      ''You are not in any room. Join a room to send messages.'' 403) s"
    "handlePrivateMessage E i vreq s = session_send i (error_code_envelope
      ''You are not in any room. Join a room to send messages.'' 403) s"
  using room
  by (auto simp: handlePublicMessage_def handlePrivateMessage_def session_authenticated_bind i(1)
      session_getter_bind(1) [OF i(2)] session_getter_bind(2) [OF i(3)] getUserCurrentRoomName_def)

text \<open>A private message: the addressee is whoever the registry has under the name.\<close>

lemma private_message_run:
  assumes reg: "registry_ok s"
    and i: "isAuthenticated (ss_session s i)" "userId (ss_session s i) = Some uid"
      "username (ss_session s i) = Some n"
    and room: "rs_userToRoom s uid = Some r" "r \<noteq> []"
  shows "handlePrivateMessage E i req s =
    (case ss_byUsername s (vq_to_username req) of
       None \<Rightarrow> session_send i (error_code_envelope (''The user '' @ vq_to_username req @
             '' you are trying to message does not exist or is not online.'') 404) s
     | Some j \<Rightarrow>
         if userId (ss_session s j) = Some uid
         then session_send i (error_code_envelope
           ''You cannot send a private message to yourself.'' 400) s
         else (let e = chat_envelope uid n (vq_content req) r (e_proto_now E (ds_clock s))
               in cthen (session_send j e) (session_send i e) (s\<lparr>ds_clock := Suc (ds_clock s)\<rparr>)))"
proof (cases "ss_byUsername s (vq_to_username req)")
  case None
  then show ?thesis
    using room by (simp add: handlePrivateMessage_def session_authenticated_bind i(1)
      session_getter_bind(1) [OF i(2)] session_getter_bind(2) [OF i(3)] getUserCurrentRoomName_def
      manager_findByUsername_def)
next
  case (Some j)
  then have j: "isAuthenticated (ss_session s j)" using reg by (auto simp: registry_ok_def)
  from registry_ok_getters [OF reg j] obtain aid where aid: "userId (ss_session s j) = Some aid" by metis
  show ?thesis
    using room Some j aid
    by (simp add: handlePrivateMessage_def session_authenticated_bind i(1)
      session_getter_bind(1) [OF i(2)] session_getter_bind(2) [OF i(3)] getUserCurrentRoomName_def
      manager_findByUsername_def session_getter_bind(1) [OF aid] proto_now_bind Let_def)
qed

section \<open>Properties\<close>

text \<open>C23. A public message reaches exactly the members of the sender's room. For a logged-in user in a
  room (with a name), every session receives one copy for each member seated through it, under
  the sender's id, name and room, and nothing else is sent; the sender's own seat is one of them.
  The message is stored at most once, under the id of the stored room of that name, with the
  sender's id and the content; a message whose storing failed is delivered all the same. When the
  handler does not return nothing was sent. No user, room, seat or login changes.\<close>

theorem public_message_delivered:
  assumes "server_ok E V s"
    and "isAuthenticated (ss_session s i)" "userId (ss_session s i) = Some uid"
      "username (ss_session s i) = Some n"
    and "rs_userToRoom s uid = Some r" "r \<noteq> []"
    and "handlePublicMessage E (MySQLMessageRepository E) i req s = (out, t)"
  shows "server_ok E V t \<and> out \<noteq> Undef \<and> db_users_of V (ds_db t) = db_users_of V (ds_db s) \<and>
    db_rooms_of V (ds_db t) = db_rooms_of V (ds_db s) \<and> ss_session t = ss_session s \<and>
    place t = place s \<and> (exact s \<longrightarrow> exact t) \<and>
    (\<exists>ar. rs_activeRooms s r = Some ar \<and>
       (ar_id ar, ar_name ar, ar_creator_id ar) \<in> db_rooms_of V (ds_db s) \<and>
       dv_same_text V (ar_name ar) r \<and>
       db_log_of V (ds_db t) \<in>
         {db_log_of V (ds_db s), add_mset (ar_id ar, uid, pm_content req) (db_log_of V (ds_db s))}) \<and>
    (if out = Ret () then
       \<exists>now. \<forall>j. ss_outbox t j = ss_outbox s j @
         replicate (card {u. seat s r u = Some j}) (chat_envelope uid n (pm_content req) r now)
     else ss_outbox t = ss_outbox s)"
  using assms unfolding server_ok_def by (rule mysql_chat.public_message_result)

lemmas message_run =
  handlePublicMessage_def handlePrivateMessage_def getUserCurrentRoomName_def
  getUserCurrentRoomId_def proto_now_def new_message_def manager_findByUsername_def

lemma public_message_delivered_witness:
  "(let t = snd (handlePublicMessage ref_env (MySQLMessageRepository ref_env) 0
       \<lparr>pm_content = ''hey''\<rparr> ref_service)
    in server_ok ref_env ref_view t \<and> db_log_of ref_view (ds_db t) = {#(1, 1, ''hey'')#} \<and>
       (\<exists>now. ss_outbox t 0 = [chat_envelope 1 ''ann'' ''hey'' ''lobby'' now]) \<and> ss_outbox t 1 = [])"
proof -
  let ?r = "handlePublicMessage ref_env (MySQLMessageRepository ref_env) 0
    \<lparr>pm_content = ''hey''\<rparr> ref_service"
  have "fst ?r = Ret ()" and log: "db_log_of ref_view (ds_db (snd ?r)) = {#(1, 1, ''hey'')#}"
    by (simp_all add: message_run room_run repo_run ref_run db_log_of_def row_logged_def)
  then have run: "?r = (Ret (), snd ?r)" by (metis prod.collapse)
  note p = public_message_delivered [OF ref_service_ok [OF ref_db_ok(1)] ref_service_sessions(1,3,5)
      _ _ run]
  have p: "server_ok ref_env ref_view (snd ?r)"
    "\<exists>now. \<forall>j. ss_outbox (snd ?r) j = ss_outbox ref_service j @
         replicate (card {u. seat ref_service ''lobby'' u = Some j})
           (chat_envelope 1 ''ann'' ''hey'' ''lobby'' now)"
    using p [of "''lobby''"] by (simp_all add: ref_service_db)
  moreover have "{u. seat ref_service ''lobby'' u = Some 0} = {1}"
    "{u. seat ref_service ''lobby'' u = Some 1} = {}"
    by (auto simp: ref_service_seat split: if_splits)
  moreover have "ss_outbox ref_service j = []" for j by (simp add: ref_service_def)
  ultimately have "(\<exists>now. ss_outbox (snd ?r) 0 = [chat_envelope 1 ''ann'' ''hey'' ''lobby'' now]) \<and>
      ss_outbox (snd ?r) 1 = []" by fastforce
  with p(1) log show ?thesis unfolding Let_def by blast
qed

text \<open>C24. A private message. For a logged-in user in a room the handler always returns and changes
  nothing but outboxes (it stores nothing). If no session is registered under the name, or the
  registered session belongs to the sender, the sender alone gets an error with the code 404 or
  400; otherwise the registered session and the sender get one copy each, and nobody else
  anything. Outside a room the sender gets an error with the code 403.\<close>

theorem private_message_outcome:
  assumes "server_ok E V s"
    and "isAuthenticated (ss_session s i)" "userId (ss_session s i) = Some uid"
      "username (ss_session s i) = Some n"
  shows "\<exists>t. handlePrivateMessage E i req s = (Ret (), t) \<and> ds_db t = ds_db s \<and>
    ss_session t = ss_session s \<and> place t = place s \<and>
    (let e = chat_envelope uid n (vq_content req) (the (rs_userToRoom s uid))
           (e_proto_now E (ds_clock s));
         to = ss_byUsername s (vq_to_username req)
     in if rs_userToRoom s uid \<in> {None, Some []} then
          ss_outbox t = (ss_outbox s)(i := ss_outbox s i @ [error_code_envelope
            ''You are not in any room. Join a room to send messages.'' 403])
        else if to = None then
          ss_outbox t = (ss_outbox s)(i := ss_outbox s i @ [error_code_envelope (''The user '' @
            vq_to_username req @ '' you are trying to message does not exist or is not online.'') 404])
        else if userId (ss_session s (the to)) = Some uid then
          ss_outbox t = (ss_outbox s)(i := ss_outbox s i @ [error_code_envelope
            ''You cannot send a private message to yourself.'' 400])
        else the to \<noteq> i \<and>
          ss_outbox t = (ss_outbox s)(i := ss_outbox s i @ [e], the to := ss_outbox s (the to) @ [e]))"
proof (cases "rs_userToRoom s uid \<in> {None, Some []}")
  case True
  then show ?thesis
    by (simp add: no_room_reply(2) [OF assms(2-4) True] session_send_apply Let_def)
next
  case False
  then obtain r where r: "rs_userToRoom s uid = Some r" "r \<noteq> []" by auto
  have "registry_ok s" using assms(1) by (simp add: server_ok_def service_okD)
  note run = private_message_run [OF this assms(2-4) r]
  show ?thesis
  proof (cases "ss_byUsername s (vq_to_username req)")
    case None
    with r show ?thesis by (simp add: run session_send_apply)
  next
    case (Some j)
    show ?thesis
    proof (cases "userId (ss_session s j) = Some uid")
      case True
      with r Some show ?thesis by (simp add: run session_send_apply)
    next
      case noself: False
      then have "j \<noteq> i" using assms(3) by auto
      moreover have "place (s\<lparr>ds_clock := m\<rparr>) = place s" for m by (rule tables_ok_frame) simp
      ultimately show ?thesis
        using Some noself r
        by (auto simp: run session_send_apply cthen_def cbind_def Let_def fun_upd_twist)
    qed
  qed
qed

lemma ref_service_names:
  "ss_byUsername ref_service = [''ann'' \<mapsto> 0, ''bob'' \<mapsto> 1]" "ss_outbox ref_service j = []"
  by (simp_all add: ref_service_def)

lemma private_message_outcome_witness:
  "\<exists>t. handlePrivateMessage ref_env 0 \<lparr>vq_to_username = ''bob'', vq_content = ''psst''\<rparr> ref_service
     = (Ret (), t) \<and> length (ss_outbox t 0) = 1 \<and> length (ss_outbox t 1) = 1"
  using private_message_outcome [OF ref_service_ok [OF ref_db_ok(1)] ref_service_sessions(1,3,5),
      of "\<lparr>vq_to_username = ''bob'', vq_content = ''psst''\<rparr>"]
  by (auto simp: ref_service_db ref_service_names ref_service_sessions(4) [unfolded One_nat_def] Let_def)

end
