(* ===== verification/Server.thy ===== *)
theory Server
  imports Message_Service
begin

text \<open>
  \<open>server/src/core/Server.cpp\<close>: accepting connections, handing a received envelope over to the
  services, and the end of a connection. \<open>asio::post\<close> puts a handler among the tasks of the
  io_context; they run one at a time and in any order, as nothing orders handlers that no strand
  binds; only the log has a strand, so that its lines keep their order. The read loop of every
  session is the byte machine of \<open>Wire_Format\<close>, so that the server as a whole is a transition system
  over the events of the outside world: connections, bytes, failing reads and writes, and the
  scheduler's choices.

  The model has one thread, which is what the example configuration gives (it names no
  \<open>threads\<close>). A handler that throws leaves \<open>io_context::run\<close> and the process ends. A handler that
  finds the pool empty waits (\<open>Waiting\<close>), and the run of this model ends there: nothing but another
  handler could give a connection back. What happens to waiting threads, for any number of them and
  with the rule by which they go on, is the subject of \<open>Pool_Threads\<close>.
\<close>

section \<open>State\<close>

datatype task = Dispatch_task sid envelope | Disconnect_task sid | is_log: Log_task string

datatype status = Running | Ended exn | Waiting | Undefined

record 'db server_state = "'db service_state" +
  sv_reader :: "sid \<Rightarrow> reader"
  sv_next :: sid
  sv_tasks :: "task list"
  sv_printed :: "string list"
  sv_status :: status

definition stopped_reader :: reader where
  "stopped_reader = \<lparr>rd_phase = Stopped, rd_buf = []\<rparr>"

definition post :: "task \<Rightarrow> (('db, 'z) server_state_scheme, unit) comp" where
  "post k = cmodify (\<lambda>s. s\<lparr>sv_tasks := sv_tasks s @ [k]\<rparr>)"

section \<open>Handlers\<close>

text \<open>The log of \<open>onMessage\<close> reads the name and the id of an authenticated session.\<close>

definition onMessage :: "sid \<Rightarrow> envelope \<Rightarrow> (('db, 'z) server_state_scheme, unit) comp" where
  "onMessage i e =
     cbind (session_authenticated i) (\<lambda>auth.
     cthen
       (if auth then cbind (session_username i) (\<lambda>_. cbind (session_user_id i) (\<lambda>_. creturn ()))
        else creturn ())
       (post (Dispatch_task i e)))"

definition postLog :: "string \<Rightarrow> (('db, 'z) server_state_scheme, unit) comp" where
  "postLog message = post (Log_task message)"

definition dispatchMessage ::
    "'db env \<Rightarrow> sid \<Rightarrow> envelope \<Rightarrow> (('db, 'z) service_state_scheme, unit) comp" where
  "dispatchMessage E i e =
     (case payload e of
        Some (LoginRequest r) \<Rightarrow> handleLogin E (MySQLUserRepository E) i r
      | Some (RegistrationRequest r) \<Rightarrow> handleRegister E (MySQLUserRepository E) i r
      | p \<Rightarrow>
          cbind (session_authenticated i) (\<lambda>auth.
          if \<not> auth then session_send i (error_envelope ''Authentication required.'')
          else
            case p of
              Some (ChangePasswordRequest r) \<Rightarrow> handleChangePassword E (MySQLUserRepository E) i r
            | Some (ChangeUsernameRequest r) \<Rightarrow> handleChangeUsername E (MySQLUserRepository E) i r
            | Some (PublicMessage r) \<Rightarrow> handlePublicMessage E (MySQLMessageRepository E) i r
            | Some (PrivateMessageRequest r) \<Rightarrow> handlePrivateMessage E i r
            | Some (RoomOperationRequest r) \<Rightarrow> handleRoomOperation E (MySQLRoomRepository E) i r
            | Some (HistoryMessageRequest r) \<Rightarrow>
                handleHistoryRequest E (MySQLUserRepository E) (MySQLMessageRepository E) i r
            | _ \<Rightarrow> creturn ()))"

definition onDisconnect :: "sid \<Rightarrow> (('db, 'z) server_state_scheme, unit) comp" where
  "onDisconnect i = post (Disconnect_task i)"

definition disconnect_task :: "sid \<Rightarrow> (('db, 'z) server_state_scheme, unit) comp" where
  "disconnect_task i =
     cbind (session_authenticated i) (\<lambda>auth.
     cthen
       (if auth then
          cbind (session_username i) (\<lambda>name.
          cbind (session_user_id i) (\<lambda>uid.
          cthen (postLog (''[INFO] User '' @ [CHR 0x27] @ name @ [CHR 0x27] @ '' (ID: '' @
            to_string uid @ '') disconnected.''))
          (handleDisconnect i)))
        else postLog ''[INFO] An anonymous connection closed.'')
       (manager_remove i))"

fun run_task :: "'db env \<Rightarrow> task \<Rightarrow> (('db, 'z) server_state_scheme, unit) comp" where
  "run_task E (Dispatch_task i e) = dispatchMessage E i e"
| "run_task E (Disconnect_task i) = disconnect_task i"
| "run_task E (Log_task message) = cmodify (\<lambda>s. s\<lparr>sv_printed := sv_printed s @ [message]\<rparr>)"

text \<open>
  \<open>handle_accept\<close>: the peer's address is read for the log, which may throw; the exception is
  caught. Another connection is awaited in any case.
\<close>

definition handle_accept ::
    "error_code \<Rightarrow> bool \<Rightarrow> ('db, 'z) server_state_scheme \<Rightarrow> ('db, 'z) server_state_scheme" where
  "handle_accept ec has_endpoint s =
     (let i = sv_next s;
          s' = (if ec = Ec_ok \<and> has_endpoint
                then s\<lparr>sv_reader := (sv_reader s)(i := reader_start)\<rparr> else s)
      in s'\<lparr>sv_next := Suc i\<rparr>)"

section \<open>The session's side\<close>

definition session_error ::
    "sid \<Rightarrow> string \<Rightarrow> error_code \<Rightarrow> (('db, 'z) server_state_scheme, unit) comp" where
  "session_error i what ec =
     cbind (cget (\<lambda>s. handle_error what ec (ss_session s i))) (\<lambda>(x, closed).
     cthen (on_session i (\<lambda>_. x)) (if closed then onDisconnect i else creturn ()))"

fun session_event ::
    "sid \<Rightarrow> envelope read_event \<Rightarrow> (('db, 'z) server_state_scheme, unit) comp" where
  "session_event i (Deliver e) = onMessage i e"
| "session_event i (Error what ec) = session_error i what ec"

fun session_events ::
    "sid \<Rightarrow> envelope read_event list \<Rightarrow> (('db, 'z) server_state_scheme, unit) comp" where
  "session_events i [] = creturn ()"
| "session_events i (ev # evs) = cthen (session_event i ev) (session_events i evs)"

text \<open>A byte arrives for the pending read of a session; the read fails.\<close>

definition session_byte ::
    "endian \<Rightarrow> (byte list \<Rightarrow> envelope option) \<Rightarrow> sid \<Rightarrow> byte \<Rightarrow>
     (('db, 'z) server_state_scheme, unit) comp" where
  "session_byte en parse i b =
     cbind (cget (\<lambda>s. read_byte (header_complete en) (body_complete parse) (sv_reader s i) b))
       (\<lambda>(r, evs).
       cthen (cmodify (\<lambda>s. s\<lparr>sv_reader := (sv_reader s)(i := r)\<rparr>)) (session_events i evs))"

definition session_read_failed ::
    "sid \<Rightarrow> error_code \<Rightarrow> (('db, 'z) server_state_scheme, unit) comp" where
  "session_read_failed i ec =
     cbind (cget (\<lambda>s. case rd_phase (sv_reader s i) of
         Reading_header \<Rightarrow> header_failed ec | Reading_body n \<Rightarrow> body_failed ec | Stopped \<Rightarrow> []))
       (\<lambda>evs.
       cthen (cmodify (\<lambda>s. s\<lparr>sv_reader := (sv_reader s)(i := stopped_reader)\<rparr>)) (session_events i evs))"

section \<open>The transition system\<close>

datatype event =
    Accept error_code bool
  | Byte sid byte
  | Read_fails sid error_code
  | Write_fails sid error_code
  | Task task
  | Replenished

definition handler_end ::
    "(('db, 'z) server_state_scheme, unit) comp \<Rightarrow> ('db, 'z) server_state_scheme \<Rightarrow>
     ('db, 'z) server_state_scheme" where
  "handler_end m s =
     (case m s of
        (Ret _, t) \<Rightarrow> t
      | (Throw e, t) \<Rightarrow> t\<lparr>sv_status := Ended e\<rparr>
      | (Block, t) \<Rightarrow> t\<lparr>sv_status := Waiting\<rparr>
      | (Undef, t) \<Rightarrow> t\<lparr>sv_status := Undefined\<rparr>)"

inductive server_step ::
    "'db env \<Rightarrow> endian \<Rightarrow> (byte list \<Rightarrow> envelope option) \<Rightarrow> event \<Rightarrow>
     ('db, 'z) server_state_scheme \<Rightarrow> ('db, 'z) server_state_scheme \<Rightarrow> bool"
  for E en parse where
  step_accept:
    "sv_status s = Running \<Longrightarrow>
     server_step E en parse (Accept ec has_endpoint) s (handle_accept ec has_endpoint s)"
| step_byte:
    "sv_status s = Running \<Longrightarrow> rd_phase (sv_reader s i) \<noteq> Stopped \<Longrightarrow>
     server_step E en parse (Byte i b) s (handler_end (session_byte en parse i b) s)"
| step_read_fails:
    "sv_status s = Running \<Longrightarrow> rd_phase (sv_reader s i) \<noteq> Stopped \<Longrightarrow> ec \<noteq> Ec_ok \<Longrightarrow>
     server_step E en parse (Read_fails i ec) s (handler_end (session_read_failed i ec) s)"
| step_write_fails:
    "sv_status s = Running \<Longrightarrow> i < sv_next s \<Longrightarrow> ss_outbox s i \<noteq> [] \<Longrightarrow>
     ec \<noteq> Ec_ok \<Longrightarrow>
     server_step E en parse (Write_fails i ec) s (handler_end (session_error i ''Write'' ec) s)"
| step_task:
    "sv_status s = Running \<Longrightarrow> sv_tasks s = ks @ k # ks' \<Longrightarrow> \<not> (is_log k \<and> list_ex is_log ks) \<Longrightarrow>
     server_step E en parse (Task k) s (handler_end (run_task E k) (s\<lparr>sv_tasks := ks @ ks'\<rparr>))"
| step_replenish:
    "sv_status s = Running \<Longrightarrow> 0 < cp_pending (ds_pool s) \<Longrightarrow>
     server_step E en parse Replenished s
       (s\<lparr>ds_pool := fst (replenish_task (e_connect E) (ds_pool s))\<rparr>)"

inductive_cases server_stepE: "server_step E en parse ev s t"
inductive_simps server_step_task: "server_step E en parse (Task k) s t"
inductive_simps server_step_byte: "server_step E en parse (Byte i b) s t"

text \<open>\<open>main\<close> initialises the pool and starts to accept; nobody is connected.\<close>

definition server_start :: "'db \<Rightarrow> pool \<Rightarrow> 'db server_state" where
  "server_start d p =
     \<lparr>ds_db = d, ds_pool = p, ds_clock = 0, ds_draws = 0,
      ss_session = (\<lambda>_. new_session), ss_outbox = (\<lambda>_. []), ss_sessions = [],
      ss_byUserId = Map.empty, ss_byUsername = Map.empty,
      rs_activeRooms = Map.empty, rs_userToRoom = Map.empty,
      sv_reader = (\<lambda>_. stopped_reader), sv_next = 0, sv_tasks = [], sv_printed = [],
      sv_status = Running\<rparr>"

inductive server_run ::
    "'db env \<Rightarrow> endian \<Rightarrow> (byte list \<Rightarrow> envelope option) \<Rightarrow> ('db, 'z) server_state_scheme \<Rightarrow>
     event list \<Rightarrow> ('db, 'z) server_state_scheme \<Rightarrow> bool"
  for E en parse s0 where
  run_start: "server_run E en parse s0 [] s0"
| run_step:
    "server_run E en parse s0 evs s \<Longrightarrow> server_step E en parse ev s t \<Longrightarrow>
     server_run E en parse s0 (evs @ [ev]) t"

end
