(* ===== verification/Server_Discipline.thy ===== *)
theory Server_Discipline
  imports Server
begin

text \<open>
  What every handler of the server keeps, whatever the database does: the pool's connections are
  conserved, a handler waits only on an empty pool, it throws nothing but the two exceptions no
  \<open>catch\<close> clause covers, the sessions' invariant holds on, and nobody's identity changes but in a
  login. \<open>disciplined P\<close> is the frame rule: it composes along the handlers' own structure.
\<close>

section \<open>The discipline\<close>

definition admitted :: "exn \<Rightarrow> bool" where
  "admitted e \<longleftrightarrow>
     (\<exists>n. e = Soci_error (Other_category n)) \<or> e = Runtime_error ''Failed to generate random salt.''"

definition disciplined ::
    "(('db, 'z) data_state_scheme \<Rightarrow> bool) \<Rightarrow> (('db, 'z) data_state_scheme, 'a) comp \<Rightarrow> bool" where
  "disciplined P m \<longleftrightarrow>
     (\<forall>s out t. P s \<longrightarrow> cp_instance (ds_pool s) \<longrightarrow> m s = (out, t) \<longrightarrow>
        P t \<and> cp_instance (ds_pool t) \<and> capacity (ds_pool t) = capacity (ds_pool s) \<and>
        (out = Block \<longrightarrow> cp_free (ds_pool t) = []) \<and> (\<forall>e. out = Throw e \<longrightarrow> admitted e))"

lemma disciplinedI:
  assumes "\<And>s out t. P s \<Longrightarrow> cp_instance (ds_pool s) \<Longrightarrow> m s = (out, t) \<Longrightarrow>
    P t \<and> cp_instance (ds_pool t) \<and> capacity (ds_pool t) = capacity (ds_pool s) \<and>
    (out = Block \<longrightarrow> cp_free (ds_pool t) = []) \<and> (\<forall>e. out = Throw e \<longrightarrow> admitted e)"
  shows "disciplined P m"
  unfolding disciplined_def using assms by blast

lemma disciplinedD:
  assumes "disciplined P m" "P s" "cp_instance (ds_pool s)" "m s = (out, t)"
  shows "P t" "cp_instance (ds_pool t)" "capacity (ds_pool t) = capacity (ds_pool s)"
    "out = Block \<Longrightarrow> cp_free (ds_pool t) = []" "out = Throw e \<Longrightarrow> admitted e"
  using assms unfolding disciplined_def by blast+

lemma disciplined_basic [simp, intro]:
  "disciplined P (creturn a)" "disciplined P cundef" "disciplined P (cget g)"
  by (auto simp: disciplined_def)

lemma disciplined_cbind [intro]:
  assumes "disciplined P m" "\<And>a. disciplined P (f a)"
  shows "disciplined P (cbind m f)"
proof (rule disciplinedI)
  fix s out t assume s: "P s" "cp_instance (ds_pool s)" and run: "cbind m f s = (out, t)"
  from run show "P t \<and> cp_instance (ds_pool t) \<and> capacity (ds_pool t) = capacity (ds_pool s) \<and>
      (out = Block \<longrightarrow> cp_free (ds_pool t) = []) \<and> (\<forall>e. out = Throw e \<longrightarrow> admitted e)"
  proof (cases rule: cbindE)
    case (returned a u)
    note u = disciplinedD [OF assms(1) s returned(1)]
    from disciplinedD [OF assms(2) u(1,2) returned(2)] u(3) show ?thesis by auto
  qed (use disciplinedD [OF assms(1) s] in auto)
qed

lemma disciplined_cthen [intro]: "disciplined P m \<Longrightarrow> disciplined P n \<Longrightarrow> disciplined P (cthen m n)"
  unfolding cthen_def by (rule disciplined_cbind)

lemma disciplined_if [intro]:
  "disciplined P m \<Longrightarrow> disciplined P n \<Longrightarrow> disciplined P (if b then m else n)"
  by simp

lemma disciplined_cmap [intro]:
  "(\<And>x. disciplined P (f x)) \<Longrightarrow> disciplined P (cmap f xs)"
  by (induction xs) auto

lemma disciplined_cmodify:
  assumes "\<And>s. P s \<Longrightarrow> P (f s)" "\<And>s. ds_pool (f s) = ds_pool s"
  shows "disciplined P (cmodify f)"
  using assms by (auto simp: disciplined_def)

text \<open>Parts that leave the pool alone and return.\<close>

lemma disciplined_quiet:
  assumes "\<And>s. P s \<Longrightarrow> \<exists>a t. m s = (Ret a, t) \<and> P t \<and> ds_pool t = ds_pool s"
  shows "disciplined P m"
proof (rule disciplinedI)
  fix s out t assume "P s" "cp_instance (ds_pool s)" "m s = (out, t)"
  with assms [of s] show "P t \<and> cp_instance (ds_pool t) \<and> capacity (ds_pool t) = capacity (ds_pool s) \<and>
      (out = Block \<longrightarrow> cp_free (ds_pool t) = []) \<and> (\<forall>e. out = Throw e \<longrightarrow> admitted e)" by auto
qed

section \<open>Repository methods\<close>

text \<open>A predicate that the data layer cannot change.\<close>

definition framed :: "(('db, 'z) data_state_scheme \<Rightarrow> bool) \<Rightarrow> bool" where
  "framed P \<longleftrightarrow> (\<forall>s t. data_state.more t = data_state.more s \<longrightarrow> P t = P s)"

lemma with_connection_throws:
  assumes "cp_instance (ds_pool s)" "with_connection d body s = (Throw e, t)"
  shows "\<exists>n. e = Soci_error (Other_category n)"
proof (cases "cp_free (ds_pool s) = []")
  case True
  with with_connection_empty [OF assms(1), of d body] assms(2) show ?thesis by simp
next
  case False
  from assms(2) show ?thesis
  proof (cases rule: with_connectionE)
    case unavailable
    with assms(1) False show ?thesis by simp
  next
    case (ran c p o1 u p' v)
    from catch_db_errors_Throw [OF ran(3)] show ?thesis by blast
  qed
qed

lemma disciplined_method:
  assumes "framed P" "data_only (with_connection d body)" "repository_method (with_connection d body)"
  shows "disciplined P (with_connection d body)"
proof (rule disciplinedI)
  fix s out t assume s: "P s" "cp_instance (ds_pool s)" and run: "with_connection d body s = (out, t)"
  have b: "borrows s t" "out = Block \<Longrightarrow> cp_free (ds_pool s) = []"
    using assms(3) [unfolded repository_method_def, rule_format, OF run] by blast+
  have "P t"
    using assms(1) [unfolded framed_def, rule_format, OF data_onlyD [OF assms(2) run]] s(1) by blast
  moreover have "cp_free (ds_pool t) = []" if "out = Block"
    using b(2) [OF that] b(1) unfolding borrows_def by auto
  moreover have "admitted e" if "out = Throw e" for e
    using with_connection_throws [OF s(2) run [unfolded that]] by (simp add: admitted_def)
  moreover have "cp_instance (ds_pool t)" "capacity (ds_pool t) = capacity (ds_pool s)"
    using borrows_instance [OF b(1)] borrows_capacity [OF b(1)] s(2) by simp_all
  ultimately show "P t \<and> cp_instance (ds_pool t) \<and> capacity (ds_pool t) = capacity (ds_pool s) \<and>
      (out = Block \<longrightarrow> cp_free (ds_pool t) = []) \<and> (\<forall>e. out = Throw e \<longrightarrow> admitted e)"
    by (intro conjI allI impI)
qed

text \<open>Every method the services call is one of these.\<close>

lemma disciplined_methods [intro]:
  assumes "framed P"
  shows "disciplined P (findByUsername (MySQLUserRepository E) n)"
    "disciplined P (findByUserId (MySQLUserRepository E) i)"
    "disciplined P (addUser (MySQLUserRepository E) u)"
    "disciplined P (updateUser (MySQLUserRepository E) u)"
    "disciplined P (findByRoomName (MySQLRoomRepository E) n)"
    "disciplined P (addRoom (MySQLRoomRepository E) r)"
    "disciplined P (addMessage (MySQLMessageRepository E) m)"
    "disciplined P (findLatestByRoomId (MySQLMessageRepository E) i k)"
proof -
  note meth = disciplined_method [OF assms]
  show "disciplined P (findByUsername (MySQLUserRepository E) n)"
    using meth [OF data_only_user_methods(1) [unfolded MySQL_findByUsername_def]
        user_methods(1) [unfolded MySQL_findByUsername_def]]
    by (simp add: repository_fields MySQL_findByUsername_def)
  show "disciplined P (findByUserId (MySQLUserRepository E) i)"
    using meth [OF data_only_user_methods(2) [unfolded MySQL_findByUserId_def]
        user_methods(2) [unfolded MySQL_findByUserId_def]]
    by (simp add: repository_fields MySQL_findByUserId_def)
  show "disciplined P (addUser (MySQLUserRepository E) u)"
    using meth [OF data_only_user_methods(3) [unfolded MySQL_addUser_def]
        user_methods(5) [unfolded MySQL_addUser_def]]
    by (simp add: repository_fields MySQL_addUser_def)
  show "disciplined P (updateUser (MySQLUserRepository E) u)"
    using meth [OF data_only_user_methods(4) [unfolded MySQL_updateUser_def]
        user_methods(4) [unfolded MySQL_updateUser_def]]
    by (simp add: repository_fields MySQL_updateUser_def)
  show "disciplined P (findByRoomName (MySQLRoomRepository E) n)"
    using meth [OF data_only_room_methods(1) [unfolded MySQL_findByRoomName_def find_room_def]
        room_methods(2) [unfolded MySQL_findByRoomName_def find_room_def]]
    by (simp add: repository_fields MySQL_findByRoomName_def find_room_def)
  show "disciplined P (addRoom (MySQLRoomRepository E) r)"
    using meth [OF data_only_room_methods(2) [unfolded MySQL_addRoom_def]
        room_methods(6) [unfolded MySQL_addRoom_def]]
    by (simp add: repository_fields MySQL_addRoom_def)
  show "disciplined P (addMessage (MySQLMessageRepository E) m)"
    using meth [OF data_only_message_methods(1) [unfolded MySQL_addMessage_def]
        message_methods(6) [unfolded MySQL_addMessage_def]]
    by (simp add: repository_fields MySQL_addMessage_def)
  show "disciplined P (findLatestByRoomId (MySQLMessageRepository E) i k)"
    using meth [OF data_only_message_methods(2) [unfolded MySQL_findLatestByRoomId_def list_messages_def]
        message_methods(5) [unfolded MySQL_findLatestByRoomId_def list_messages_def]]
    by (simp add: repository_fields MySQL_findLatestByRoomId_def list_messages_def)
qed

section \<open>A session being served\<close>

text \<open>
  While a handler serves session \<open>i\<close>, no other session object changes (\<open>S\<close>), nothing beyond the
  services' tables (\<open>x\<close>) changes, and nothing enters the manager's list of sessions.
\<close>

definition steady ::
    "sid \<Rightarrow> (sid \<Rightarrow> session) \<Rightarrow> 'z \<Rightarrow> ('db, 'z) service_state_scheme \<Rightarrow> bool" where
  "steady i S x s \<longleftrightarrow>
     registry_ok s \<and> ss_sessions s = [] \<and> service_state.more s = x \<and>
     (\<forall>j. j \<noteq> i \<longrightarrow> ss_session s j = S j)"

text \<open>The same for a logged-in session, whose user stays the same.\<close>

definition steady_user ::
    "sid \<Rightarrow> long_long \<Rightarrow> (sid \<Rightarrow> session) \<Rightarrow> 'z \<Rightarrow> ('db, 'z) service_state_scheme \<Rightarrow> bool" where
  "steady_user i uid S x s \<longleftrightarrow> steady i S x s \<and> userId (ss_session s i) = Some uid"

lemma framed_steady [simp, intro]:
  fixes x :: 'z
  shows "framed (steady i S x :: ('db, 'z) service_state_scheme \<Rightarrow> bool)"
    "framed (steady_user i uid S x :: ('db, 'z) service_state_scheme \<Rightarrow> bool)"
proof -
  have "steady i S x t = steady i S x s \<and> steady_user i uid S x t = steady_user i uid S x s"
    if "data_state.more t = data_state.more s" for s t :: "('db, 'z) service_state_scheme"
    by (simp only: steady_user_def steady_def registry_ok_frame [OF that] frame_session_state [OF that]
        frame_service_state [OF that])
  then show "framed (steady i S x :: ('db, 'z) service_state_scheme \<Rightarrow> bool)"
    "framed (steady_user i uid S x :: ('db, 'z) service_state_scheme \<Rightarrow> bool)"
    unfolding framed_def by blast+
qed

lemma steady_user_login:
  assumes "steady_user i uid S x s"
  obtains n where "isAuthenticated (ss_session s i)" "userId (ss_session s i) = Some uid"
    "username (ss_session s i) = Some n" "registry_ok s"
proof -
  have s: "registry_ok s" "userId (ss_session s i) = Some uid"
    using assms by (simp_all add: steady_user_def steady_def)
  moreover have "session_ok (ss_session s i)" using s(1) by (simp add: registry_ok_def)
  ultimately show thesis
    by (cases "username (ss_session s i)") (auto simp: session_ok_def isAuthenticated_def intro: that)
qed

text \<open>The parts of the handlers.\<close>

lemma disciplined_getters [intro]:
  fixes x :: 'z
  shows "disciplined (steady_user i uid S x :: ('db, 'z) service_state_scheme \<Rightarrow> bool) (session_user_id i)"
  "disciplined (steady_user i uid S x :: ('db, 'z) service_state_scheme \<Rightarrow> bool) (session_username i)"
proof -
  have "\<exists>a n. session_user_id i s = (Ret a, s) \<and> session_username i s = (Ret n, s)"
    if "steady_user i uid S x s" for s :: "('db, 'z) service_state_scheme"
    by (rule steady_user_login [OF that])
      (simp add: session_user_id_def session_username_def getUserId_def getUsername_def)
  then show "disciplined (steady_user i uid S x :: ('db, 'z) service_state_scheme \<Rightarrow> bool) (session_user_id i)"
    "disciplined (steady_user i uid S x :: ('db, 'z) service_state_scheme \<Rightarrow> bool) (session_username i)"
    by (intro disciplined_quiet; metis)+
qed

lemma disciplined_authenticated [intro]: "disciplined P (session_authenticated i)"
  by (simp add: session_authenticated_def)

lemma steady_outbox [simp]:
  "steady i S x (s\<lparr>ss_outbox := f\<rparr>) = steady i S x s"
  "steady_user i uid S x (s\<lparr>ss_outbox := f\<rparr>) = steady_user i uid S x s"
  by (simp_all add: steady_def steady_user_def)

lemma disciplined_send [intro]:
  "disciplined (steady i S x) (session_send j e)"
  "disciplined (steady_user i uid S x) (session_send j e)"
  by (rule disciplined_quiet; simp add: session_send_apply)+

lemma disciplined_broadcast [intro]:
  fixes x :: 'z
  shows "disciplined (steady_user i uid S x :: ('db, 'z) service_state_scheme \<Rightarrow> bool)
    (broadcastToRoom r e y)"
proof (rule disciplined_quiet)
  fix s :: "('db, 'z) service_state_scheme" assume "steady_user i uid S x s"
  then show "\<exists>a t. broadcastToRoom r e y s = (Ret a, t) \<and> steady_user i uid S x t \<and> ds_pool t = ds_pool s"
    by (cases "rs_activeRooms s r") (auto simp: broadcastToRoom_def Let_def send_each_run)
qed

lemma steady_tables [simp]:
  "steady_user i uid S x (leave_current u s) = steady_user i uid S x s"
  "steady_user i uid S x (leave_room u r s) = steady_user i uid S x s"
  "steady_user i uid S x (enter_room u j r room s) = steady_user i uid S x s"
  "steady_user i uid S x (open_room u j r room s) = steady_user i uid S x s"
  "steady_user i uid S x (close_membership u r s) = steady_user i uid S x s"
  by (simp_all add: steady_user_def steady_def registry_ok_def leave_current_def leave_room_def
      enter_room_def open_room_def close_membership_def Let_def split: option.split)

lemma pool_tables [simp]:
  "ds_pool (leave_current u s) = ds_pool s" "ds_pool (leave_room u r s) = ds_pool s"
  "ds_pool (enter_room u j r room s) = ds_pool s" "ds_pool (open_room u j r room s) = ds_pool s"
  "ds_pool (close_membership u r s) = ds_pool s"
  by (simp_all add: leave_current_def leave_room_def enter_room_def open_room_def
      close_membership_def Let_def split: option.split)

lemma disciplined_draw [intro]:
  fixes E :: "'db env" and P :: "('db, 'z) data_state_scheme \<Rightarrow> bool"
  assumes "framed P"
  shows "disciplined P (draw_salt E)"
proof (rule disciplinedI)
  fix s out t assume s: "P s" "cp_instance (ds_pool s)" and run: "draw_salt E s = (out, t)"
  have "ds_pool t = ds_pool s" "data_state.more t = data_state.more s" "out \<noteq> Block"
    "\<forall>e. out = Throw e \<longrightarrow> admitted e"
    using run by (auto simp: draw_salt_def generateSalt_def admitted_def split: option.splits)
  with s assms [unfolded framed_def, rule_format, of t s]
  show "P t \<and> cp_instance (ds_pool t) \<and> capacity (ds_pool t) = capacity (ds_pool s) \<and>
      (out = Block \<longrightarrow> cp_free (ds_pool t) = []) \<and> (\<forall>e. out = Throw e \<longrightarrow> admitted e)" by simp
qed

section \<open>The handlers\<close>

lemma disciplined_option [intro]:
  assumes "disciplined P m" "\<And>x. disciplined P (f x)"
  shows "disciplined P (case a of None \<Rightarrow> m | Some x \<Rightarrow> f x)"
  using assms by (cases a) simp_all

lemmas disciplined_rules =
  disciplined_basic disciplined_cbind disciplined_cthen disciplined_if disciplined_option
  disciplined_cmap disciplined_methods disciplined_getters disciplined_authenticated
  disciplined_send disciplined_broadcast disciplined_draw framed_steady

lemma disciplined_tables:
  fixes x :: 'z
  assumes "\<And>s :: ('db, 'z) service_state_scheme. steady_user i uid S x (f s) = steady_user i uid S x s"
    "\<And>s :: ('db, 'z) service_state_scheme. ds_pool (f s) = ds_pool s"
  shows "disciplined (steady_user i uid S x) (cmodify f)"
  by (rule disciplined_cmodify) (simp_all add: assms)

lemma disciplined_clock:
  fixes x :: 'z
  shows "disciplined (steady_user i uid S x :: ('db, 'z) service_state_scheme \<Rightarrow> bool) (proto_now E)"
  by (rule disciplined_quiet) (simp add: proto_now_def steady_user_def steady_def registry_ok_def)

lemma disciplined_login:
  fixes x :: 'z
  shows "disciplined (steady i S x :: ('db, 'z) service_state_scheme \<Rightarrow> bool)
    (handleLogin E (MySQLUserRepository E) i req)"
proof -
  have "disciplined (steady i S x :: ('db, 'z) service_state_scheme \<Rightarrow> bool)
      (manager_registerAuthenticatedSession i uid name)" for uid name
  proof (rule disciplined_quiet)
    fix s :: "('db, 'z) service_state_scheme" assume "steady i S x s"
    then show "\<exists>a t. manager_registerAuthenticatedSession i uid name s = (Ret a, t) \<and> steady i S x t \<and>
        ds_pool t = ds_pool s"
      using registry_ok_register [of s i uid name] by (auto simp: register_run steady_def)
  qed
  then show ?thesis unfolding handleLogin_def Let_def by (intro disciplined_rules)
qed

lemma disciplined_register:
  fixes x :: 'z
  shows "disciplined (steady i S x :: ('db, 'z) service_state_scheme \<Rightarrow> bool)
      (handleRegister E (MySQLUserRepository E) i req)"
    "disciplined (steady_user i uid S x :: ('db, 'z) service_state_scheme \<Rightarrow> bool)
      (handleRegister E (MySQLUserRepository E) i req)"
  unfolding handleRegister_def register_reply_def Let_def by (intro disciplined_rules)+

lemma disciplined_change_username:
  fixes x :: 'z
  shows "disciplined (steady_user i uid S x :: ('db, 'z) service_state_scheme \<Rightarrow> bool)
    (handleChangeUsername E (MySQLUserRepository E) i req)"
proof -
  have "disciplined (steady_user i uid S x :: ('db, 'z) service_state_scheme \<Rightarrow> bool)
      (manager_updateUsername i name)" for name
  proof (rule disciplined_quiet)
    fix s :: "('db, 'z) service_state_scheme" assume s: "steady_user i uid S x s"
    then obtain n where n: "isAuthenticated (ss_session s i)" "username (ss_session s i) = Some n"
      "registry_ok s" by (rule steady_user_login)
    from n(2) have "session_username i s = (Ret n, s)" by (simp add: session_username_def getUsername_def)
    then show "\<exists>a t. manager_updateUsername i name s = (Ret a, t) \<and> steady_user i uid S x t \<and>
        ds_pool t = ds_pool s"
      using s registry_ok_updateUsername [OF n(3,1), of name]
      by (auto simp: updateUsername_run steady_def steady_user_def setUsername_def)
  qed
  then show ?thesis unfolding handleChangeUsername_def by (intro disciplined_rules)
qed

lemma disciplined_user_handlers:
  fixes x :: 'z and i :: sid and uid :: long_long and S :: "sid \<Rightarrow> session"
  defines "P \<equiv> steady_user i uid S x :: ('db, 'z) service_state_scheme \<Rightarrow> bool"
  shows "disciplined P (handleChangePassword E (MySQLUserRepository E) i r1)"
    "disciplined P (handleRoomOperation E (MySQLRoomRepository E) i r2)"
    "disciplined P (handleHistoryRequest E (MySQLUserRepository E) (MySQLMessageRepository E) i r3)"
    "disciplined P (handlePublicMessage E (MySQLMessageRepository E) i r4)"
    "disciplined P (handleDisconnect i)"
proof -
  show "disciplined P (handleChangePassword E (MySQLUserRepository E) i r1)"
    unfolding handleChangePassword_def P_def by (intro disciplined_rules)
  have "disciplined P (join_operation (MySQLRoomRepository E) i u r2)" for u
    unfolding join_operation_def P_def Let_def by (intro disciplined_rules disciplined_tables) simp_all
  moreover have "disciplined P (leave_operation i u r2)" for u
    unfolding leave_operation_def P_def Let_def by (intro disciplined_rules disciplined_tables) simp_all
  moreover have "disciplined P (create_operation E (MySQLRoomRepository E) i u r2)" for u
    unfolding create_operation_def P_def Let_def by (intro disciplined_rules disciplined_tables) simp_all
  ultimately show "disciplined P (handleRoomOperation E (MySQLRoomRepository E) i r2)"
    unfolding handleRoomOperation_def P_def
    by (intro disciplined_rules) (auto split: room_operation.split)
  show "disciplined P (handleHistoryRequest E (MySQLUserRepository E) (MySQLMessageRepository E) i r3)"
    unfolding handleHistoryRequest_def history_entry_def getUserCurrentRoomId_def P_def
    by (intro disciplined_rules)
  show "disciplined P (handlePublicMessage E (MySQLMessageRepository E) i r4)"
    unfolding handlePublicMessage_def getUserCurrentRoomId_def getUserCurrentRoomName_def P_def
    by (intro disciplined_rules disciplined_clock)
  show "disciplined P (handleDisconnect i)"
    unfolding handleDisconnect_def P_def by (intro disciplined_rules disciplined_tables) simp_all
qed

lemma disciplined_private:
  fixes x :: 'z
  shows "disciplined (steady_user i uid S x :: ('db, 'z) service_state_scheme \<Rightarrow> bool)
    (handlePrivateMessage E i req)"
proof (rule disciplined_quiet)
  fix s :: "('db, 'z) service_state_scheme" assume s: "steady_user i uid S x s"
  let ?good = "\<lambda>r. \<exists>a t. r = (Ret a, t) \<and> steady_user i uid S x t \<and> ds_pool t = ds_pool s"
  have clock: "steady_user i uid S x (s\<lparr>ds_clock := k, ss_outbox := f\<rparr>)" for k f
    using s by (simp add: steady_user_def steady_def registry_ok_def)
  obtain n where n: "isAuthenticated (ss_session s i)" "userId (ss_session s i) = Some uid"
    "username (ss_session s i) = Some n" "registry_ok s" by (rule steady_user_login [OF s])
  show "?good (handlePrivateMessage E i req s)"
  proof (cases "rs_userToRoom s uid \<in> {None, Some []}")
    case True
    with s show ?thesis by (simp add: no_room_reply(2) [OF n(1-3) True] session_send_apply)
  next
    case False
    then obtain r where r: "rs_userToRoom s uid = Some r" "r \<noteq> []" by auto
    show ?thesis
      unfolding private_message_run [OF n(4) n(1-3) r]
      using s clock by (auto simp: session_send_apply cthen_def cbind_def Let_def split: option.split)
  qed
qed

text \<open>The two halves of the dispatcher: for anybody, and for a logged-in session.\<close>

definition anonymous_request ::
    "'db env \<Rightarrow> sid \<Rightarrow> envelope \<Rightarrow> (('db, 'z) service_state_scheme, unit) comp" where
  "anonymous_request E i e =
     (case payload e of
        Some (LoginRequest r) \<Rightarrow> handleLogin E (MySQLUserRepository E) i r
      | Some (RegistrationRequest r) \<Rightarrow> handleRegister E (MySQLUserRepository E) i r
      | _ \<Rightarrow> session_send i (error_envelope ''Authentication required.''))"

definition user_request ::
    "'db env \<Rightarrow> sid \<Rightarrow> envelope \<Rightarrow> (('db, 'z) service_state_scheme, unit) comp" where
  "user_request E i e =
     (case payload e of
        Some (RegistrationRequest r) \<Rightarrow> handleRegister E (MySQLUserRepository E) i r
      | Some (ChangePasswordRequest r) \<Rightarrow> handleChangePassword E (MySQLUserRepository E) i r
      | Some (ChangeUsernameRequest r) \<Rightarrow> handleChangeUsername E (MySQLUserRepository E) i r
      | Some (PublicMessage r) \<Rightarrow> handlePublicMessage E (MySQLMessageRepository E) i r
      | Some (PrivateMessageRequest r) \<Rightarrow> handlePrivateMessage E i r
      | Some (RoomOperationRequest r) \<Rightarrow> handleRoomOperation E (MySQLRoomRepository E) i r
      | Some (HistoryMessageRequest r) \<Rightarrow>
          handleHistoryRequest E (MySQLUserRepository E) (MySQLMessageRepository E) i r
      | _ \<Rightarrow> creturn ())"

lemma disciplined_anonymous:
  fixes x :: 'z
  shows "disciplined (steady i S x :: ('db, 'z) service_state_scheme \<Rightarrow> bool) (anonymous_request E i e)"
  by (simp add: anonymous_request_def disciplined_login disciplined_register disciplined_send
      split: option.split payload.split)

lemma disciplined_user_request:
  fixes x :: 'z
  shows "disciplined (steady_user i uid S x :: ('db, 'z) service_state_scheme \<Rightarrow> bool)
    (user_request E i e)"
  by (simp add: user_request_def disciplined_register disciplined_change_username
      disciplined_user_handlers disciplined_private split: option.split payload.split)

text \<open>So the dispatcher is disciplined, whatever the envelope is and whoever sent it.\<close>

lemma dispatch_disciplined:
  fixes s t :: "('db, 'z) service_state_scheme"
  assumes s: "registry_ok s" "ss_sessions s = []" "cp_instance (ds_pool s)"
    and run: "dispatchMessage E i e s = (out, t)"
  shows "steady i (ss_session s) (service_state.more s) t" "cp_instance (ds_pool t)"
    "capacity (ds_pool t) = capacity (ds_pool s)" "out = Block \<Longrightarrow> cp_free (ds_pool t) = []"
    "out = Throw err \<Longrightarrow> admitted err"
    "\<And>uid. userId (ss_session s i) = Some uid \<Longrightarrow> (\<And>r. payload e \<noteq> Some (LoginRequest r)) \<Longrightarrow>
       userId (ss_session t i) = Some uid"
proof -
  let ?P = "steady i (ss_session s) (service_state.more s) :: ('db, 'z) service_state_scheme \<Rightarrow> bool"
  let ?good = "\<lambda>Q. Q t \<and> cp_instance (ds_pool t) \<and> capacity (ds_pool t) = capacity (ds_pool s) \<and>
      (out = Block \<longrightarrow> cp_free (ds_pool t) = []) \<and> (\<forall>e. out = Throw e \<longrightarrow> admitted e)"
  have P: "?P s" using s by (simp add: steady_def)
  have good: "?good Q" if "disciplined Q m" "Q s" "m s = (out, t)" for Q m
    using that s(3) unfolding disciplined_def by blast
  have "?good ?P \<and> (\<forall>uid. userId (ss_session s i) = Some uid \<and> (\<forall>r. payload e \<noteq> Some (LoginRequest r)) \<longrightarrow>
      userId (ss_session t i) = Some uid)"
  proof (cases "isAuthenticated (ss_session s i)")
    case False
    then have "userId (ss_session s i) = None"
      using s(1) by (auto simp: registry_ok_def session_ok_def isAuthenticated_def)
    moreover have "dispatchMessage E i e s = anonymous_request E i e s"
      using False by (simp add: dispatchMessage_def anonymous_request_def session_authenticated_bind
          split: option.split payload.split)
    then have "?good ?P"
      using run P by (intro good [OF disciplined_anonymous]) simp_all
    ultimately show ?thesis by simp
  next
    case True
    then obtain uid where uid: "userId (ss_session s i) = Some uid"
      using s(1) by (metis registry_ok_getters)
    let ?Q = "steady_user i uid (ss_session s) (service_state.more s) :: ('db, 'z) service_state_scheme \<Rightarrow> bool"
    have Q: "?Q s" using P uid by (simp add: steady_user_def)
    show ?thesis
    proof (cases "\<exists>r. payload e = Some (LoginRequest r)")
      case True
      with run have "?good ?P"
        using good [OF disciplined_login P] by (auto simp: dispatchMessage_def)
      with True show ?thesis by blast
    next
      case False
      then have "dispatchMessage E i e s = user_request E i e s"
        using True by (auto simp: dispatchMessage_def user_request_def session_authenticated_bind
            split: option.split payload.split)
      with run have "?good ?Q" by (intro good [OF disciplined_user_request Q]) simp
      then show ?thesis using uid by (simp add: steady_user_def)
    qed
  qed
  then show "?P t" "cp_instance (ds_pool t)"
    "capacity (ds_pool t) = capacity (ds_pool s)" "out = Block \<Longrightarrow> cp_free (ds_pool t) = []"
    "out = Throw err \<Longrightarrow> admitted err"
    "\<And>uid. userId (ss_session s i) = Some uid \<Longrightarrow> (\<And>r. payload e \<noteq> Some (LoginRequest r)) \<Longrightarrow>
       userId (ss_session t i) = Some uid"
    by blast+
qed

end
