(* ===== verification/Server_Facts.thy ===== *)
theory Server_Facts
  imports Server_Discipline
begin

text \<open>
  The invariant of the services through every handler: from the contract of the stores, each
  handler keeps \<open>service_ok\<close> and runs into no undefined behaviour, the history handler excepted,
  which can (see \<open>history_dereferences_nothing\<close>). Then the same for the dispatcher on the MySQL
  repositories, and for every step of the server.
\<close>

section \<open>The account handlers\<close>

lemma store_update_ids [simp]: "cred_id ` store_update u S = cred_id ` S"
  unfolding store_update_def image_image by (rule image_cong) simp_all

lemma updated_ids: "S' \<in> {S, store_update u S} \<Longrightarrow> cred_id ` S = cred_id ` S'"
  by (elim insertE) simp_all

lemma store_add_ids: "store_add u S S' \<Longrightarrow> S \<subseteq> S'"
  by (auto simp: store_add_def)

lemma tables_ok_same_login:
  fixes s t :: "('db, 'z) service_state_scheme"
  assumes "only_touches i s t" "same_login s t"
  shows "tables_ok same K ids t = tables_ok same K ids s" "place t = place s" "exact t = exact s"
proof -
  have "rs_activeRooms t = rs_activeRooms s" "rs_userToRoom t = rs_userToRoom s"
    using assms(1) by (cases s; cases t; simp add: only_touches_def)+
  moreover have "ss_session t = ss_session s" "ss_byUserId t = ss_byUserId s"
    "ss_byUsername t = ss_byUsername s" using assms(2) by (simp_all add: same_login_def)
  ultimately show "tables_ok same K ids t = tables_ok same K ids s" "place t = place s" "exact t = exact s"
    by (simp_all add: tables_ok_def registry_ok_def rooms_ok_def logins_known_def exact_def
        place_def [abs_def] cong: option.case_cong)
qed

text \<open>A step that changes only the data layer's clock and draws, or only session tables.\<close>

lemma preserves_data:
  assumes "\<And>s. ds_db (snd (m s)) = ds_db s"
  shows "preserves (\<lambda>s. Q (ds_db s)) m"
  using assms by (simp add: preserves_def)

lemma preserves_if [intro]: "preserves P m \<Longrightarrow> preserves P n \<Longrightarrow> preserves P (if b then m else n)"
  by simp

lemma preserves_option [intro]:
  "preserves P m \<Longrightarrow> (\<And>x. preserves P (f x)) \<Longrightarrow>
   preserves P (case a of None \<Rightarrow> m | Some x \<Rightarrow> f x)"
  by (cases a) simp_all

lemma preserves_quiet [intro]:
  "preserves (\<lambda>s. Q (ds_db s)) (session_send i e)" "preserves (\<lambda>s. Q (ds_db s)) (session_user_id i)"
  "preserves (\<lambda>s. Q (ds_db s)) (session_username i)"
  "preserves (\<lambda>s. Q (ds_db s)) (session_authenticated i)" "preserves (\<lambda>s. Q (ds_db s)) (draw_salt E)"
  "preserves (\<lambda>s. Q (ds_db s)) (cmodify (\<lambda>s. s\<lparr>ss_byUserId := h1 s\<rparr>))"
  "preserves (\<lambda>s. Q (ds_db s)) (cmodify (\<lambda>s. s\<lparr>ss_byUsername := h2 s\<rparr>))"
  "preserves (\<lambda>s. Q (ds_db s)) (on_session i g)"
  by (rule preserves_data; simp add: session_send_apply session_user_id_def session_username_def
      session_authenticated_def draw_salt_def on_session_def)+

lemmas preserves_rules =
  preserves_creturn preserves_cundef preserves_cbind preserves_cthen preserves_cmap preserves_if
  preserves_option preserves_quiet

context chat_store
begin

text \<open>The account handlers leave the rooms and the messages alone.\<close>

lemma users_preserve:
  "preserves (\<lambda>s. invar (ds_db s) \<and> stored (ds_db s) = K \<and> log (ds_db s) = L) (findByUsername users_repo n)"
  "preserves (\<lambda>s. invar (ds_db s) \<and> stored (ds_db s) = K \<and> log (ds_db s) = L) (addUser users_repo u)"
  "preserves (\<lambda>s. invar (ds_db s) \<and> stored (ds_db s) = K \<and> log (ds_db s) = L) (updateUser users_repo u)"
  by (rule preservesI; metis prod.collapse find add update user_methods_keep)+

lemma accounts_preserve:
  defines "P \<equiv> \<lambda>K L s. invar (ds_db s) \<and> stored (ds_db s) = K \<and> log (ds_db s) = L"
  shows "preserves (P K L) (handleLogin E users_repo i r1)"
    "preserves (P K L) (handleRegister E users_repo i r2)"
    "preserves (P K L) (handleChangePassword E users_repo i r3)"
    "preserves (P K L) (handleChangeUsername E users_repo i r4)"
proof -
  note rules = preserves_rules(1-7) preserves_quiet [where Q = "\<lambda>d. invar d \<and> stored d = K \<and> log d = L"]
    users_preserve
  show "preserves (P K L) (handleLogin E users_repo i r1)"
    unfolding P_def handleLogin_def manager_registerAuthenticatedSession_def Let_def
    by (intro rules)
  show "preserves (P K L) (handleRegister E users_repo i r2)"
    unfolding P_def handleRegister_def register_reply_def Let_def by (intro rules)
  show "preserves (P K L) (handleChangePassword E users_repo i r3)"
    unfolding P_def handleChangePassword_def by (intro rules)
  show "preserves (P K L) (handleChangeUsername E users_repo i r4)"
    unfolding P_def handleChangeUsername_def manager_updateUsername_def by (intro rules)
qed

text \<open>Each of them keeps the invariant of the services and every place.\<close>

lemma ok_same_login:
  fixes s t :: "('db, 'z) service_state_scheme"
  assumes "ok s" "invar (ds_db t)" "stored (ds_db t) = stored (ds_db s)"
    and "cred_id ` users (ds_db s) \<subseteq> cred_id ` users (ds_db t)"
    and "only_touches i s t" "same_login s t"
  shows "ok t \<and> place t = place s \<and> exact t = exact s"
proof -
  have "tables_ok same (stored (ds_db s)) (cred_id ` users (ds_db t)) s"
    using assms(1) by (intro tables_ok_mono [OF _ order_refl assms(4)]) (simp add: service_ok_def)
  then show ?thesis
    using assms(2,3) tables_ok_same_login [OF assms(5,6)] by (simp add: service_ok_def)
qed

lemma login_ok:
  assumes s: "ok s" and run: "handleLogin E users_repo i req s = (out, t)"
  shows "ok t \<and> place t = place s \<and> exact t = exact s \<and> out \<noteq> Undef"
proof -
  note inv = service_okD(1) [OF s]
  have st: "invar (ds_db t)" "stored (ds_db t) = stored (ds_db s)"
    using preservesD [OF accounts_preserve(1), of s "stored (ds_db s)" "log (ds_db s)" E i req] inv run
    by simp_all
  from login_result [OF inv run] have r: "users (ds_db t) = users (ds_db s)" "only_touches i s t" "out \<noteq> Undef"
    and alt: "(\<exists>u. credential_of u \<in> users (ds_db s) \<and>
        ss_session t i = setAuthenticated (u_id u) (u_username u) (ss_session s i) \<and>
        ss_byUserId t = (ss_byUserId s)(u_id u \<mapsto> i) \<and>
        ss_byUsername t = (ss_byUsername s)(u_username u \<mapsto> i)) \<or> same_login s t" by blast+
  from alt show ?thesis
  proof
    assume "same_login s t"
    from ok_same_login [OF s st _ r(2) this] r show ?thesis by simp
  next
    assume "\<exists>u. credential_of u \<in> users (ds_db s) \<and>
        ss_session t i = setAuthenticated (u_id u) (u_username u) (ss_session s i) \<and>
        ss_byUserId t = (ss_byUserId s)(u_id u \<mapsto> i) \<and>
        ss_byUsername t = (ss_byUsername s)(u_username u \<mapsto> i)"
    then obtain u where u: "credential_of u \<in> users (ds_db s)"
      "ss_session t i = setAuthenticated (u_id u) (u_username u) (ss_session s i)"
      "ss_byUserId t = (ss_byUserId s)(u_id u \<mapsto> i)"
      "ss_byUsername t = (ss_byUsername s)(u_username u \<mapsto> i)" by blast
    let ?v = "snd (manager_registerAuthenticatedSession i (u_id u) (u_username u) s)"
    have v: "ss_session t = ss_session ?v" "ss_byUserId t = ss_byUserId ?v"
      "ss_byUsername t = ss_byUsername ?v" "rs_activeRooms t = rs_activeRooms ?v"
      "rs_userToRoom t = rs_userToRoom ?v" "rs_activeRooms ?v = rs_activeRooms s"
      "rs_userToRoom ?v = rs_userToRoom s"
      using u r(2) by (cases s; cases t; auto simp: only_touches_def register_run fun_eq_iff)+
    have "u_id u \<in> cred_id ` users (ds_db s)" using u(1) by force
    then have "logins_known (cred_id ` users (ds_db s)) ?v"
      using service_okD(5) [OF s]
      by (auto simp: logins_known_def register_run setAuthenticated_def)
    moreover have "registry_ok ?v" by (rule registry_ok_register [OF service_okD(2) [OF s]])
    moreover have "rooms_ok ?v"
      using service_okD(3) [OF s] by (simp add: rooms_ok_def register_run)
    ultimately have "ok t \<and> place t = place s \<and> exact t = exact s"
      using s st r v
      by (simp add: service_ok_def tables_ok_def registry_ok_def rooms_ok_def logins_known_def exact_def
          place_def [abs_def] cong: option.case_cong)
    with r show ?thesis by simp
  qed
qed

lemma register_ok:
  assumes s: "ok s" and run: "handleRegister E users_repo i req s = (out, t)"
  shows "ok t \<and> place t = place s \<and> exact t = exact s \<and> out \<noteq> Undef"
proof -
  note inv = service_okD(1) [OF s]
  have st: "invar (ds_db t)" "stored (ds_db t) = stored (ds_db s)"
    using preservesD [OF accounts_preserve(2), of s "stored (ds_db s)" "log (ds_db s)" E i req] inv run
    by simp_all
  from register_result [OF inv run] have r: "only_touches i s t" "same_login s t" "out \<noteq> Undef"
    and "users (ds_db s) \<subseteq> users (ds_db t)" using store_add_ids by blast+
  then have "cred_id ` users (ds_db s) \<subseteq> cred_id ` users (ds_db t)" by blast
  from ok_same_login [OF s st this r(1,2)] r(3) show ?thesis by simp
qed

lemma change_password_ok:
  assumes s: "ok s" and auth: "isAuthenticated (ss_session s i)"
    and run: "handleChangePassword E users_repo i req s = (out, t)"
  shows "ok t \<and> place t = place s \<and> exact t = exact s \<and> out \<noteq> Undef"
proof -
  note inv = service_okD(1) [OF s]
  obtain n where n: "username (ss_session s i) = Some n" by (rule ok_login [OF s auth])
  have st: "invar (ds_db t)" "stored (ds_db t) = stored (ds_db s)"
    using preservesD [OF accounts_preserve(3), of s "stored (ds_db s)" "log (ds_db s)" E i req] inv run
    by simp_all
  from change_password_result [OF inv run auth n] have r: "only_touches i s t" "same_login s t" "out \<noteq> Undef"
    and "\<exists>u. users (ds_db t) \<in> {users (ds_db s), store_update u (users (ds_db s))}" by blast+
  then have "cred_id ` users (ds_db s) = cred_id ` users (ds_db t)" using updated_ids by blast
  from ok_same_login [OF s st eq_refl [OF this] r(1,2)] r(3) show ?thesis by simp
qed

lemma change_username_ok:
  assumes s: "ok s" and auth: "isAuthenticated (ss_session s i)"
    and run: "handleChangeUsername E users_repo i req s = (out, t)"
  shows "ok t \<and> place t = place s \<and> exact t = exact s \<and> out \<noteq> Undef"
proof -
  let ?new = "nq_new_username req"
  note inv = service_okD(1) [OF s] and reg = service_okD(2) [OF s]
  obtain n where n: "username (ss_session s i) = Some n" by (rule ok_login [OF s auth])
  have st: "invar (ds_db t)" "stored (ds_db t) = stored (ds_db s)"
    using preservesD [OF accounts_preserve(4), of s "stored (ds_db s)" "log (ds_db s)" E i req] inv run
    by simp_all
  from change_username_result [OF inv run auth n] have r: "only_touches i s t" "out \<noteq> Undef"
    and upd: "\<exists>u. users (ds_db t) \<in> {users (ds_db s), store_update u (users (ds_db s))}"
    and alt: "same_login s t \<or> (ss_session t i = setUsername ?new (ss_session s i) \<and>
       ss_byUserId t = ss_byUserId s \<and> ss_byUsername t = (ss_byUsername s)(n := None, ?new \<mapsto> i))"
    by blast+
  have ids: "cred_id ` users (ds_db s) = cred_id ` users (ds_db t)" using upd updated_ids by blast
  from alt show ?thesis
  proof
    assume "same_login s t"
    from ok_same_login [OF s st eq_refl [OF ids] r(1) this] r show ?thesis by simp
  next
    let ?v = "snd (manager_updateUsername i ?new s)"
    assume u: "ss_session t i = setUsername ?new (ss_session s i) \<and>
       ss_byUserId t = ss_byUserId s \<and> ss_byUsername t = (ss_byUsername s)(n := None, ?new \<mapsto> i)"
    have vrun: "?v = s\<lparr>ss_byUsername := (ss_byUsername s)(n := None, ?new \<mapsto> i),
        ss_session := (ss_session s)(i := setUsername ?new (ss_session s i))\<rparr>"
      using updateUsername_run [of i s n ?new] n by (simp add: username_apply)
    have v: "ss_session t = ss_session ?v" "ss_byUserId t = ss_byUserId ?v"
      "ss_byUsername t = ss_byUsername ?v" "rs_activeRooms t = rs_activeRooms ?v"
      "rs_userToRoom t = rs_userToRoom ?v" "rs_activeRooms ?v = rs_activeRooms s"
      "rs_userToRoom ?v = rs_userToRoom s"
      using u r(1) unfolding vrun by (cases s; cases t; auto simp: only_touches_def fun_eq_iff)+
    have "logins_known (cred_id ` users (ds_db t)) ?v"
      using service_okD(5) [OF s] unfolding vrun
      by (auto simp: logins_known_def setUsername_def ids)
    moreover have "registry_ok ?v" by (rule registry_ok_updateUsername [OF reg auth])
    moreover have "rooms_ok ?v"
      using service_okD(3) [OF s] unfolding vrun by (simp add: rooms_ok_def)
    ultimately have "ok t \<and> place t = place s \<and> exact t = exact s"
      using s st r v
      by (simp add: service_ok_def tables_ok_def registry_ok_def rooms_ok_def logins_known_def exact_def
          place_def [abs_def] cong: option.case_cong)
    with r show ?thesis by simp
  qed
qed

section \<open>The handlers of rooms and messages\<close>

lemma room_operation_ok:
  assumes s: "ok s" and auth: "isAuthenticated (ss_session s i)"
    and run: "handleRoomOperation E rooms_repo i req s = (out, t)"
  shows "ok t \<and> out \<noteq> Undef"
proof -
  obtain uid n where i: "userId (ss_session s i) = Some uid" "username (ss_session s i) = Some n"
    by (rule ok_login [OF s auth])
  from run have op: "(case oq_operation req of
         JOIN \<Rightarrow> join_operation rooms_repo i uid req
       | LEAVE \<Rightarrow> leave_operation i uid req
       | CREATE \<Rightarrow> create_operation E rooms_repo i uid req
       | Other_operation k \<Rightarrow> session_send i (room_response req False ''Unknown operation.'')) s
     = (out, t)"
    by (simp add: handleRoomOperation_def session_authenticated_bind auth session_getter_bind(1) [OF i(1)])
  show ?thesis
  proof (cases "oq_operation req")
    case JOIN
    with op have "join_operation rooms_repo i uid req s = (out, t)" by simp
    from join_result [OF s auth i this] show ?thesis by simp
  next
    case LEAVE
    with op have "leave_operation i uid req s = (out, t)" by simp
    from leave_result [OF s i(2) this] show ?thesis by blast
  next
    case CREATE
    with op have "create_operation E rooms_repo i uid req s = (out, t)" by simp
    from create_result [OF s auth i(1) this] show ?thesis by simp
  next
    case (Other_operation k)
    with op s show ?thesis by (auto simp: session_send_apply)
  qed
qed

lemma public_message_ok:
  assumes s: "ok s" and auth: "isAuthenticated (ss_session s i)"
    and run: "handlePublicMessage E messages_repo i req s = (out, t)"
  shows "ok t \<and> out \<noteq> Undef"
proof -
  obtain uid n where i: "userId (ss_session s i) = Some uid" "username (ss_session s i) = Some n"
    by (rule ok_login [OF s auth])
  show ?thesis
  proof (cases "rs_userToRoom s uid \<in> {None, Some []}")
    case True
    with run s show ?thesis
      by (auto simp: no_room_reply(1) [OF auth i True] session_send_apply)
  next
    case False
    then obtain r where "rs_userToRoom s uid = Some r" "r \<noteq> []" by auto
    from public_message_result [OF s auth i this run] show ?thesis by simp
  qed
qed

lemma private_message_ok:
  assumes s: "ok s" and auth: "isAuthenticated (ss_session s i)"
    and run: "handlePrivateMessage E i req s = (out, t)"
  shows "ok t \<and> out \<noteq> Undef"
proof -
  obtain uid n where i: "userId (ss_session s i) = Some uid" "username (ss_session s i) = Some n"
    by (rule ok_login [OF s auth])
  note clock = ok_clock [OF s]
  show ?thesis
  proof (cases "rs_userToRoom s uid \<in> {None, Some []}")
    case True
    with run s show ?thesis
      by (auto simp: no_room_reply(2) [OF auth i True] session_send_apply)
  next
    case False
    then obtain r where r: "rs_userToRoom s uid = Some r" "r \<noteq> []" by auto
    show ?thesis
      using run [unfolded private_message_run [OF service_okD(2) [OF s] auth i r]] s clock
      by (auto simp: session_send_apply cthen_def cbind_def Let_def split: option.splits if_splits)
  qed
qed

text \<open>The history handler reads; it is the one handler that can run into undefined behaviour.\<close>

lemma ok_reader:
  fixes m :: "(('db, 'z) service_state_scheme, 'a) comp"
  assumes "\<And>s out t. invar (ds_db s) \<Longrightarrow> m s = (out, t) \<Longrightarrow>
    invar (ds_db t) \<and> users (ds_db t) = users (ds_db s) \<and> stored (ds_db t) = stored (ds_db s) \<and>
    data_state.more t = data_state.more s"
  shows "preserves ok m"
proof (rule preservesI)
  fix s :: "('db, 'z) service_state_scheme" assume s: "ok s"
  obtain out t where m: "m s = (out, t)" by (cases "m s")
  from assms [OF service_okD(1) [OF s] m] have "ok t" by (intro service_ok_grow [OF s]) simp_all
  with m show "ok (snd (m s))" by simp
qed

lemma history_ok: "preserves ok (handleHistoryRequest E users_repo messages_repo i req)"
proof -
  have quiet: "preserves ok (session_user_id i)" "preserves ok (session_authenticated i)"
    "preserves ok (session_send i e)" for i e
    by (rule preservesI; simp add: session_user_id_def session_authenticated_def session_send_apply)+
  have "preserves ok (findByUserId users_repo u)" for u
    by (rule ok_reader) (use find_id user_methods_keep(2) in blast)
  moreover have "preserves ok (findLatestByRoomId messages_repo room n)" for room n
    by (rule ok_reader) (use ms.latest message_methods_keep(2) in blast)
  ultimately show ?thesis
    unfolding handleHistoryRequest_def history_entry_def getUserCurrentRoomId_def
    by (intro preserves_rules(1-7) preserves_cget quiet)
qed

lemma disconnect_ok:
  assumes s: "ok s"
  shows "\<exists>t. handleDisconnect i s = (Ret (), t) \<and> ok t \<and> ds_db t = ds_db s \<and>
    ss_session t = ss_session s \<and> (exact s \<longrightarrow> exact t)"
proof (cases "isAuthenticated (ss_session s i)")
  case True
  obtain uid n where "userId (ss_session s i) = Some uid" "username (ss_session s i) = Some n"
    by (rule ok_login [OF s True])
  from disconnect_result [OF s True this] show ?thesis by blast
next
  case False
  with s show ?thesis by (simp add: handleDisconnect_def session_authenticated_bind)
qed

end

section \<open>The dispatcher\<close>

lemma dispatch_ok:
  assumes s: "server_ok E V s" and run: "dispatchMessage E i e s = (out, t)"
  shows "server_ok E V t \<and> (out = Undef \<longrightarrow> (\<exists>r. payload e = Some (HistoryMessageRequest r)))"
proof (cases "isAuthenticated (ss_session s i)")
  case False
  then have "anonymous_request E i e s = (out, t)"
    using run by (simp add: dispatchMessage_def anonymous_request_def session_authenticated_bind
        split: option.splits payload.splits)
  with s show ?thesis
    unfolding anonymous_request_def server_ok_def
    by (auto dest: mysql_chat.login_ok mysql_chat.register_ok simp: session_send_apply
        split: option.splits payload.splits)
next
  case True
  note ok = s [unfolded server_ok_def]
  show ?thesis
  proof (cases "\<exists>r. payload e = Some (LoginRequest r)")
    case login: True
    with run obtain r where "handleLogin E (MySQLUserRepository E) i r s = (out, t)"
      by (auto simp: dispatchMessage_def)
    from mysql_chat.login_ok [OF ok this] show ?thesis by (simp add: server_ok_def)
  next
    case False
    then have run: "user_request E i e s = (out, t)"
      using run True by (auto simp: dispatchMessage_def user_request_def session_authenticated_bind
          split: option.splits payload.splits)
    have "server_ok E V (snd (handleHistoryRequest E (MySQLUserRepository E)
        (MySQLMessageRepository E) i r s))" for r
      unfolding server_ok_def by (rule preservesD [OF mysql_chat.history_ok ok])
    then have history: "server_ok E V t"
      if "handleHistoryRequest E (MySQLUserRepository E) (MySQLMessageRepository E) i r s = (out, t)" for r
      using that by (metis snd_conv)
    define F where "F m \<longleftrightarrow> (\<forall>out t. m s = (out, t) \<longrightarrow> server_ok E V t \<and> out \<noteq> Undef)"
      for m :: "(('a, 'b) service_state_scheme, unit) comp"
    have "F (handleRegister E (MySQLUserRepository E) i r1)"
      "F (handleChangePassword E (MySQLUserRepository E) i r2)"
      "F (handleChangeUsername E (MySQLUserRepository E) i r3)"
      "F (handlePublicMessage E (MySQLMessageRepository E) i r4)" "F (handlePrivateMessage E i r5)"
      "F (handleRoomOperation E (MySQLRoomRepository E) i r6)" for r1 r2 r3 r4 r5 r6
      unfolding F_def server_ok_def
      by (blast dest: mysql_chat.register_ok [OF ok] mysql_chat.change_password_ok [OF ok True]
        mysql_chat.change_username_ok [OF ok True] mysql_chat.public_message_ok [OF ok True]
        mysql_chat.private_message_ok [OF ok True] mysql_chat.room_operation_ok [OF ok True])+
    moreover have "F (creturn ())" using s by (simp add: F_def)
    ultimately have "F (user_request E i e)" if "\<nexists>r. payload e = Some (HistoryMessageRequest r)"
      using that by (simp add: user_request_def split: option.split payload.split)
    with run have "server_ok E V t \<and> out \<noteq> Undef" if "\<nexists>r. payload e = Some (HistoryMessageRequest r)"
      using that unfolding F_def by blast
    moreover have "server_ok E V t" if "payload e = Some (HistoryMessageRequest r)" for r
      using run that by (intro history [of r]) (simp add: user_request_def)
    ultimately show ?thesis by blast
  qed
qed

end
