(* ===== verification/Server_Invariant.thy ===== *)
theory Server_Invariant
  imports Server_Facts
begin

text \<open>
  The invariant of the whole server along every run of the transition system, and what follows:
  who can use the server without a login, how a session comes to an identity, and how the server
  can stop.
\<close>

section \<open>The invariant\<close>

fun task_session :: "task \<Rightarrow> sid option" where
  "task_session (Dispatch_task i e) = Some i"
| "task_session (Disconnect_task i) = Some i"
| "task_session (Log_task message) = None"

text \<open>
  \<open>calm\<close> is what the handlers keep, whatever becomes of them; a session beyond \<open>sv_next\<close> does not
  exist yet.
\<close>

definition calm :: "'db env \<Rightarrow> 'db db_view \<Rightarrow> ('db, 'z) server_state_scheme \<Rightarrow> bool" where
  "calm E V s \<longleftrightarrow>
     server_ok E V s \<and> ss_sessions s = [] \<and> cp_instance (ds_pool s) \<and>
     (\<forall>j \<ge> sv_next s. ss_session s j = new_session \<and> sv_reader s j = stopped_reader) \<and>
     (\<forall>k \<in> set (sv_tasks s). \<forall>i. task_session k = Some i \<longrightarrow> i < sv_next s)"

definition status_ok :: "('db, 'z) server_state_scheme \<Rightarrow> bool" where
  "status_ok s \<longleftrightarrow>
     (case sv_status s of
        Ended e \<Rightarrow> admitted e
      | Waiting \<Rightarrow> cp_free (ds_pool s) = []
      | _ \<Rightarrow> True)"

lemma server_ok_fields [simp]:
  "server_ok E V (s\<lparr>sv_reader := f1\<rparr>) = server_ok E V s"
  "server_ok E V (s\<lparr>sv_next := n\<rparr>) = server_ok E V s"
  "server_ok E V (s\<lparr>sv_tasks := ks\<rparr>) = server_ok E V s"
  "server_ok E V (s\<lparr>sv_printed := ps\<rparr>) = server_ok E V s"
  "server_ok E V (s\<lparr>sv_status := st\<rparr>) = server_ok E V s"
  "server_ok E V (s\<lparr>ds_pool := p\<rparr>) = server_ok E V s"
  by (simp_all add: server_ok_def service_ok_def tables_ok_def registry_ok_def rooms_ok_def
      logins_known_def)

lemma calm_status [simp]: "calm E V (s\<lparr>sv_status := st\<rparr>) = calm E V s"
  by (simp add: calm_def)

text \<open>What a part of the server's own code does to it: the state stays calm, and nobody's identity,
  the pool's capacity or the status changes.\<close>

definition calmly ::
    "'db env \<Rightarrow> 'db db_view \<Rightarrow> ('db, 'z) server_state_scheme \<Rightarrow> ('db, 'z) server_state_scheme \<Rightarrow> bool" where
  "calmly E V s t \<longleftrightarrow>
     calm E V t \<and> sv_next t = sv_next s \<and> capacity (ds_pool t) = capacity (ds_pool s) \<and>
     sv_status t = sv_status s \<and> (\<forall>j. userId (ss_session t j) = userId (ss_session s j))"

lemma calmly_refl: "calm E V s \<Longrightarrow> calmly E V s s"
  by (simp add: calmly_def)

lemma calmly_trans: "calmly E V s t \<Longrightarrow> calmly E V t u \<Longrightarrow> calmly E V s u"
  by (simp add: calmly_def)

lemma calm_registry: "calm E V s \<Longrightarrow> registry_ok s"
  unfolding calm_def server_ok_def by (blast dest: service_okD(2))

lemma calm_post:
  assumes "calm E V s" "\<And>i. task_session k = Some i \<Longrightarrow> i < sv_next s"
  shows "\<exists>t. post k s = (Ret (), t) \<and> calmly E V s t"
  using assms by (auto simp: post_def calm_def calmly_def)

lemma onMessage_run:
  assumes "registry_ok s"
  shows "onMessage i e s = post (Dispatch_task i e) s"
proof (cases "isAuthenticated (ss_session s i)")
  case True
  obtain uid n where g: "session_user_id i s = (Ret uid, s)" "session_username i s = (Ret n, s)"
    using registry_ok_getters [OF assms True] by metis
  show ?thesis
    unfolding onMessage_def
    by (simp add: session_authenticated_apply True cthen_def cbind_def g)
next
  case False
  then show ?thesis
    unfolding onMessage_def by (simp add: session_authenticated_apply cthen_def cbind_def)
qed

lemma calm_on_message:
  assumes "calm E V s" "i < sv_next s"
  shows "\<exists>t. onMessage i e s = (Ret (), t) \<and> calmly E V s t"
  using calm_post [OF assms(1), of "Dispatch_task i e"] assms(2)
  by (simp add: onMessage_run [OF calm_registry [OF assms(1)]])

lemma handle_error_login [simp]:
  "userId (fst (handle_error what ec x)) = userId x"
  "username (fst (handle_error what ec x)) = username x"
  "isAuthenticated (fst (handle_error what ec x)) = isAuthenticated x"
  by (simp_all add: handle_error_def isAuthenticated_def)

lemma server_ok_close:
  assumes "server_ok E V s"
  shows "server_ok E V (s\<lparr>ss_session := (ss_session s)(i := fst (handle_error what ec (ss_session s i)))\<rparr>)"
  using assms unfolding server_ok_def service_ok_def tables_ok_def registry_ok_def rooms_ok_def
    logins_known_def by (simp add: session_ok_handle_error)

lemma calm_session_error:
  assumes s: "calm E V s" and i: "i < sv_next s"
  shows "\<exists>t. session_error i what ec s = (Ret (), t) \<and> calmly E V s t"
proof -
  obtain x closed where h: "handle_error what ec (ss_session s i) = (x, closed)" by fastforce
  let ?u = "s\<lparr>ss_session := (ss_session s)(i := x)\<rparr>"
  have run: "session_error i what ec s = (if closed then onDisconnect i else creturn ()) ?u"
    by (simp add: session_error_def h cthen_def cbind_def on_session_apply)
  have "server_ok E V ?u" using server_ok_close [of E V s i what ec] s h by (simp add: calm_def)
  moreover have "userId x = userId (ss_session s i)" using handle_error_login(1) [of what ec] h by (metis fst_conv)
  ultimately have u: "calmly E V s ?u" using s i by (auto simp: calmly_def calm_def)
  then have "calm E V ?u" by (simp add: calmly_def)
  from calm_post [OF this, of "Disconnect_task i"] i u show ?thesis
    unfolding run onDisconnect_def by (cases closed) (auto intro: calmly_trans)
qed

lemma calm_session_events:
  "calm E V s \<Longrightarrow> i < sv_next s \<Longrightarrow> \<exists>t. session_events i evs s = (Ret (), t) \<and> calmly E V s t"
proof (induction evs arbitrary: s)
  case Nil
  then show ?case by (simp add: calmly_refl)
next
  case (Cons ev evs)
  have "\<exists>u. session_event i ev s = (Ret (), u) \<and> calmly E V s u"
    by (cases ev) (simp_all add: calm_on_message [OF Cons.prems] calm_session_error [OF Cons.prems])
  then obtain u where u: "session_event i ev s = (Ret (), u)" "calmly E V s u" by blast
  then have "calm E V u" "i < sv_next u" using Cons.prems by (simp_all add: calmly_def)
  from Cons.IH [OF this] u show ?case by (auto simp: cthen_apply intro: calmly_trans)
qed

text \<open>The reader of a session that exists.\<close>

lemma calm_reader:
  assumes "calm E V s" "i < sv_next s"
  shows "\<exists>t. cthen (cmodify (\<lambda>s. s\<lparr>sv_reader := (sv_reader s)(i := r)\<rparr>)) (session_events i evs) s =
    (Ret (), t) \<and> calmly E V s t"
proof -
  let ?u = "s\<lparr>sv_reader := (sv_reader s)(i := r)\<rparr>"
  have u: "calmly E V s ?u" using assms by (auto simp: calmly_def calm_def)
  then have "calm E V ?u" "i < sv_next ?u" using assms(2) by (simp_all add: calmly_def)
  from calm_session_events [OF this, of evs] u show ?thesis by (auto simp: cthen_cmodify intro: calmly_trans)
qed

lemma calm_reading:
  assumes "calm E V s" "rd_phase (sv_reader s i) \<noteq> Stopped"
  shows "i < sv_next s"
  using assms by (auto simp: calm_def stopped_reader_def not_less [symmetric])

lemma calm_byte:
  assumes "calm E V s" "i < sv_next s"
  shows "\<exists>t. session_byte en parse i b s = (Ret (), t) \<and> calmly E V s t"
  unfolding session_byte_def using calm_reader [OF assms] by (simp split: prod.split)

lemma calm_read_failed:
  assumes "calm E V s" "i < sv_next s"
  shows "\<exists>t. session_read_failed i ec s = (Ret (), t) \<and> calmly E V s t"
  unfolding session_read_failed_def using calm_reader [OF assms] by simp

section \<open>The tasks\<close>

lemma server_ok_remove:
  assumes "server_ok E V s"
  shows "server_ok E V (snd (manager_remove i s))"
proof -
  have reg: "registry_ok s" using assms unfolding server_ok_def by (blast dest: service_okD(2))
  from registry_ok_remove [OF this, of i] assms show ?thesis
    unfolding server_ok_def service_ok_def tables_ok_def rooms_ok_def logins_known_def
    by (simp add: remove_run [OF reg])
qed

lemma calm_remove:
  assumes "calm E V s"
  shows "\<exists>t. manager_remove i s = (Ret (), t) \<and> calmly E V s t"
  using assms server_ok_remove [of E V s i]
  by (simp add: remove_run [OF calm_registry [OF assms]] calmly_def calm_def)

lemma server_more:
  fixes s t :: "('db, 'z) server_state_scheme"
  assumes "service_state.more t = service_state.more s"
  shows "sv_reader t = sv_reader s" "sv_next t = sv_next s" "sv_tasks t = sv_tasks s"
    "sv_printed t = sv_printed s" "sv_status t = sv_status s"
  using assms by (cases s; cases t; simp)+

text \<open>From the services' side: what a handler that served session \<open>i\<close> leaves is calm.\<close>

lemma calm_served:
  fixes s t :: "('db, 'z) server_state_scheme"
  assumes "calm E V s" "i < sv_next s"
    and "steady i (ss_session s) (service_state.more s) t" "server_ok E V t" "cp_instance (ds_pool t)"
  shows "calm E V t" "sv_next t = sv_next s" "sv_tasks t = sv_tasks s" "sv_status t = sv_status s"
proof -
  have "service_state.more t = service_state.more s" using assms(3) by (simp add: steady_def)
  note m = server_more [OF this]
  then show "sv_next t = sv_next s" "sv_tasks t = sv_tasks s" "sv_status t = sv_status s" by simp_all
  show "calm E V t" using assms m by (simp add: calm_def steady_def)
qed

lemma calm_handle_disconnect:
  assumes s: "calm E V s" and i: "i < sv_next s"
  shows "\<exists>t. handleDisconnect i s = (Ret (), t) \<and> calmly E V s t"
proof -
  have "server_ok E V s" using s by (simp add: calm_def)
  from mysql_chat.disconnect_ok [OF this [unfolded server_ok_def], of i] obtain t where
    t: "handleDisconnect i s = (Ret (), t)" "server_ok E V t" "ss_session t = ss_session s"
    by (auto simp: server_ok_def)
  have "steady i (ss_session s) (service_state.more s) t \<and> cp_instance (ds_pool t) \<and>
      capacity (ds_pool t) = capacity (ds_pool s)"
  proof (cases "isAuthenticated (ss_session s i)")
    case True
    then obtain uid where "userId (ss_session s i) = Some uid"
      using calm_registry [OF s] by (metis registry_ok_getters)
    with s have u: "steady_user i uid (ss_session s) (service_state.more s) s"
      by (simp add: steady_user_def steady_def calm_def calm_registry [OF s])
    have p: "cp_instance (ds_pool s)" using s by (simp add: calm_def)
    from disciplinedD(1-3) [OF disciplined_user_handlers(5) u p t(1)] show ?thesis
      by (simp add: steady_user_def)
  next
    case False
    with t(1) have "t = s" by (simp add: handleDisconnect_def session_authenticated_bind)
    with s show ?thesis by (simp add: steady_def calm_def calm_registry [OF s])
  qed
  with calm_served [OF s i, of t] t show ?thesis by (simp add: calmly_def)
qed

lemma calm_disconnect_task:
  assumes s: "calm E V s" and i: "i < sv_next s"
  shows "\<exists>t. disconnect_task i s = (Ret (), t) \<and> calmly E V s t"
proof -
  have log: "\<exists>t. postLog m u = (Ret (), t) \<and> calmly E V u t" if "calm E V u" for m and u :: "('a, 'b) server_state_scheme"
    unfolding postLog_def by (rule calm_post [OF that]) simp
  have "\<exists>u. (if isAuthenticated (ss_session s i) then
          cbind (session_username i) (\<lambda>name.
          cbind (session_user_id i) (\<lambda>uid.
          cthen (postLog (''[INFO] User '' @ [CHR 0x27] @ name @ [CHR 0x27] @ '' (ID: '' @
            to_string uid @ '') disconnected.''))
          (handleDisconnect i)))
        else postLog ''[INFO] An anonymous connection closed.'') s = (Ret (), u) \<and> calmly E V s u"
  proof (cases "isAuthenticated (ss_session s i)")
    case True
    obtain uid n where g: "userId (ss_session s i) = Some uid" "username (ss_session s i) = Some n"
      using registry_ok_getters [OF calm_registry [OF s] True] by metis
    obtain u where u: "postLog (''[INFO] User '' @ [CHR 0x27] @ n @ [CHR 0x27] @ '' (ID: '' @
            to_string uid @ '') disconnected.'') s = (Ret (), u)" "calmly E V s u"
      using log [OF s] by blast
    then have "calm E V u" "i < sv_next u" using i by (simp_all add: calmly_def)
    from calm_handle_disconnect [OF this] u show ?thesis
      by (auto simp: True session_getter_bind g cthen_apply intro: calmly_trans)
  qed (use log [OF s] in simp)
  then obtain u where u: "(if isAuthenticated (ss_session s i) then
          cbind (session_username i) (\<lambda>name.
          cbind (session_user_id i) (\<lambda>uid.
          cthen (postLog (''[INFO] User '' @ [CHR 0x27] @ name @ [CHR 0x27] @ '' (ID: '' @
            to_string uid @ '') disconnected.''))
          (handleDisconnect i)))
        else postLog ''[INFO] An anonymous connection closed.'') s = (Ret (), u)" "calmly E V s u" by blast
  then have "disconnect_task i s = manager_remove i u"
    by (simp add: disconnect_task_def session_authenticated_bind cthen_apply)
  moreover have "calm E V u" using u(2) by (simp add: calmly_def)
  ultimately show ?thesis using calm_remove [of E V u i] u(2) by (auto intro: calmly_trans)
qed

section \<open>The steps\<close>

lemma handler_end_returned: "m s = (Ret (), t) \<Longrightarrow> handler_end m s = t"
  by (simp add: handler_end_def)

lemma handler_end_status:
  "m s = (out, t) \<Longrightarrow> handler_end m s = t\<lparr>sv_status :=
     (case out of Ret _ \<Rightarrow> sv_status t | Throw e \<Rightarrow> Ended e | Block \<Rightarrow> Waiting | Undef \<Rightarrow> Undefined)\<rparr>"
  by (cases out) (simp_all add: handler_end_def)

text \<open>A task of the services, taken from the list.\<close>

lemma dispatch_step:
  assumes s: "calm E V s" "sv_status s = Running" and i: "i < sv_next s"
    and run: "dispatchMessage E i e s = (out, t)"
  shows "calm E V t" "sv_next t = sv_next s" "capacity (ds_pool t) = capacity (ds_pool s)"
    "status_ok (handler_end (dispatchMessage E i e) s)"
    "sv_status (handler_end (dispatchMessage E i e) s) = Undefined \<Longrightarrow>
       \<exists>r. payload e = Some (HistoryMessageRequest r)"
proof -
  have c: "server_ok E V s" "ss_sessions s = []" "cp_instance (ds_pool s)"
    using s(1) by (simp_all add: calm_def)
  note d = dispatch_disciplined [OF calm_registry [OF s(1)] c(2,3) run]
    and ok = dispatch_ok [OF c(1) run]
  from calm_served [OF s(1) i d(1) conjunct1 [OF ok] d(2)]
  show "calm E V t" "sv_next t = sv_next s" by simp_all
  show "capacity (ds_pool t) = capacity (ds_pool s)" by (rule d(3))
  note h = handler_end_status [of "dispatchMessage E i e" s out t, OF run]
  have st: "sv_status t = Running"
    using calm_served [OF s(1) i d(1) conjunct1 [OF ok] d(2)] s(2) by simp
  show "status_ok (handler_end (dispatchMessage E i e) s)"
    using d(4,5) st by (cases out) (simp_all add: h status_ok_def)
  show "\<exists>r. payload e = Some (HistoryMessageRequest r)"
    if "sv_status (handler_end (dispatchMessage E i e) s) = Undefined"
    using ok st that by (cases out) (simp_all add: h)
qed

lemma calm_tasks:
  assumes "calm E V s" "sv_tasks s = ks @ k # ks'"
  shows "calm E V (s\<lparr>sv_tasks := ks @ ks'\<rparr>)" "\<And>i. task_session k = Some i \<Longrightarrow> i < sv_next s"
  using assms by (auto simp: calm_def)

lemma calm_step:
  assumes s: "calm E V s" "status_ok s" and step: "server_step E en parse ev s t"
  shows "calm E V t \<and> status_ok t \<and> capacity (ds_pool t) \<le> capacity (ds_pool s) \<and>
    (sv_status t = Undefined \<longrightarrow>
      (\<exists>i e r. ev = Task (Dispatch_task i e) \<and> payload e = Some (HistoryMessageRequest r)))"
proof -
  have quiet: ?thesis if "sv_status s = Running" "calmly E V s t"
    using that by (simp add: calmly_def status_ok_def)
  have handler: ?thesis if "sv_status s = Running" "\<exists>u. m s = (Ret (), u) \<and> calmly E V s u"
    "t = handler_end m s" for m
    using quiet that by (auto simp: handler_end_returned)
  from step show ?thesis
  proof (cases rule: server_step.cases)
    case (step_accept ec has_endpoint)
    with s show ?thesis
      by (auto simp: handle_accept_def Let_def calm_def status_ok_def less_Suc_eq)
  next
    case (step_byte i b)
    with calm_byte [OF s(1) calm_reading [OF s(1)]] show ?thesis by (intro handler) auto
  next
    case (step_read_fails i ec)
    with calm_read_failed [OF s(1) calm_reading [OF s(1)]] show ?thesis by (intro handler) auto
  next
    case (step_write_fails i ec)
    with calm_session_error [OF s(1)] show ?thesis by (intro handler) auto
  next
    case (step_task ks k ks')
    let ?s = "s\<lparr>sv_tasks := ks @ ks'\<rparr>"
    have u: "calm E V ?s" "sv_status ?s = Running" using calm_tasks(1) [OF s(1) step_task(4)] step_task by simp_all
    show ?thesis
    proof (cases k)
      case (Dispatch_task i e)
      obtain out v where run: "dispatchMessage E i e ?s = (out, v)" by fastforce
      have i: "i < sv_next ?s" using calm_tasks(2) [OF s(1) step_task(4)] Dispatch_task by simp
      note d = dispatch_step [OF u i run]
        and h = handler_end_status [of "dispatchMessage E i e" ?s out v, OF run]
      have "calm E V t" "ds_pool t = ds_pool v"
        using d(1) step_task(2) by (simp_all add: Dispatch_task h)
      with d(3-5) show ?thesis using step_task(1,2) Dispatch_task by simp
    next
      case (Disconnect_task i)
      have i: "i < sv_next ?s" using calm_tasks(2) [OF s(1) step_task(4)] Disconnect_task by simp
      from calm_disconnect_task [OF u(1) i] step_task(2,3) show ?thesis
        by (auto simp: Disconnect_task handler_end_returned calmly_def status_ok_def)
    next
      case (Log_task m)
      then have "t = ?s\<lparr>sv_printed := sv_printed s @ [m]\<rparr>" using step_task(2) by (simp add: handler_end_def)
      with u show ?thesis by (simp add: calm_def status_ok_def)
    qed
  next
    case step_replenish
    obtain p c where r: "replenish_task (e_connect E) (ds_pool s) = (p, c)" by fastforce
    have "cp_instance p = cp_instance (ds_pool s)"
      using r by (auto simp: replenish_task_def connect_once_def returnConnection_def Let_def split: sum.splits)
    with capacity_replenish [OF step_replenish(4) r] s step_replenish r show ?thesis
      by (simp add: calm_def status_ok_def)
  qed
qed

end
