(* ===== verification/Server_Properties.thy ===== *)
theory Server_Properties
  imports Server_Invariant
begin

text \<open>
  Properties of the server as a whole, over every run of the transition system: its invariant and
  the ways it can stop, the gate before the services, and where a session's identity comes from.
\<close>

section \<open>Runs\<close>

lemma calm_start:
  assumes "db_ok E V d" "cp_instance p"
  shows "calm E V (server_start d p)" "status_ok (server_start d p)"
proof -
  have "server_ok E V (server_start d p)"
    using assms(1) unfolding server_ok_def service_ok_def tables_ok_def registry_ok_def rooms_ok_def
      rooms_known_def logins_known_def rooms_wf_def seat_in_def
    by (simp add: server_start_def new_session_ok) (simp add: new_session_def)
  then show "calm E V (server_start d p)" "status_ok (server_start d p)"
    using assms(2) by (simp_all add: calm_def status_ok_def) (simp_all add: server_start_def)
qed

lemma calm_run:
  assumes "server_run E en parse s0 evs s" "calm E V s0" "status_ok s0" "sv_status s0 \<noteq> Undefined"
  shows "calm E V s \<and> status_ok s \<and> capacity (ds_pool s) \<le> capacity (ds_pool s0) \<and>
    (sv_status s = Undefined \<longrightarrow>
      (\<exists>i e r. last evs = Task (Dispatch_task i e) \<and> payload e = Some (HistoryMessageRequest r)))"
  using assms
proof (induction rule: server_run.induct)
  case (run_step evs s ev t)
  then have "calm E V s" "status_ok s" "capacity (ds_pool s) \<le> capacity (ds_pool s0)" by simp_all
  with calm_step [OF this(1,2) run_step.hyps(2)] show ?case by auto
qed simp

section \<open>Who a session is\<close>

text \<open>An envelope that logs in as the stored user \<open>uid\<close>: it brings that user's password.\<close>

definition logs_in :: "'db env \<Rightarrow> 'db db_view \<Rightarrow> 'db \<Rightarrow> envelope \<Rightarrow> long_long \<Rightarrow> bool" where
  "logs_in E V d e uid \<longleftrightarrow>
     (\<exists>r u. payload e = Some (LoginRequest r) \<and> credential_of u \<in> db_users_of V d \<and> u_id u = uid \<and>
        dv_same_text V (u_username u) (lq_username r) \<and>
        hashPassword (e_sha256 E) (lq_password r) (u_salt u) = u_hashed_password u)"

lemma identity_dispatch:
  assumes s: "calm E V s" and run: "dispatchMessage E i e s = (out, t)"
    and uid: "userId (ss_session t j) = Some uid"
  shows "userId (ss_session s j) = Some uid \<or> (j = i \<and> logs_in E V (ds_db s) e uid)"
proof -
  have c: "db_ok E V (ds_db s)" "ss_sessions s = []" "cp_instance (ds_pool s)"
    using s unfolding calm_def server_ok_def by (auto dest: service_okD)
  note reg = calm_registry [OF s]
  note d = dispatch_disciplined [OF reg c(2,3) run]
  show ?thesis
  proof (cases "j = i")
    case False
    with d(1) uid show ?thesis by (simp add: steady_def)
  next
    case j: True
    show ?thesis
    proof (cases "\<exists>r. payload e = Some (LoginRequest r)")
      case True
      then obtain r where r: "payload e = Some (LoginRequest r)" by blast
      with run have "handleLogin E (MySQLUserRepository E) i r s = (out, t)"
        by (simp add: dispatchMessage_def)
      from mysql_users.login_result [OF c(1) this] uid j r show ?thesis
        by (auto simp: logs_in_def setAuthenticated_def same_login_def)
    next
      case False
      show ?thesis
      proof (cases "userId (ss_session s i)")
        case (Some u)
        with d(6) [OF Some] False uid j show ?thesis by auto
      next
        case None
        then have "\<not> isAuthenticated (ss_session s i)"
          using reg by (auto simp: registry_ok_def session_ok_def isAuthenticated_def)
        then have "anonymous_request E i e s = (out, t)"
          using run by (simp add: dispatchMessage_def anonymous_request_def session_authenticated_bind
              split: option.splits payload.splits)
        then have "ss_session t = ss_session s"
          using False mysql_users.register_result [OF c(1)]
          by (auto simp: anonymous_request_def session_send_apply same_login_def
              split: option.splits payload.splits)
        with uid show ?thesis by simp
      qed
    qed
  qed
qed

lemma identity_step:
  assumes s: "calm E V s" and step: "server_step E en parse ev s t"
    and uid: "userId (ss_session t j) = Some uid"
  shows "userId (ss_session s j) = Some uid \<or>
    (\<exists>e. ev = Task (Dispatch_task j e) \<and> logs_in E V (ds_db s) e uid)"
proof -
  have handler: ?thesis if "\<exists>u. m s = (Ret (), u) \<and> calmly E V s u" "t = handler_end m s" for m
    using that uid by (auto simp: handler_end_returned calmly_def)
  from step show ?thesis
  proof (cases rule: server_step.cases)
    case (step_accept ec has_endpoint)
    with uid show ?thesis by (auto simp: handle_accept_def Let_def split: if_splits)
  next
    case (step_byte i b)
    with calm_byte [OF s calm_reading [OF s]] show ?thesis by (intro handler) auto
  next
    case (step_read_fails i ec)
    with calm_read_failed [OF s calm_reading [OF s]] show ?thesis by (intro handler) auto
  next
    case (step_write_fails i ec)
    with calm_session_error [OF s] show ?thesis by (intro handler) auto
  next
    case (step_task ks k ks')
    let ?s = "s\<lparr>sv_tasks := ks @ ks'\<rparr>"
    note u = calm_tasks [OF s step_task(4)]
    show ?thesis
    proof (cases k)
      case (Dispatch_task i e)
      obtain out v where run: "dispatchMessage E i e ?s = (out, v)" by fastforce
      have "ss_session t = ss_session v"
        using step_task(2) handler_end_status [of "dispatchMessage E i e" ?s out v, OF run]
        by (simp add: Dispatch_task)
      with identity_dispatch [OF u(1) run, of j uid] uid step_task(1) Dispatch_task show ?thesis by auto
    next
      case (Disconnect_task i)
      have "i < sv_next ?s" using u(2) Disconnect_task by simp
      from calm_disconnect_task [OF u(1) this] step_task(2) uid show ?thesis
        by (auto simp: Disconnect_task handler_end_returned calmly_def)
    next
      case (Log_task m)
      with step_task(2) uid show ?thesis by (simp add: handler_end_def)
    qed
  next
    case step_replenish
    with uid show ?thesis by simp
  qed
qed

section \<open>Properties\<close>

text \<open>C26. The invariant of the whole server. In every state the running server can reach, whatever
  clients send and however the database fails within its contract: the tables of sessions, rooms
  and members are consistent with each other and with the stored users and rooms, no session that
  was not accepted is logged in, and the pool holds no more connections than at the start. The
  server can stop in three ways only: by one of the two exceptions that no handler catches, by
  waiting on an empty pool, or by a history request that dereferences an empty optional.\<close>

theorem server_invariant:
  assumes "db_ok E V d" "cp_instance p" "server_run E en parse (server_start d p) evs s"
  shows "server_ok E V s \<and> ss_sessions s = [] \<and> capacity (ds_pool s) \<le> capacity p \<and>
    {j. isAuthenticated (ss_session s j)} \<subseteq> {j. j < sv_next s} \<and>
    (case sv_status s of
       Running \<Rightarrow> True
     | Ended e \<Rightarrow> admitted e
     | Waiting \<Rightarrow> cp_free (ds_pool s) = []
     | Undefined \<Rightarrow> \<exists>i e r. last evs = Task (Dispatch_task i e) \<and>
         payload e = Some (HistoryMessageRequest r))"
proof -
  have "sv_status (server_start d p) \<noteq> Undefined" "ds_pool (server_start d p) = p"
    by (simp_all add: server_start_def)
  with calm_run [OF assms(3) calm_start [OF assms(1,2)]]
  have r: "calm E V s" "status_ok s" "capacity (ds_pool s) \<le> capacity p"
    "sv_status s = Undefined \<Longrightarrow>
      \<exists>i e r. last evs = Task (Dispatch_task i e) \<and> payload e = Some (HistoryMessageRequest r)" by auto
  have "{j. isAuthenticated (ss_session s j)} \<subseteq> {j. j < sv_next s}"
    using r(1) by (auto simp: calm_def isAuthenticated_def new_session_def not_less [symmetric])
  with r show ?thesis
    by (cases "sv_status s") (simp_all add: calm_def status_ok_def)
qed

text \<open>C28. Nobody gets past the gate without a login. A task of a session that is not logged in,
  with anything but a login or a registration, is answered with \<open>Authentication required.\<close> and
  changes nothing else: no table, no other outbox, no database call.\<close>

theorem unauthenticated_gate:
  assumes "server_step E en parse (Task (Dispatch_task i e)) s t"
    and "\<not> isAuthenticated (ss_session s i)"
    and "\<And>r. payload e \<noteq> Some (LoginRequest r)" "\<And>r. payload e \<noteq> Some (RegistrationRequest r)"
  shows "\<exists>ks ks'. sv_tasks s = ks @ Dispatch_task i e # ks' \<and>
    t = s\<lparr>sv_tasks := ks @ ks', ss_outbox := (ss_outbox s)(i := ss_outbox s i @
      [error_envelope ''Authentication required.''])\<rparr>"
proof -
  from assms(1) obtain ks ks' where k: "sv_tasks s = ks @ Dispatch_task i e # ks'"
    "t = handler_end (dispatchMessage E i e) (s\<lparr>sv_tasks := ks @ ks'\<rparr>)"
    by (auto simp: server_step_task)
  have "dispatchMessage E i e (s\<lparr>sv_tasks := ks @ ks'\<rparr>) =
    session_send i (error_envelope ''Authentication required.'') (s\<lparr>sv_tasks := ks @ ks'\<rparr>)"
    using assms(2-4) by (simp add: dispatchMessage_def session_authenticated_bind
        split: option.split payload.split)
  with k show ?thesis by (auto simp: handler_end_def session_send_apply)
qed

text \<open>C29. An identity comes from a password. If a session is some user in a state the server can
  reach, then earlier in the run a login task of that same session was handled, whose password
  matched the stored hash of that user at that time; nothing else, no message of another
  session, no registration, no change of a name and no failure, makes a session somebody.\<close>

theorem identity_needs_password:
  assumes "db_ok E V d" "cp_instance p" "server_run E en parse (server_start d p) evs s"
    and "userId (ss_session s j) = Some uid"
  shows "\<exists>before e after s'. evs = before @ Task (Dispatch_task j e) # after \<and>
    server_run E en parse (server_start d p) before s' \<and> logs_in E V (ds_db s') e uid"
  using assms(3,4)
proof (induction rule: server_run.induct)
  case run_start
  then show ?case by (simp add: server_start_def new_session_def)
next
  case (run_step evs s ev t)
  have "sv_status (server_start d p) \<noteq> Undefined" by (simp add: server_start_def)
  with calm_run [OF run_step.hyps(1) calm_start [OF assms(1,2)]] have "calm E V s" by blast
  from identity_step [OF this run_step.hyps(2) run_step.prems] show ?case
  proof
    assume "userId (ss_session s j) = Some uid"
    from run_step.IH [OF this] show ?thesis by (metis append_Cons append_assoc)
  next
    assume "\<exists>e. ev = Task (Dispatch_task j e) \<and> logs_in E V (ds_db s) e uid"
    with run_step.hyps(1) show ?thesis by blast
  qed
qed

section \<open>A run\<close>

text \<open>
  A client connects to the small world and sends one frame, whose body the parser takes for ann's
  login.
\<close>

definition ref_login :: envelope where
  "ref_login = envelope_with (LoginRequest \<lparr>lq_username = ''ann'', lq_password = ''sesame''\<rparr>)"

definition ref_parse :: "byte list \<Rightarrow> envelope option" where
  "ref_parse body = (if body = [7] then Some ref_login else None)"

definition ref_reading :: "reader \<Rightarrow> task list \<Rightarrow> ref_db server_state" where
  "ref_reading r ks = (server_start ref_db0 ref_pool)
     \<lparr>sv_reader := (\<lambda>_. stopped_reader)(0 := r), sv_next := 1, sv_tasks := ks\<rparr>"

lemma ref_accepts:
  "server_step ref_env Big_endian ref_parse (Accept Ec_ok True) (server_start ref_db0 ref_pool)
     (ref_reading reader_start [])"
proof -
  have "ref_reading reader_start [] = handle_accept Ec_ok True (server_start ref_db0 ref_pool)"
    by (simp add: ref_reading_def handle_accept_def server_start_def)
  then show ?thesis by (simp only:) (rule step_accept, simp add: server_start_def)
qed

lemma ref_reads:
  assumes "rd_phase r \<noteq> Stopped"
    and "read_byte (header_complete Big_endian) (body_complete ref_parse) r b = (r', [])"
  shows "server_step ref_env Big_endian ref_parse (Byte 0 b) (ref_reading r ks) (ref_reading r' ks)"
proof -
  have "session_byte Big_endian ref_parse 0 b (ref_reading r ks) = (Ret (), ref_reading r' ks)"
    by (simp add: session_byte_def ref_reading_def assms(2) cthen_cmodify)
  then have "ref_reading r' ks = handler_end (session_byte Big_endian ref_parse 0 b) (ref_reading r ks)"
    by (simp add: handler_end_def)
  then show ?thesis
    by (simp only:) (rule step_byte, simp_all add: ref_reading_def server_start_def assms(1))
qed

lemma ref_reading_reader:
  "sv_reader (ref_reading r ks) 0 = r"
  "(ref_reading r ks)\<lparr>sv_reader := (sv_reader (ref_reading r ks))(0 := r')\<rparr> = ref_reading r' ks"
  by (simp_all add: ref_reading_def server_start_def)

lemma ref_delivers:
  "server_step ref_env Big_endian ref_parse (Byte 0 7) (ref_reading \<lparr>rd_phase = Reading_body 1, rd_buf = []\<rparr> [])
     (ref_reading reader_start [Dispatch_task 0 ref_login])"
proof -
  let ?s = "ref_reading \<lparr>rd_phase = Reading_body 1, rd_buf = []\<rparr> []"
  have read: "read_byte (header_complete Big_endian) (body_complete ref_parse)
      \<lparr>rd_phase = Reading_body 1, rd_buf = []\<rparr> 7 = (reader_start, [Deliver ref_login])"
    by (simp add: read_byte_def body_complete_def ref_parse_def reader_start_def)
  have anonymous: "\<not> isAuthenticated (ss_session (ref_reading r ks) 0)" for r ks
    by (simp add: ref_reading_def server_start_def new_session_def isAuthenticated_def)
  have "session_byte Big_endian ref_parse 0 7 ?s = session_events 0 [Deliver ref_login] (ref_reading reader_start [])"
    by (simp add: session_byte_def cthen_cmodify ref_reading_reader read del: session_events.simps)
  also have "\<dots> = (Ret (), ref_reading reader_start [Dispatch_task 0 ref_login])"
    using anonymous by (simp add: onMessage_def session_authenticated_apply cthen_def cbind_def post_def)
      (simp add: ref_reading_def)
  finally have "ref_reading reader_start [Dispatch_task 0 ref_login] =
      handler_end (session_byte Big_endian ref_parse 0 7) ?s" by (simp add: handler_end_def)
  then show ?thesis
    by (simp only:) (rule step_byte, simp_all add: ref_reading_def server_start_def)
qed

definition ref_events :: "event list" where
  "ref_events = [Accept Ec_ok True, Byte 0 0, Byte 0 0, Byte 0 0, Byte 0 1, Byte 0 7]"

lemma ref_run_delivers:
  "server_run ref_env Big_endian ref_parse (server_start ref_db0 ref_pool) ref_events
     (ref_reading reader_start [Dispatch_task 0 ref_login])"
proof -
  let ?R = "server_run ref_env Big_endian ref_parse (server_start ref_db0 ref_pool)"
  let ?r = "\<lambda>bs. \<lparr>rd_phase = Reading_header, rd_buf = bs\<rparr>"
  have "?R ([] @ [Accept Ec_ok True]) (ref_reading (?r []) [])"
    using run_step [OF run_start ref_accepts] by (simp add: reader_start_def)
  from run_step [OF this ref_reads, of 0 "?r [0]"] have "?R [Accept Ec_ok True, Byte 0 0] (ref_reading (?r [0]) [])"
    by (simp add: read_byte_def header_length_def)
  from run_step [OF this ref_reads, of 0 "?r [0, 0]"]
  have "?R [Accept Ec_ok True, Byte 0 0, Byte 0 0] (ref_reading (?r [0, 0]) [])"
    by (simp add: read_byte_def header_length_def)
  from run_step [OF this ref_reads, of 0 "?r [0, 0, 0]"]
  have "?R [Accept Ec_ok True, Byte 0 0, Byte 0 0, Byte 0 0] (ref_reading (?r [0, 0, 0]) [])"
    by (simp add: read_byte_def header_length_def)
  from run_step [OF this ref_reads, of 1 "\<lparr>rd_phase = Reading_body 1, rd_buf = []\<rparr>"]
  have "?R [Accept Ec_ok True, Byte 0 0, Byte 0 0, Byte 0 0, Byte 0 1]
      (ref_reading \<lparr>rd_phase = Reading_body 1, rd_buf = []\<rparr> [])"
    by (simp add: read_byte_def header_length_def header_complete_def ntohl_def load_u32_def
        be_value_def max_body_length_def)
  from run_step [OF this ref_delivers] show ?thesis by (simp add: ref_events_def)
qed

definition ref_logged_in :: "ref_db server_state" where
  "ref_logged_in = handler_end (dispatchMessage ref_env 0 ref_login) (ref_reading reader_start [])"

lemma ref_run_logs_in:
  "server_run ref_env Big_endian ref_parse (server_start ref_db0 ref_pool)
     (ref_events @ [Task (Dispatch_task 0 ref_login)]) ref_logged_in"
proof -
  let ?s = "ref_reading reader_start [Dispatch_task 0 ref_login]"
  have "sv_status ?s = Running" "sv_tasks ?s = [] @ Dispatch_task 0 ref_login # []"
    "?s\<lparr>sv_tasks := [] @ []\<rparr> = ref_reading reader_start []"
    by (simp_all add: ref_reading_def server_start_def)
  from step_task [OF this(1,2), of ref_env Big_endian ref_parse] this(3)
  have "server_step ref_env Big_endian ref_parse (Task (Dispatch_task 0 ref_login)) ?s ref_logged_in"
    by (simp add: ref_logged_in_def)
  from run_step [OF ref_run_delivers this] show ?thesis .
qed

lemma ref_logged_in_user: "userId (ss_session ref_logged_in 0) = Some 1"
proof -
  let ?s = "ref_reading reader_start []" and ?r = "\<lparr>lq_username = ''ann'', lq_password = ''sesame''\<rparr>"
  have db: "ds_db ?s = ref_db0" by (simp add: ref_reading_def server_start_def)
  have ok: "db_ok ref_env ref_view (ds_db ?s)" and up: "engine_up ref_env ?s"
    by (simp_all add: db ref_db_ok) (simp add: engine_up_def ref_reading_def server_start_def
        ref_pool_def ref_users_def)
  have "(1, ''ann'', hashPassword ref_sha256 ''sesame'' ''5a'', ''5a'') \<in> db_users_of ref_view (ds_db ?s)"
    by (simp add: db db_users_of_def ref_db0_def ref_tables_def ref_user_def row_credential_def)
  from mysql_reliable.login_complete [OF ok up this, of ?r ref_env 0]
  obtain t where t: "handleLogin ref_env (MySQLUserRepository ref_env) 0 ?r ?s = (Ret (), t)"
    "ss_session t 0 = setAuthenticated 1 ''ann'' (ss_session ?s 0)" by auto
  have "ref_logged_in = t"
    by (simp add: ref_logged_in_def handler_end_def dispatchMessage_def ref_login_def envelope_with_def t(1))
  with t(2) show ?thesis by (simp add: setAuthenticated_def)
qed

lemma ref_pool_instance: "cp_instance ref_pool"
  by (simp add: ref_pool_def)

lemma server_invariant_witness:
  "server_ok ref_env ref_view ref_logged_in \<and> capacity (ds_pool ref_logged_in) \<le> capacity ref_pool"
  using server_invariant [OF ref_db_ok(1) ref_pool_instance ref_run_logs_in] by blast

lemma identity_needs_password_witness:
  "\<exists>before e after s'. ref_events @ [Task (Dispatch_task 0 ref_login)] =
     before @ Task (Dispatch_task 0 e) # after \<and>
     server_run ref_env Big_endian ref_parse (server_start ref_db0 ref_pool) before s' \<and>
     logs_in ref_env ref_view (ds_db s') e 1"
  by (rule identity_needs_password [OF ref_db_ok(1) ref_pool_instance ref_run_logs_in ref_logged_in_user])

text \<open>The client says something before it logs in.\<close>

definition ref_shout :: envelope where
  "ref_shout = envelope_with (PublicMessage \<lparr>pm_content = ''hey''\<rparr>)"

lemma ref_task_step:
  assumes "sv_status s = Running" "sv_tasks s = [k]"
  shows "server_step E en parse (Task k) s (handler_end (run_task E k) (s\<lparr>sv_tasks := []\<rparr>))"
  using step_task [of s "[]" k "[]" E en parse] assms by simp

lemma unauthenticated_gate_witness:
  "\<exists>t. server_step ref_env Big_endian ref_parse (Task (Dispatch_task 0 ref_shout))
       (ref_reading reader_start [Dispatch_task 0 ref_shout]) t \<and>
     ss_outbox t 0 = [error_envelope ''Authentication required.'']"
proof -
  let ?s = "ref_reading reader_start [Dispatch_task 0 ref_shout]"
  have s: "sv_status ?s = Running" "sv_tasks ?s = [Dispatch_task 0 ref_shout]" "ss_outbox ?s 0 = []"
    "\<not> isAuthenticated (ss_session ?s 0)"
    by (simp_all add: ref_reading_def server_start_def new_session_def isAuthenticated_def)
  note step = ref_task_step [OF s(1,2), of ref_env Big_endian ref_parse]
  have "\<And>r. payload ref_shout \<noteq> Some (LoginRequest r)" "\<And>r. payload ref_shout \<noteq> Some (RegistrationRequest r)"
    by (simp_all add: ref_shout_def envelope_with_def)
  from unauthenticated_gate [OF step s(4) this] step s(3) show ?thesis by fastforce
qed

end
