(* ===== verification/Client.thy ===== *)
theory Client
  imports Session Domain_Model
begin

text \<open>
  \<open>client/src/client.cpp\<close>: the connection of a chat client, its read loop and write queue with their
  own completion handlers, what it does with each envelope of the server, and the room it takes
  itself to be in. What \<open>std::cout\<close> prints is the list \<open>cl_console\<close>; lines for \<open>std::cerr\<close> are left
  out. \<open>send\<close> posts the frame to the socket's executor: \<open>cl_sent\<close> lists the envelopes in the order
  they are posted, and the queue the posted handlers work on is a \<open>write_queue\<close>, as for the
  server's session. The contracts \<open>frame_reader\<close> and \<open>frame_writer\<close> are interpreted a second time
  here, for the client's handlers.
\<close>

section \<open>State\<close>

record client =
  cl_reader :: reader
  cl_sent :: "envelope list"
  cl_currentRoom :: string
  cl_console :: "string list"
  cl_open :: bool
  cl_work :: bool

text \<open>Parameters: \<open>TimeUtil::ToString\<close>, \<open>error_code::value\<close> and \<open>asio::ip::make_address\<close>.\<close>

record client_env =
  ce_time :: "timestamp \<Rightarrow> string"
  ce_value :: "error_code \<Rightarrow> int"
  ce_make_address :: "string \<Rightarrow> error_code"

definition new_client :: client where
  "new_client =
     \<lparr>cl_reader = \<lparr>rd_phase = Stopped, rd_buf = []\<rparr>, cl_sent = [], cl_currentRoom = '''',
      cl_console = [], cl_open = True, cl_work = True\<rparr>"

definition client_print :: "string \<Rightarrow> client \<Rightarrow> client" where
  "client_print line c = c\<lparr>cl_console := cl_console c @ [line]\<rparr>"

definition getCurrentRoom :: "client \<Rightarrow> string" where
  "getCurrentRoom c = cl_currentRoom c"

definition setCurrentRoom :: "string \<Rightarrow> client \<Rightarrow> client" where
  "setCurrentRoom roomName c = c\<lparr>cl_currentRoom := roomName\<rparr>"

section \<open>Sending\<close>

definition client_send :: "envelope \<Rightarrow> client \<Rightarrow> client" where
  "client_send e c = c\<lparr>cl_sent := cl_sent c @ [e]\<rparr>"

definition client_frame :: "endian \<Rightarrow> byte list \<Rightarrow> byte list" where
  "client_frame en body_data =
     (let body_length = htonl en (word_of_nat (length body_data))
      in store_u32 en body_length @ body_data)"

definition client_do_write :: "write_queue \<Rightarrow> write_queue option" where
  "client_do_write q =
     (case wq_queue q of
        [] \<Rightarrow> None
      | write_buf # _ \<Rightarrow> Some (q\<lparr>wq_writing := wq_writing q @ [write_buf]\<rparr>))"

definition client_post_send :: "byte list \<Rightarrow> write_queue \<Rightarrow> write_queue option" where
  "client_post_send buffer q =
     (let write_in_progress = (wq_queue q \<noteq> []);
          q' = q\<lparr>wq_queue := wq_queue q @ [buffer]\<rparr>
      in if \<not> write_in_progress then client_do_write q' else Some q')"

definition client_handle_write :: "error_code \<Rightarrow> write_queue \<Rightarrow> write_queue option" where
  "client_handle_write ec q =
     (if ec = Ec_ok then
        (case wq_queue q of
           [] \<Rightarrow> None
         | _ # rest \<Rightarrow>
             (let q' = q\<lparr>wq_queue := rest\<rparr>
              in if rest \<noteq> [] then client_do_write q' else Some q'))
      else Some q)"

interpretation client_writer: frame_writer client_post_send client_handle_write
  by unfold_locales
    (auto simp: client_post_send_def client_handle_write_def client_do_write_def Let_def)

section \<open>Receiving\<close>

definition client_header_complete ::
    "endian \<Rightarrow> byte list \<Rightarrow> read_phase \<times> envelope read_event list" where
  "client_header_complete en read_header =
     (let body_length = ntohl en (load_u32 en read_header)
      in if 0 < body_length \<and> body_length < 8192 then (Reading_body body_length, [])
         else (Stopped, [Error ''Invalid length'' Ec_ok]))"

definition client_header_failed :: "client_env \<Rightarrow> error_code \<Rightarrow> envelope read_event list" where
  "client_header_failed C ec =
     (if ec = Ec_eof \<or> ec = Ec_connection_reset \<or> ec = Ec_operation_aborted \<or>
         ce_value C ec \<in> {1236, 10053, 10054, 104, 103}
      then [Error ''Connection closed by peer'' ec]
      else [Error ''Read header'' ec])"

definition client_body_complete ::
    "(byte list \<Rightarrow> envelope option) \<Rightarrow> byte list \<Rightarrow> read_phase \<times> envelope read_event list" where
  "client_body_complete parse read_body =
     (case parse read_body of
        Some e \<Rightarrow> (Reading_header, [Deliver e])
      | None \<Rightarrow> (Stopped, [Error ''Failed to parse'' Ec_ok]))"

definition client_body_failed :: "error_code \<Rightarrow> envelope read_event list" where
  "client_body_failed ec = [Error ''Read body'' ec]"

interpretation client_reader:
  frame_reader "client_header_complete en" "client_body_complete parse" parse for en parse
  by unfold_locales
    (auto simp: client_header_complete_def client_body_complete_def header_length_def
      max_body_length_def Let_def)

text \<open>The message handler.\<close>

definition show_broadcast :: "client_env \<Rightarrow> message_broadcast \<Rightarrow> string" where
  "show_broadcast C msg =
     ''['' @ (case mb_room_name msg of None \<Rightarrow> '''' | Some room \<Rightarrow> room) @ '' | '' @
     mb_from_username msg @ '' at '' @
     ce_time C (case mb_timestamp msg of None \<Rightarrow> \<lparr>ts_seconds = 0, ts_nanos = 0\<rparr> | Some t \<Rightarrow> t) @
     '']: '' @ mb_content msg"

definition room_reply :: "room_operation_response \<Rightarrow> client \<Rightarrow> client" where
  "room_reply resp c =
     (if op_success resp \<and> op_operation resp = JOIN then
        client_send (envelope_with (HistoryMessageRequest
          \<lparr>hq_room_name = op_room_name resp, hq_limit = 20\<rparr>)) (setCurrentRoom (op_room_name resp) c)
      else if op_operation resp = CREATE then setCurrentRoom (op_room_name resp) c
      else if op_success resp \<and> op_operation resp = LEAVE then setCurrentRoom '''' c
      else c)"

definition handle_server_message :: "client_env \<Rightarrow> envelope \<Rightarrow> client \<Rightarrow> client" where
  "handle_server_message C e =
     (case payload e of
        Some (MessageBroadcast msg) \<Rightarrow> client_print (show_broadcast C msg)
      | Some (LoginResponse resp) \<Rightarrow> client_print (''[System] Login response: '' @ lp_message resp)
      | Some (RegistrationResponse resp) \<Rightarrow>
          client_print (if gp_success resp then ''[System] Registration successful! You can now log in.''
            else ''[System] Registration failed: '' @ gp_message resp)
      | Some (ChangePasswordResponse resp) \<Rightarrow>
          client_print (''[System] Change password response: '' @ pp_message resp)
      | Some (ChangeUsernameResponse resp) \<Rightarrow>
          client_print (''[System] Change username response: '' @ np_message resp)
      | Some (RoomOperationResponse resp) \<Rightarrow>
          client_print (''[System] Room operation response: '' @ op_message resp) \<circ> room_reply resp
      | Some (HistoryMessageResponse resp) \<Rightarrow>
          fold (\<lambda>msg. client_print (''  '' @ show_broadcast C msg)) (hp_messages resp) \<circ>
          client_print ''[System] History messages:''
      | Some (ServerNotification event) \<Rightarrow> client_print (sn_message event)
      | Some (ErrorResponse err) \<Rightarrow>
          client_print (''[Error] '' @ er_error_message err @ '' (Code: '' @
            to_string (scast (er_error_code err)) @ '')'')
      | _ \<Rightarrow> client_print ''[System] Received an unhandled message type from server.'')"

text \<open>
  \<open>handle_error\<close> of the client. Its second test is true of every error code, so that the branches
  below it are never taken.
\<close>

definition client_handle_error :: "string \<Rightarrow> error_code \<Rightarrow> client \<Rightarrow> client" where
  "client_handle_error where' ec c =
     (if ec = Ec_eof then client_print (''[System] Connection closed by server ('' @ where' @ '').'') c
      else if ec \<noteq> Ec_ok then c
      else if ec = Ec_operation_aborted then c
      else if ec = Ec_connection_reset then
        client_print (''[INFO] Connection reset by peer ('' @ where' @ '').'') c
      else if ec = Ec_timed_out then
        client_print (''[INFO] Session timed out ('' @ where' @ '').'') c
      else c)"

fun client_event :: "client_env \<Rightarrow> envelope read_event \<Rightarrow> client \<Rightarrow> client" where
  "client_event C (Deliver e) = handle_server_message C e"
| "client_event C (Error where' ec) = client_handle_error where' ec"

text \<open>A byte arrives for the pending read; the read, or a write, fails.\<close>

definition client_byte ::
    "client_env \<Rightarrow> endian \<Rightarrow> (byte list \<Rightarrow> envelope option) \<Rightarrow> byte \<Rightarrow> client \<Rightarrow> client" where
  "client_byte C en parse b c =
     (let (r, evs) = read_byte (client_header_complete en) (client_body_complete parse) (cl_reader c) b
      in fold (client_event C) evs (c\<lparr>cl_reader := r\<rparr>))"

definition client_read_failed :: "client_env \<Rightarrow> error_code \<Rightarrow> client \<Rightarrow> client" where
  "client_read_failed C ec c =
     fold (client_event C)
       (case rd_phase (cl_reader c) of
          Reading_header \<Rightarrow> client_header_failed C ec
        | Reading_body n \<Rightarrow> client_body_failed ec
        | Stopped \<Rightarrow> [])
       (c\<lparr>cl_reader := \<lparr>rd_phase = Stopped, rd_buf = []\<rparr>\<rparr>)"

text \<open>A write completes: \<open>handle_write\<close> with what it reports.\<close>

definition client_write_done ::
    "client_env \<Rightarrow> error_code \<Rightarrow> write_queue \<Rightarrow> client \<Rightarrow> write_queue option \<times> client" where
  "client_write_done C ec q c =
     (client_handle_write ec q, if ec = Ec_ok then c else client_handle_error ''Write'' ec c)"

section \<open>Connecting and closing\<close>

text \<open>
  \<open>connect\<close>: an address that does not parse is reported and nothing more happens, not even a call of
  the caller's handler; otherwise the connection is awaited (\<open>True\<close>). When it comes, the handler
  runs first.
\<close>

definition client_connect :: "client_env \<Rightarrow> string \<Rightarrow> client \<Rightarrow> client \<times> bool" where
  "client_connect C host c =
     (let ec = ce_make_address C host
      in if ec \<noteq> Ec_ok then (client_handle_error ''make_address'' ec c, False) else (c, True))"

definition client_connected ::
    "(error_code \<Rightarrow> client \<Rightarrow> client) \<Rightarrow> string \<Rightarrow> error_code \<Rightarrow> client \<Rightarrow> client" where
  "client_connected handler endpoint ec c =
     (let c' = handler ec c
      in if ec = Ec_ok then
           (client_print (''[System] Successfully initiated connection to '' @ endpoint) c')
             \<lparr>cl_reader := reader_start\<rparr>
         else client_handle_error ''connect'' ec c')"

definition client_close :: "client \<Rightarrow> client" where
  "client_close c = c\<lparr>cl_open := False, cl_work := False\<rparr>"

text \<open>A clock and a resolver to run the client with.\<close>

definition ref_client_env :: client_env where
  "ref_client_env = \<lparr>ce_time = (\<lambda>_. ''now''), ce_value = (\<lambda>_. 0), ce_make_address = (\<lambda>_. Ec_ok)\<rparr>"

end
