(* ===== verification/Std_Text.thy ===== *)
theory Std_Text
  imports Chat_Prelude
begin

text \<open>
  Reading numbers from text, as the C and C++ libraries do it for the program: \<open>std::stoi\<close> for
  command line arguments and \<open>sscanf\<close> for dates, both over the subject sequence of \<open>strtol\<close>, with
  the lemmas that reading undoes \<open>std::to_string\<close>. A value that does not fit an \<open>int\<close> makes
  \<open>stoi\<close> throw and is undefined behaviour in \<open>sscanf\<close>.
\<close>

section \<open>Characters\<close>

text \<open>\<open>std::isspace\<close> in the classic locale.\<close>

definition blank :: "char \<Rightarrow> bool" where
  "blank x \<longleftrightarrow> x \<in> {CHR '' '', CHR 0x09, CHR 0x0A, CHR 0x0B, CHR 0x0C, CHR 0x0D}"

definition is_digit :: "char \<Rightarrow> bool" where
  "is_digit x \<longleftrightarrow> 48 \<le> (of_char x :: nat) \<and> (of_char x :: nat) < 58"

definition digit_value :: "char \<Rightarrow> nat" where
  "digit_value x = of_char x - 48"

definition digits_value :: "string \<Rightarrow> nat" where
  "digits_value = foldl (\<lambda>n x. 10 * n + digit_value x) 0"

definition int_range :: "int \<Rightarrow> bool" where
  "int_range n \<longleftrightarrow> - (2 ^ 31) \<le> n \<and> n < 2 ^ 31"

section \<open>Integers\<close>

text \<open>Blanks, a sign, digits: the value and the rest of the text, or nothing when no digit comes.\<close>

definition scan_int :: "string \<Rightarrow> (int \<times> string) option" where
  "scan_int s =
     (let s1 = dropWhile blank s;
          negative = (take 1 s1 = ''-'');
          s2 = (if negative \<or> take 1 s1 = ''+'' then tl s1 else s1);
          ds = takeWhile is_digit s2;
          n = int (digits_value ds)
      in if ds = [] then None else Some (if negative then - n else n, dropWhile is_digit s2))"

definition stoi :: "string \<Rightarrow> exn + int32" where
  "stoi s =
     (case scan_int s of
        None \<Rightarrow> Inl (Std_exception ''invalid_argument'')
      | Some (n, _) \<Rightarrow>
          if int_range n then Inr (word_of_int n) else Inl (Std_exception ''out_of_range''))"

text \<open>
  \<open>sscanf\<close> with the directives the program uses: \<open>%d\<close>, an ordinary character, a blank (which
  skips any run of blanks). The result lists the values stored; None is undefined behaviour.
\<close>

datatype directive = Dir_int | Dir_char char | Dir_blank

fun sscanf :: "directive list \<Rightarrow> string \<Rightarrow> int list option" where
  "sscanf [] s = Some []"
| "sscanf (Dir_int # ds) s =
     (case scan_int s of
        None \<Rightarrow> Some []
      | Some (n, rest) \<Rightarrow> if int_range n then map_option ((#) n) (sscanf ds rest) else None)"
| "sscanf (Dir_char x # ds) s = (if take 1 s = [x] then sscanf ds (tl s) else Some [])"
| "sscanf (Dir_blank # ds) s = sscanf ds (dropWhile blank s)"

section \<open>Reading what was printed\<close>

lemma digit_char:
  "n < 10 \<Longrightarrow> is_digit (char_of (48 + n))" "n < 10 \<Longrightarrow> digit_value (char_of (48 + n)) = n"
  by (simp_all add: is_digit_def digit_value_def of_char_of)

lemma digit_not_sign [simp]:
  "is_digit x \<Longrightarrow> \<not> blank x" "is_digit x \<Longrightarrow> x \<noteq> CHR ''-''" "is_digit x \<Longrightarrow> x \<noteq> CHR ''+''"
  by (auto simp: is_digit_def blank_def)

lemma digits_value_snoc: "digits_value (xs @ [x]) = 10 * digits_value xs + digit_value x"
  by (simp add: digits_value_def)

lemma digits_value_zeros: "digits_value (replicate k (CHR ''0'') @ xs) = digits_value xs"
  by (induction k) (simp_all add: digits_value_def digit_value_def)

lemma nat_digits_all: "list_all is_digit (nat_digits n)"
proof (induction n rule: nat_digits.induct)
  case (1 n)
  then show ?case by (subst nat_digits.simps) (simp add: digit_char del: of_nat_add)
qed

lemma nat_digits_value: "digits_value (nat_digits n) = n"
proof (induction n rule: nat_digits.induct)
  case (1 n)
  have "digits_value [char_of (48 + n)] = n" if "n < 10"
    using that digit_char(2) [of n] by (simp add: digits_value_def)
  moreover have "digits_value (nat_digits n) = 10 * (n div 10) + n mod 10" if "\<not> n < 10"
    using 1 [OF that] that digit_char(2) [of "n mod 10"]
    by (subst nat_digits.simps) (simp add: digits_value_snoc)
  ultimately show ?case by (cases "n < 10") (simp_all add: nat_digits.simps [of n])
qed

text \<open>A run of digits is read as its value, up to the first character that is none.\<close>

lemma scan_digits:
  assumes "list_all is_digit ds" "ds \<noteq> []" "list_all blank b"
    and "rest \<noteq> [] \<Longrightarrow> \<not> is_digit (hd rest)"
  shows "scan_int (b @ ds @ rest) = Some (int (digits_value ds), rest)"
    and "scan_int (b @ CHR ''-'' # ds @ rest) = Some (- int (digits_value ds), rest)"
proof -
  obtain x xs where ds: "ds = x # xs" "is_digit x" using assms(1,2) by (cases ds) auto
  have split: "takeWhile is_digit (ds @ rest) = ds" "dropWhile is_digit (ds @ rest) = rest"
    using assms(1,4) by (cases rest; simp add: list_all_iff takeWhile_append2 dropWhile_append2)+
  have "dropWhile blank (b @ ds @ rest) = ds @ rest"
    "dropWhile blank (b @ CHR ''-'' # ds @ rest) = CHR ''-'' # ds @ rest"
    using assms(3) ds by (simp_all add: list_all_iff dropWhile_append2 blank_def [of "CHR ''-''"])
  then show "scan_int (b @ ds @ rest) = Some (int (digits_value ds), rest)"
    and "scan_int (b @ CHR ''-'' # ds @ rest) = Some (- int (digits_value ds), rest)"
    using split ds assms(2) by (auto simp: scan_int_def Let_def)
qed

text \<open>Numbers padded with zeros, as dates have them.\<close>

definition padded :: "nat \<Rightarrow> nat \<Rightarrow> string" where
  "padded w n = replicate (w - length (nat_digits n)) (CHR ''0'') @ nat_digits n"

lemma scan_padded:
  assumes "rest \<noteq> [] \<Longrightarrow> \<not> is_digit (hd rest)"
  shows "scan_int (padded w n @ rest) = Some (int n, rest)"
proof -
  have "list_all is_digit (padded w n)" "padded w n \<noteq> []"
    using nat_digits_all [of n] by (auto simp: padded_def list_all_iff is_digit_def)
  from scan_digits(1) [OF this, of "[]" rest] assms show ?thesis
    by (simp add: padded_def digits_value_zeros nat_digits_value)
qed

lemma stoi_to_string:
  "stoi (nat_digits n) = (if int_range (int n) then Inr (of_nat n)
     else Inl (Std_exception ''out_of_range''))"
  using scan_padded [of "[]" 0 n] by (simp add: padded_def stoi_def)

end
