(* ===== verification/Client_Input.thy ===== *)
theory Client_Input
  imports Client Std_Text
begin

text \<open>
  \<open>client/src/main.cpp\<close>: the commands a user types. \<open>handle_user_input\<close> turns each line into an
  envelope; the current room is read from the client at that moment. The two standard tools it
  uses are written out: the extraction of a word from a \<open>std::stringstream\<close>, and the regular
  expression for private messages, whose matcher is proved to be the regular expression.
\<close>

section \<open>Standard library\<close>

text \<open>The line terminators that \<open>.\<close> does not match.\<close>

definition line_end :: "char \<Rightarrow> bool" where
  "line_end x \<longleftrightarrow> x \<in> {CHR 0x0A, CHR 0x0D}"

text \<open>
  \<open>ss >> word\<close>: blanks are skipped, then everything up to the next blank is taken; when nothing is
  left, the word is empty and the stream is at its end.
\<close>

definition extract_word :: "string \<Rightarrow> string \<times> string" where
  "extract_word s =
     (let s' = dropWhile blank s in (takeWhile (\<lambda>x. \<not> blank x) s', dropWhile (\<lambda>x. \<not> blank x) s'))"

text \<open>
  \<open>std::regex_match\<close> with \<open>^@(\S+)\s+(.+)\<close>: the first group is all up to the first blank, the blanks
  after it are taken greedily, and one is given back when nothing else is left for the last group.
\<close>

definition match_private :: "string \<Rightarrow> (string \<times> string) option" where
  "match_private line =
     (case line of
        [] \<Rightarrow> None
      | x # rest \<Rightarrow>
          (let u = takeWhile (\<lambda>x. \<not> blank x) rest;
               r = dropWhile (\<lambda>x. \<not> blank x) rest;
               w = takeWhile blank r;
               c = dropWhile blank r
           in if x \<noteq> CHR ''@'' \<or> u = [] \<or> w = [] then None
              else if c \<noteq> [] then (if list_ex line_end c then None else Some (u, c))
              else if 1 < length w \<and> \<not> line_end (last w) then Some (u, [last w])
              else None))"

section \<open>Lines\<close>

datatype input_action = Send_envelope envelope | Print_line string | Quit | Skip

definition handle_line :: "string \<Rightarrow> string \<Rightarrow> input_action" where
  "handle_line currentRoom line =
     (if line = [] then Skip
      else if line = ''/quit'' then Quit
      else if prefix ''/register '' line then
        (let (cmd, s1) = extract_word line; (user, s2) = extract_word s1; (pass, s3) = extract_word s2
         in if user = [] \<or> pass = []
            then Print_line ''[System] Usage: /register <username> <password>''
            else Send_envelope (envelope_with (RegistrationRequest
              \<lparr>gq_username = user, gq_password = pass\<rparr>)))
      else if prefix ''/login '' line then
        (let (cmd, s1) = extract_word line; (user, s2) = extract_word s1; (pass, s3) = extract_word s2
         in Send_envelope (envelope_with (LoginRequest \<lparr>lq_username = user, lq_password = pass\<rparr>)))
      else if prefix ''/create '' line then
        Send_envelope (envelope_with (RoomOperationRequest
          \<lparr>oq_operation = CREATE, oq_room_name = drop 8 line\<rparr>))
      else if prefix ''/join '' line then
        Send_envelope (envelope_with (RoomOperationRequest
          \<lparr>oq_operation = JOIN, oq_room_name = drop 6 line\<rparr>))
      else if line = ''/leave'' then
        (if currentRoom = [] then Print_line ''[System] You are not in any room to leave.''
         else Send_envelope (envelope_with (RoomOperationRequest
           \<lparr>oq_operation = LEAVE, oq_room_name = currentRoom\<rparr>)))
      else
        (case match_private line of
           Some (user, content) \<Rightarrow> Send_envelope (envelope_with (PrivateMessageRequest
             \<lparr>vq_to_username = user, vq_content = content\<rparr>))
         | None \<Rightarrow> Send_envelope (envelope_with (PublicMessage \<lparr>pm_content = line\<rparr>))))"

text \<open>The loop; the second component says whether the user quit (the client is then closed).\<close>

fun handle_user_input :: "string list \<Rightarrow> client \<Rightarrow> client \<times> bool" where
  "handle_user_input [] c = (client_print ''[System] Input thread finished.'' c, False)"
| "handle_user_input (line # lines) c =
     (case handle_line (getCurrentRoom c) line of
        Skip \<Rightarrow> handle_user_input lines c
      | Quit \<Rightarrow> (client_print ''[System] Input thread finished.'' (client_close c), True)
      | Print_line text \<Rightarrow> handle_user_input lines (client_print text c)
      | Send_envelope e \<Rightarrow> handle_user_input lines (client_send e c))"

text \<open>The handler \<open>main\<close> passes to \<open>connect\<close>; \<open>ec.message()\<close> goes to \<open>std::cerr\<close>.\<close>

definition main_connected :: "error_code \<Rightarrow> client \<Rightarrow> client" where
  "main_connected ec c =
     (if ec = Ec_ok then client_print ''[System] Connection established. You can start chatting.'' c
      else client_close c)"

section \<open>The regular expression\<close>

text \<open>
  The matches of the pattern, as its definition has them: \<open>@\<close>, characters that are no blanks,
  blanks, and characters that end no line, each at least one.
\<close>

definition private_match :: "string \<Rightarrow> string \<Rightarrow> string \<Rightarrow> string \<Rightarrow> bool" where
  "private_match line u w c \<longleftrightarrow>
     line = CHR ''@'' # u @ w @ c \<and> u \<noteq> [] \<and> list_all (\<lambda>x. \<not> blank x) u \<and>
     w \<noteq> [] \<and> list_all blank w \<and> c \<noteq> [] \<and> list_all (\<lambda>x. \<not> line_end x) c"

lemma private_match_parts:
  assumes "private_match line u w c"
  defines "rest \<equiv> tl line"
  shows "takeWhile (\<lambda>x. \<not> blank x) rest = u" "dropWhile (\<lambda>x. \<not> blank x) rest = w @ c"
    "takeWhile blank (w @ c) = w @ takeWhile blank c" "dropWhile blank (w @ c) = dropWhile blank c"
proof -
  from assms have r: "rest = u @ w @ c" "\<And>x. x \<in> set u \<Longrightarrow> \<not> blank x" "\<And>x. x \<in> set w \<Longrightarrow> blank x" "w \<noteq> []"
    by (auto simp: private_match_def list_all_iff)
  then obtain y ys where "w = y # ys" "blank y" by (cases w) auto
  with r show "takeWhile (\<lambda>x. \<not> blank x) rest = u" "dropWhile (\<lambda>x. \<not> blank x) rest = w @ c"
    by (auto simp: takeWhile_append dropWhile_append)
  show "takeWhile blank (w @ c) = w @ takeWhile blank c" "dropWhile blank (w @ c) = dropWhile blank c"
    using r(3) by (auto simp: takeWhile_append dropWhile_append)
qed

lemma match_private_complete:
  assumes "private_match line u w c"
  shows "match_private line \<noteq> None"
proof -
  note p = private_match_parts [OF assms]
  obtain rest where line: "line = CHR ''@'' # rest" "tl line = rest" "u \<noteq> []" "w \<noteq> []" "c \<noteq> []"
    and c: "\<And>x. x \<in> set c \<Longrightarrow> \<not> line_end x"
    using assms by (auto simp: private_match_def list_all_iff)
  show ?thesis
  proof (cases "dropWhile blank c = []")
    case False
    moreover have "\<not> list_ex line_end (dropWhile blank c)"
      using c by (auto simp: list_ex_iff dest: set_dropWhileD)
    ultimately show ?thesis using p line by (simp add: match_private_def Let_def)
  next
    case True
    then have t: "takeWhile blank c = c" by (metis append_Nil2 takeWhile_dropWhile_id)
    have "\<not> line_end (last c)" "1 < length (w @ c)" using c line(4,5) by (cases w; cases c; simp)+
    with True p line show ?thesis by (simp add: match_private_def Let_def t)
  qed
qed

lemma match_private_greedy:
  assumes "match_private line = Some (u, c)"
  shows "\<exists>w. private_match line u w c \<and>
    (\<forall>u' w' c'. private_match line u' w' c' \<longrightarrow> u' = u \<and> length w' \<le> length w)"
proof -
  from assms obtain rest where line: "line = CHR ''@'' # rest"
    by (auto simp: match_private_def Let_def split: list.splits if_splits)
  define U r where "U = takeWhile (\<lambda>x. \<not> blank x) rest" and "r = dropWhile (\<lambda>x. \<not> blank x) rest"
  define W D where "W = takeWhile blank r" and "D = dropWhile blank r"
  have rest: "rest = U @ r" "r = W @ D" by (simp_all add: U_def r_def W_def D_def)
  have sets: "list_all (\<lambda>x. \<not> blank x) U" "list_all blank W"
    by (auto simp: U_def W_def list_all_iff dest: set_takeWhileD)
  have "match_private line =
    (if U = [] \<or> W = [] then None
     else if D \<noteq> [] then (if list_ex line_end D then None else Some (U, D))
     else if 1 < length W \<and> \<not> line_end (last W) then Some (U, [last W]) else None)"
    by (simp only: match_private_def line list.case Let_def U_def r_def W_def D_def simp_thms)
  with assms have m: "u = U" "U \<noteq> []" "W \<noteq> []"
    "(D \<noteq> [] \<and> \<not> list_ex line_end D \<and> c = D) \<or>
     (D = [] \<and> 1 < length W \<and> \<not> line_end (last W) \<and> c = [last W])"
    by (simp_all split: if_splits)
  have other: "u' = U \<and> w' @ c' = r \<and> c' \<noteq> [] \<and> length w' \<le> length W"
    if "private_match line u' w' c'" for u' w' c'
  proof -
    from private_match_parts [OF that] have "u' = U" "r = w' @ c'" "W = w' @ takeWhile blank c'"
      by (simp_all add: line U_def r_def W_def)
    with that show ?thesis by (simp add: private_match_def)
  qed
  from m(4) show ?thesis
  proof (elim disjE conjE)
    assume d: "D \<noteq> []" "\<not> list_ex line_end D" "c = D"
    have "private_match line u W c"
      using d m(1-3) sets rest line by (simp add: private_match_def list_all_iff list_ex_iff)
    with other m(1) show ?thesis by blast
  next
    assume d: "D = []" "1 < length W" "\<not> line_end (last W)" "c = [last W]"
    have "line = CHR ''@'' # u @ butlast W @ c"
      by (simp add: line rest(1) m(1) rest(2) d(1,4) m(3))
    moreover have "list_all blank (butlast W)"
      using sets(2) by (auto simp: list_all_iff dest: in_set_butlastD)
    moreover have "butlast W \<noteq> []" using d(2) by (metis One_nat_def diff_is_0_eq length_butlast list.size(3) not_less)
    ultimately have "private_match line u (butlast W) c"
      unfolding private_match_def using d(3,4) m(1,2) sets(1) by simp
    moreover have "length w' \<le> length (butlast W)" if "private_match line u' w' c'" for u' w' c'
    proof -
      from other [OF that] d(1) rest(2) have "w' @ c' = W" "c' \<noteq> []" by simp_all
      then have "length w' < length W" by (metis length_append length_greater_0_conv less_add_same_cancel1)
      then show ?thesis by simp
    qed
    ultimately show ?thesis using other m(1) by blast
  qed
qed

text \<open>C32. The matcher for private messages is the regular expression. It finds a match exactly when
  the line has one, and then it is the greedy one: the match whose run of blanks is the longest
  that leaves something for the content.\<close>

theorem private_pattern_matched:
  "(match_private line = None \<longleftrightarrow> (\<forall>u w c. \<not> private_match line u w c)) \<and>
   (\<forall>u c. match_private line = Some (u, c) \<longrightarrow>
      (\<exists>w. private_match line u w c \<and>
         (\<forall>u' w' c'. private_match line u' w' c' \<longrightarrow> u' = u \<and> length w' \<le> length w)))"
  using match_private_complete match_private_greedy by (metis not_Some_eq surj_pair)

lemma private_pattern_matched_witness:
  "\<exists>w. private_match ''@bob  hi there'' ''bob'' w ''hi there'' \<and> w = ''  ''"
proof -
  have m: "match_private ''@bob  hi there'' = Some (''bob'', ''hi there'')"
    by (simp add: match_private_def blank_def line_end_def)
  from private_pattern_matched [of "''@bob  hi there''", THEN conjunct2, rule_format, OF m]
  show ?thesis by (auto simp: private_match_def)
qed

text \<open>Words, as the commands take them.\<close>

definition word :: "string \<Rightarrow> bool" where
  "word u \<longleftrightarrow> u \<noteq> [] \<and> list_all (\<lambda>x. \<not> blank x) u"

lemma extract_word_run:
  assumes "list_all blank b" "word u" "list_all blank b'" "b' = [] \<longrightarrow> rest = []" 
  shows "extract_word (b @ u @ b' @ rest) = (u, b' @ rest)"
proof -
  have b: "\<And>x. x \<in> set b \<Longrightarrow> blank x" and u: "\<And>x. x \<in> set u \<Longrightarrow> \<not> blank x" "u \<noteq> []"
    and b': "\<And>x. x \<in> set b' \<Longrightarrow> blank x" using assms by (auto simp: list_all_iff word_def)
  then obtain x xs where x: "u = x # xs" "\<not> blank x" by (cases u) auto
  have "dropWhile blank (b @ u @ b' @ rest) = u @ b' @ rest"
    using b x by (simp add: dropWhile_append2)
  moreover have "takeWhile (\<lambda>x. \<not> blank x) (u @ b' @ rest) = u"
    "dropWhile (\<lambda>x. \<not> blank x) (u @ b' @ rest) = b' @ rest"
    using u b' assms(4) by (cases b'; auto simp: takeWhile_append2 dropWhile_append2)+
  ultimately show ?thesis by (simp add: extract_word_def)
qed

lemma extract_last_word:
  assumes "list_all blank b" "word u" "list_all blank b'"
  shows "fst (extract_word (b @ u @ b')) = u"
  using extract_word_run [of b u b' "[]"] assms by simp

lemma typed_words:
  assumes "word user" "word pass" "list_all blank b" "list_all blank b'" "b' \<noteq> []" "list_all blank b''"
  shows "handle_line room (''/login '' @ b @ user @ b' @ pass @ b'') =
      Send_envelope (envelope_with (LoginRequest \<lparr>lq_username = user, lq_password = pass\<rparr>))"
    and "handle_line room (''/register '' @ b @ user @ b' @ pass @ b'') =
      Send_envelope (envelope_with (RegistrationRequest \<lparr>gq_username = user, gq_password = pass\<rparr>))"
proof -
  have cmd: "word ''/login''" "word ''/register''" by (simp_all add: word_def blank_def)
  have words: "extract_word (c @ '' '' @ b @ user @ b' @ pass @ b'') = (c, '' '' @ b @ user @ b' @ pass @ b'')"
    "extract_word ('' '' @ b @ user @ b' @ pass @ b'') = (user, b' @ pass @ b'')" if "word c" for c
    using extract_word_run [of "[]" c "'' ''" "b @ user @ b' @ pass @ b''"]
      extract_word_run [of "'' '' @ b" user b' "pass @ b''"] assms that by (simp_all add: blank_def)
  obtain s3 where last: "extract_word (b' @ pass @ b'') = (pass, s3)"
    using extract_last_word [of b' pass b''] assms by (metis prod.collapse)
  show "handle_line room (''/login '' @ b @ user @ b' @ pass @ b'') =
      Send_envelope (envelope_with (LoginRequest \<lparr>lq_username = user, lq_password = pass\<rparr>))"
    using words(1) [OF cmd(1)] words(2) [OF cmd(1)] last
    by (subst handle_line_def) simp
  show "handle_line room (''/register '' @ b @ user @ b' @ pass @ b'') =
      Send_envelope (envelope_with (RegistrationRequest \<lparr>gq_username = user, gq_password = pass\<rparr>))"
    using words(1) [OF cmd(2)] words(2) [OF cmd(2)] last assms(1,2)
    by (subst handle_line_def) (simp add: word_def)
qed

text \<open>C33. What the user types is what is asked for. The two commands with words send exactly the words,
  whatever blanks separate or follow them; a room name is the rest of the line; leaving names the
  client's current room; and a line that starts with neither \<open>/\<close> nor \<open>@\<close> is said publicly as it
  is.\<close>

theorem typed_commands:
  assumes "word user" "word pass" "list_all blank b" "list_all blank b'" "b' \<noteq> []" "list_all blank b''"
    and "text = x # xs" "x \<notin> {CHR ''/'', CHR ''@''}" "room \<noteq> []"
  shows "handle_line room (''/login '' @ b @ user @ b' @ pass @ b'') =
      Send_envelope (envelope_with (LoginRequest \<lparr>lq_username = user, lq_password = pass\<rparr>)) \<and>
    handle_line room (''/register '' @ b @ user @ b' @ pass @ b'') =
      Send_envelope (envelope_with (RegistrationRequest \<lparr>gq_username = user, gq_password = pass\<rparr>)) \<and>
    handle_line room (''/create '' @ name) = Send_envelope (envelope_with
      (RoomOperationRequest \<lparr>oq_operation = CREATE, oq_room_name = name\<rparr>)) \<and>
    handle_line room (''/join '' @ name) = Send_envelope (envelope_with
      (RoomOperationRequest \<lparr>oq_operation = JOIN, oq_room_name = name\<rparr>)) \<and>
    handle_line room ''/leave'' = Send_envelope (envelope_with
      (RoomOperationRequest \<lparr>oq_operation = LEAVE, oq_room_name = room\<rparr>)) \<and>
    handle_line room text = Send_envelope (envelope_with (PublicMessage \<lparr>pm_content = text\<rparr>))"
proof -
  have "handle_line room text = Send_envelope (envelope_with (PublicMessage \<lparr>pm_content = text\<rparr>))"
    using assms(7,8) by (auto simp: handle_line_def match_private_def)
  moreover have "handle_line room (''/create '' @ name) = Send_envelope (envelope_with
      (RoomOperationRequest \<lparr>oq_operation = CREATE, oq_room_name = name\<rparr>))"
    "handle_line room (''/join '' @ name) = Send_envelope (envelope_with
      (RoomOperationRequest \<lparr>oq_operation = JOIN, oq_room_name = name\<rparr>))"
    "handle_line room ''/leave'' = Send_envelope (envelope_with
      (RoomOperationRequest \<lparr>oq_operation = LEAVE, oq_room_name = room\<rparr>))"
    using assms(9) by (simp_all add: handle_line_def)
  ultimately show ?thesis using typed_words [OF assms(1-6)] by blast
qed

lemma typed_commands_witness:
  "handle_line ''lobby'' ''/login  ann sesame '' =
     Send_envelope (envelope_with (LoginRequest \<lparr>lq_username = ''ann'', lq_password = ''sesame''\<rparr>)) \<and>
   handle_line ''lobby'' ''/leave'' = Send_envelope (envelope_with
     (RoomOperationRequest \<lparr>oq_operation = LEAVE, oq_room_name = ''lobby''\<rparr>)) \<and>
   handle_line ''lobby'' ''hi all'' = Send_envelope (envelope_with (PublicMessage \<lparr>pm_content = ''hi all''\<rparr>))"
  using typed_commands [of "''ann''" "''sesame''" "'' ''" "'' ''" "'' ''" "''hi all''" _ "''i all''" "''lobby''"]
  by (simp add: word_def blank_def)

end
