(* ===== verification/Chat_System.thy ===== *)
theory Chat_System
  imports Server_Properties Client_Input
begin

text \<open>
  Client and server together: what the one posts for writing reaches the other's message handler,
  over the two write queues, the wire and the two read loops; and the room a client takes itself
  to be in is the room the server has it in.
\<close>

section \<open>Whole streams\<close>

definition client_bytes ::
    "client_env \<Rightarrow> endian \<Rightarrow> (byte list \<Rightarrow> envelope option) \<Rightarrow> byte list \<Rightarrow> client \<Rightarrow> client" where
  "client_bytes C en parse bs = fold (client_byte C en parse) bs"

fun session_bytes ::
    "endian \<Rightarrow> (byte list \<Rightarrow> envelope option) \<Rightarrow> sid \<Rightarrow> byte list \<Rightarrow>
     (('db, 'z) server_state_scheme, unit) comp" where
  "session_bytes en parse i [] = creturn ()"
| "session_bytes en parse i (b # bs) = cthen (session_byte en parse i b) (session_bytes en parse i bs)"

lemma client_print_reader [simp]:
  "client_print l (c\<lparr>cl_reader := r\<rparr>) = (client_print l c)\<lparr>cl_reader := r\<rparr>"
  by (simp add: client_print_def)

lemma fold_print_reader:
  "fold (\<lambda>m. client_print (f m)) ms (c\<lparr>cl_reader := r\<rparr>) =
     (fold (\<lambda>m. client_print (f m)) ms c)\<lparr>cl_reader := r\<rparr>"
  by (induction ms arbitrary: c) simp_all

lemma room_reply_reader [simp]:
  "room_reply resp (c\<lparr>cl_reader := r\<rparr>) = (room_reply resp c)\<lparr>cl_reader := r\<rparr>"
  by (simp add: room_reply_def client_send_def setCurrentRoom_def)

lemma handle_message_reader [simp]:
  "handle_server_message C e (c\<lparr>cl_reader := r\<rparr>) = (handle_server_message C e c)\<lparr>cl_reader := r\<rparr>"
  by (simp add: handle_server_message_def fold_print_reader split: option.split payload.split)

lemma client_event_reader [simp]:
  "client_event C ev (c\<lparr>cl_reader := r\<rparr>) = (client_event C ev c)\<lparr>cl_reader := r\<rparr>"
  by (cases ev) (simp_all add: client_handle_error_def)

lemma client_events_reader [simp]:
  "fold (client_event C) evs (c\<lparr>cl_reader := r\<rparr>) = (fold (client_event C) evs c)\<lparr>cl_reader := r\<rparr>"
  by (induction evs arbitrary: c) simp_all

text \<open>The two read loops, over a whole stream.\<close>

lemma client_bytes_run:
  assumes "read_bytes (client_header_complete en) (client_body_complete parse) (cl_reader c) bs = (r, evs)"
  shows "client_bytes C en parse bs c = (fold (client_event C) evs c)\<lparr>cl_reader := r\<rparr>"
  using assms
proof (induction bs arbitrary: c evs)
  case (Cons b bs)
  let ?h = "client_header_complete en" and ?d = "client_body_complete parse"
  obtain r1 e1 r2 e2 where 1: "read_byte ?h ?d (cl_reader c) b = (r1, e1)"
    and 2: "read_bytes ?h ?d r1 bs = (r2, e2)" by (metis prod.exhaust)
  have e: "r2 = r" "evs = e1 @ e2" using Cons.prems 1 2 by simp_all
  have "client_bytes C en parse (b # bs) c =
      client_bytes C en parse bs ((fold (client_event C) e1 c)\<lparr>cl_reader := r1\<rparr>)"
    by (simp add: client_bytes_def client_byte_def 1)
  also have "\<dots> = (fold (client_event C) e2 (fold (client_event C) e1 c))\<lparr>cl_reader := r\<rparr>"
    using Cons.IH [of "(fold (client_event C) e1 c)\<lparr>cl_reader := r1\<rparr>"] 2 e(1) by simp
  finally show ?case by (simp add: e(2))
qed (simp add: client_bytes_def)

lemma session_deliveries_run:
  assumes "registry_ok s"
  shows "session_events i (map Deliver es) s =
    (Ret (), s\<lparr>sv_tasks := sv_tasks s @ map (Dispatch_task i) es\<rparr>)"
  using assms
proof (induction es arbitrary: s)
  case (Cons e es)
  let ?t = "s\<lparr>sv_tasks := sv_tasks s @ [Dispatch_task i e]\<rparr>"
  have "onMessage i e s = (Ret (), ?t)" by (simp add: onMessage_run [OF Cons.prems] post_def)
  moreover have "registry_ok ?t" using Cons.prems by (simp add: registry_ok_def)
  ultimately show ?case using Cons.IH [of ?t] by (simp add: cthen_apply)
qed simp

lemma session_bytes_run:
  assumes "registry_ok s"
    and "read_bytes (header_complete en) (body_complete parse) (sv_reader s i) bs = (r, map Deliver es)"
  shows "session_bytes en parse i bs s = (Ret (), s\<lparr>sv_reader := (sv_reader s)(i := r),
    sv_tasks := sv_tasks s @ map (Dispatch_task i) es\<rparr>)"
  using assms
proof (induction bs arbitrary: s es)
  case (Cons b bs)
  let ?h = "header_complete en" and ?d = "body_complete parse"
  obtain r1 e1 r2 e2 where 1: "read_byte ?h ?d (sv_reader s i) b = (r1, e1)"
    and 2: "read_bytes ?h ?d r1 bs = (r2, e2)" by (metis prod.exhaust)
  with Cons.prems(2) have "r2 = r" "e1 @ e2 = map Deliver es" by simp_all
  then obtain es1 es2 where es: "es = es1 @ es2" "e1 = map Deliver es1" "e2 = map Deliver es2"
    by (auto simp: append_eq_map_conv)
  let ?u = "s\<lparr>sv_reader := (sv_reader s)(i := r1)\<rparr>"
  let ?t = "?u\<lparr>sv_tasks := sv_tasks s @ map (Dispatch_task i) es1\<rparr>"
  have reg: "registry_ok ?u" "registry_ok ?t" using Cons.prems(1) by (simp_all add: registry_ok_def)
  have "session_byte en parse i b s = (Ret (), ?t)"
    using session_deliveries_run [OF reg(1), of i es1] 1 es(2) by (simp add: session_byte_def cthen_cmodify)
  moreover have "(sv_reader ?t)(i := r) = (sv_reader s)(i := r)" by (rule ext) simp
  moreover have "session_bytes en parse i bs ?t = (Ret (), ?t\<lparr>sv_reader := (sv_reader ?t)(i := r),
      sv_tasks := sv_tasks ?t @ map (Dispatch_task i) es2\<rparr>)"
    by (rule Cons.IH [OF reg(2)]) (use 2 es(3) \<open>r2 = r\<close> in simp)
  ultimately have "session_bytes en parse i bs ?t = (Ret (), s\<lparr>sv_reader := (sv_reader s)(i := r),
      sv_tasks := (sv_tasks s @ map (Dispatch_task i) es1) @ map (Dispatch_task i) es2\<rparr>)"
    and "session_byte en parse i b s = (Ret (), ?t)" by simp_all
  then show ?case by (simp only: session_bytes.simps cthen_apply es(1) map_append append_assoc)
qed (simp add: fun_upd_idem)

section \<open>From end to end\<close>

lemma client_frame_eq: "client_frame = frame"
  by (simp add: fun_eq_iff client_frame_def frame_def Let_def)

text \<open>What a writer has put on the wire, read by a reader: the first few envelopes.\<close>

lemma delivered_prefix:
  assumes run: "wq_run snd_op done_op (map (\<lambda>e. frame en_s (serialize e)) es) q"
    and writer: "frame_writer snd_op done_op" and reader: "frame_reader h d parse"
    and good: "\<forall>e \<in> set es. parse (serialize e) = Some e \<and> 0 < length (serialize e) \<and>
      length (serialize e) < 8192"
  shows "\<exists>k. snd (read_bytes h d reader_start (wire_bytes q)) = map Deliver (take k es) \<and>
    (length (wq_wire q) = length es \<longrightarrow>
       take k es = es \<and> fst (read_bytes h d reader_start (wire_bytes q)) = reader_start)"
proof -
  let ?bodies = "map serialize es"
  have frames: "map (\<lambda>e. frame en_s (serialize e)) es = map (frame en_s) ?bodies" by simp
  have ok: "b \<noteq> [] \<and> length b < unat max_body_length \<and> parse b = Some ((the \<circ> parse) b)"
    if "b \<in> set ?bodies" for b using that good by (auto simp: max_body_length_def)
  have parsed: "map (\<lambda>b. Deliver ((the \<circ> parse) b)) (map serialize xs) = map Deliver xs"
    if "set xs \<subseteq> set es" for xs using that good by auto
  obtain missing where m: "wire_bytes q @ missing = concat (map (frame en_s) ?bodies)"
    using frame_writer.run_wire_prefix [OF writer run] by (auto simp: frames prefix_def)
  from frame_reader.prefix_delivers_prefix [OF reader ok m] obtain k where
    "snd (read_bytes h d reader_start (wire_bytes q)) = map (\<lambda>b. Deliver ((the \<circ> parse) b)) (take k ?bodies)"
    by blast
  then have k: "snd (read_bytes h d reader_start (wire_bytes q)) = map Deliver (take k es)"
    using parsed [of "take k es"] by (simp add: take_map set_take_subset)
  moreover have "read_bytes h d reader_start (wire_bytes q) = (reader_start, map Deliver es)"
    if all: "length (wq_wire q) = length es"
  proof -
    have inv: "wq_inv (map (frame en_s) ?bodies) q" using frame_writer.run_inv [OF writer run] by (simp only: frames)
    then have "wq_wire q @ wq_queue q = map (frame en_s) ?bodies" by (simp add: wq_inv_def)
    moreover from this have "wq_queue q = []" using all by (metis append_eq_conv_conj append_Nil2 length_map)
    ultimately have "wq_wire q = map (frame en_s) ?bodies" "wq_broken q = None"
      using inv by (auto simp: wq_inv_def split: option.splits)
    then have "wire_bytes q = concat (map (frame en_s) ?bodies)" by (simp add: wire_bytes_def)
    with frame_reader.read_frames [OF reader ok, of ?bodies en_s] parsed [of es] show ?thesis by simp
  qed
  moreover have "xs = ys" if "map Deliver xs = map Deliver ys" for xs ys :: "'a list"
    using that by (simp add: inj_map_eq_map inj_def)
  ultimately show ?thesis using k by (metis fst_conv snd_conv)
qed

section \<open>Properties\<close>

text \<open>C34. From client to server. Whatever writes complete, fail or are still outstanding on a client's
  connection, and however far its bytes have come, the server's read loop of that connection has
  posted a task for the first few envelopes the client sent, each one whole, in order, for that
  session and no other, and nothing else has changed; once all writes have completed, for all of
  them, and it waits for the next header. (Envelopes that serialise to 1 to 8191 bytes.)\<close>

theorem client_to_server:
  assumes "wq_run client_post_send client_handle_write
      (map (\<lambda>e. client_frame en_c (serialize e)) es) q"
    and "\<And>e. e \<in> set es \<Longrightarrow> parse (serialize e) = Some e"
    and "\<And>e. e \<in> set es \<Longrightarrow> 0 < length (serialize e) \<and> length (serialize e) < 8192"
    and "registry_ok s" "sv_reader s i = reader_start"
  shows "\<exists>k r. session_bytes en_s parse i (wire_bytes q) s = (Ret (), s\<lparr>sv_reader := (sv_reader s)(i := r),
      sv_tasks := sv_tasks s @ map (Dispatch_task i) (take k es)\<rparr>) \<and>
    (length (wq_wire q) = length es \<longrightarrow> take k es = es \<and> r = reader_start)"
proof -
  have "\<forall>e \<in> set es. parse (serialize e) = Some e \<and> 0 < length (serialize e) \<and>
      length (serialize e) < 8192" using assms(2,3) by blast
  note p = delivered_prefix [OF assms(1) [unfolded client_frame_eq] client_writer.frame_writer_axioms
      session_reader.frame_reader_axioms [of en_s parse] this]
  obtain r evs where r: "read_bytes (header_complete en_s) (body_complete parse) reader_start (wire_bytes q) = (r, evs)"
    by fastforce
  from p [unfolded r fst_conv snd_conv] obtain k where k: "evs = map Deliver (take k es)"
    "length (wq_wire q) = length es \<longrightarrow> take k es = es \<and> r = reader_start" by blast
  with session_bytes_run [OF assms(4), of en_s parse i "wire_bytes q" r "take k es"] r assms(5)
  show ?thesis by auto
qed

text \<open>C35. From server to client. In the same way the client's message handler is run, in order, for the
  first few envelopes the session sent, each one whole, and for all of them once all writes have
  completed.\<close>

theorem server_to_client:
  assumes "wq_run post_send handle_write (map (\<lambda>e. frame en_s (serialize e)) es) q"
    and "\<And>e. e \<in> set es \<Longrightarrow> parse (serialize e) = Some e"
    and "\<And>e. e \<in> set es \<Longrightarrow> 0 < length (serialize e) \<and> length (serialize e) < 8192"
    and "cl_reader c = reader_start"
  shows "\<exists>k r. client_bytes C en_c parse (wire_bytes q) c =
      (fold (handle_server_message C) (take k es) c)\<lparr>cl_reader := r\<rparr> \<and>
    (length (wq_wire q) = length es \<longrightarrow> take k es = es \<and> r = reader_start)"
proof -
  have "\<forall>e \<in> set es. parse (serialize e) = Some e \<and> 0 < length (serialize e) \<and>
      length (serialize e) < 8192" using assms(2,3) by blast
  note p = delivered_prefix [OF assms(1) session_writer.frame_writer_axioms
      client_reader.frame_reader_axioms [of en_c parse] this]
  obtain r evs where r: "read_bytes (client_header_complete en_c) (client_body_complete parse)
      reader_start (wire_bytes q) = (r, evs)" by fastforce
  from p [unfolded r fst_conv snd_conv] obtain k where k: "evs = map Deliver (take k es)"
    "length (wq_wire q) = length es \<longrightarrow> take k es = es \<and> r = reader_start" by blast
  have "fold (client_event C) (map Deliver xs) c = fold (handle_server_message C) xs c" for xs
    by (induction xs arbitrary: c) simp_all
  with client_bytes_run [of en_c parse c "wire_bytes q" r evs C] r assms(4) k
  show ?thesis by auto
qed

text \<open>One login goes over the wire and comes back as an answer.\<close>

lemma ref_client_wire:
  "\<exists>q. wq_run client_post_send client_handle_write (map (\<lambda>e. client_frame en [7]) [ref_login]) q \<and>
     wq_wire q = [client_frame en [7]]"
proof -
  let ?f = "client_frame en [7]"
  obtain q where "client_post_send ?f wq_empty = Some q" "wq_broken q = None"
    by (simp add: client_post_send_def client_do_write_def wq_empty_def)
  with wq_run.wq_post [OF wq_run.wq_start, of client_post_send ?f q client_handle_write]
    client_writer.run_drains [of "[?f]" q] show ?thesis by auto
qed

lemma ref_session_wire:
  "\<exists>q. wq_run post_send handle_write (map (\<lambda>e. frame en [7]) [ref_login]) q \<and> wq_wire q = [frame en [7]]"
proof -
  let ?f = "frame en [7]"
  obtain q where "post_send ?f wq_empty = Some q" "wq_broken q = None"
    by (simp add: post_send_def do_write_def wq_empty_def)
  with wq_run.wq_post [OF wq_run.wq_start, of post_send ?f q handle_write]
    session_writer.run_drains [of "[?f]" q] show ?thesis by auto
qed

lemma ref_reading_registry: "registry_ok (ref_reading r ks)"
  by (simp add: registry_ok_def ref_reading_def server_start_def new_session_ok)

lemma client_to_server_witness:
  "\<exists>q t. wq_wire q = [client_frame Little_endian [7]] \<and>
     session_bytes Big_endian ref_parse 0 (wire_bytes q) (ref_reading reader_start []) = (Ret (), t) \<and>
     sv_tasks t = [Dispatch_task 0 ref_login]"
proof -
  obtain q where q: "wq_run client_post_send client_handle_write
      (map (\<lambda>e. client_frame Little_endian ((\<lambda>_. [7]) e)) [ref_login]) q"
    "wq_wire q = [client_frame Little_endian [7]]" using ref_client_wire by blast
  have "sv_reader (ref_reading reader_start []) 0 = reader_start" by (rule ref_reading_reader)
  from client_to_server [OF q(1) _ _ ref_reading_registry this, of ref_parse Big_endian] q(2)
  obtain k r where "session_bytes Big_endian ref_parse 0 (wire_bytes q) (ref_reading reader_start []) =
      (Ret (), (ref_reading reader_start [])\<lparr>sv_reader := (sv_reader (ref_reading reader_start []))(0 := r),
        sv_tasks := sv_tasks (ref_reading reader_start []) @ map (Dispatch_task 0) (take k [ref_login])\<rparr>)"
    "take k [ref_login] = [ref_login]" by (auto simp: ref_parse_def)
  with q(2) show ?thesis by (intro exI conjI) (auto simp: ref_reading_def)
qed

lemma server_to_client_witness:
  "\<exists>q r. wq_wire q = [frame Big_endian [7]] \<and>
     client_bytes ref_client_env Little_endian ref_parse (wire_bytes q) (new_client\<lparr>cl_reader := reader_start\<rparr>) =
     (handle_server_message ref_client_env ref_login (new_client\<lparr>cl_reader := reader_start\<rparr>))\<lparr>cl_reader := r\<rparr>"
proof -
  obtain q where q: "wq_run post_send handle_write
      (map (\<lambda>e. frame Big_endian ((\<lambda>_. [7]) e)) [ref_login]) q"
    "wq_wire q = [frame Big_endian [7]]" using ref_session_wire by blast
  from server_to_client [OF q(1), of ref_parse "new_client\<lparr>cl_reader := reader_start\<rparr>" ref_client_env Little_endian] q(2)
  obtain k r where "client_bytes ref_client_env Little_endian ref_parse (wire_bytes q) (new_client\<lparr>cl_reader := reader_start\<rparr>) =
      (fold (handle_server_message ref_client_env) (take k [ref_login]) (new_client\<lparr>cl_reader := reader_start\<rparr>))\<lparr>cl_reader := r\<rparr>"
    "take k [ref_login] = [ref_login]" by (auto simp: ref_parse_def)
  with q(2) show ?thesis by (intro exI conjI) (assumption, simp)
qed

section \<open>The room a client takes itself to be in\<close>

text \<open>What the last envelope of a returning room operation says.\<close>

definition reply_for :: "room_operation_request \<Rightarrow> envelope \<Rightarrow> bool" where
  "reply_for req e \<longleftrightarrow>
     (\<exists>r. payload e = Some (RoomOperationResponse r) \<and>
        (op_success r \<longrightarrow> op_operation r = oq_operation req \<and> op_room_name r = oq_room_name req) \<and>
        (op_operation r = CREATE \<longrightarrow> oq_operation req = CREATE \<and> op_room_name r = oq_room_name req))"

lemma reply_for_responses [simp]:
  "reply_for req (room_response req b msg)"
  "reply_for req (envelope_with (RoomOperationResponse
     (room_operation_response_default\<lparr>op_success := False, op_message := msg\<rparr>)))"
  by (simp_all add: reply_for_def room_response_def room_operation_response_default_def)

lemma last_sent:
  assumes "session_send i e s = (Ret (), t)"
  shows "last (ss_outbox t i) = e"
  using assms by (auto simp: session_send_apply)

lemma room_reply_for:
  assumes "isAuthenticated (ss_session s i)"
    and "handleRoomOperation E rooms i req s = (Ret (), t)"
  shows "reply_for req (last (ss_outbox t i))"
proof -
  have join: "reply_for req (last (ss_outbox t i))" if "join_operation rooms i uid req u = (Ret (), t)" for uid u
    using that unfolding join_operation_def Let_def cthen_def
    by (auto simp: cbind_Ret_iff split: option.splits dest!: last_sent)
  have leave: "reply_for req (last (ss_outbox t i))" if "leave_operation i uid req u = (Ret (), t)" for uid u
    using that unfolding leave_operation_def Let_def cthen_def
    by (auto simp: cbind_Ret_iff dest!: last_sent)
  have create: "reply_for req (last (ss_outbox t i))" if "create_operation E rooms i uid req u = (Ret (), t)" for uid u
    using that unfolding create_operation_def Let_def cthen_def
    by (auto simp: cbind_Ret_iff split: option.splits if_splits dest!: last_sent)
  from assms show ?thesis
    unfolding handleRoomOperation_def
    by (cases "oq_operation req") (auto simp: cbind_Ret_iff session_authenticated_bind
        intro: join leave create dest!: last_sent)
qed

definition server_room :: "('db, 'z) service_state_scheme \<Rightarrow> long_long \<Rightarrow> string" where
  "server_room s uid = (case rs_userToRoom s uid of None \<Rightarrow> '''' | Some r \<Rightarrow> r)"

lemma room_print [simp]: "cl_currentRoom (client_print l c) = cl_currentRoom c"
  by (simp add: client_print_def)

text \<open>C36. Client and server agree on the room. If the client's current room is the room the server has
  its user in (none being the empty name), the user asks for a room operation as the client's
  commands do (leaving names the current room; creating from no room), and the server answers,
  then after the client has handled the answer the two agree again, unless the server refused a
  \<open>CREATE\<close>: then the client takes itself to be in the room it was refused.\<close>

theorem client_agrees_with_server:
  assumes "server_ok E V s" "exact s"
    and "isAuthenticated (ss_session s i)" "userId (ss_session s i) = Some uid"
    and "oq_operation req = CREATE \<Longrightarrow> place s uid = None"
    and "oq_operation req = LEAVE \<Longrightarrow> oq_room_name req = cl_currentRoom c \<and> cl_currentRoom c \<noteq> []"
    and "cl_currentRoom c = server_room s uid"
    and "handleRoomOperation E (MySQLRoomRepository E) i req s = (Ret (), t)"
  shows "let c' = handle_server_message C (last (ss_outbox t i)) c
    in cl_currentRoom c' = server_room t uid \<or>
       (oq_operation req = CREATE \<and> \<not> room_success (last (ss_outbox t i)) \<and>
        cl_currentRoom c' = oq_room_name req)"
proof -
  have ok: "mysql_chat.ok V E s" using assms(1) by (simp add: server_ok_def)
  let ?e = "last (ss_outbox t i)"
  note r = mysql_chat.room_operation_result [OF ok assms(2-5,8)]
  have room: "server_room u uid = (case place u uid of None \<Rightarrow> '''' | Some p \<Rightarrow> fst p)"
    if "rooms_ok u" for u :: "('a, 'b) service_state_scheme"
    using place_room [OF that, of uid] by (cases "place u uid") (auto simp: server_room_def dest: sym)
  have "rooms_ok s" "rooms_ok t" using ok r service_okD(3) by blast+
  note room = room [OF this(1)] room [OF this(2)]
  obtain resp where e: "payload ?e = Some (RoomOperationResponse resp)"
    "op_success resp \<Longrightarrow> op_operation resp = oq_operation req \<and> op_room_name resp = oq_room_name req"
    "op_operation resp = CREATE \<Longrightarrow> oq_operation req = CREATE \<and> op_room_name resp = oq_room_name req"
    using room_reply_for [OF assms(3,8)] unfolding reply_for_def by blast
  have success: "room_success ?e = op_success resp" by (simp add: room_success_def e(1))
  have c': "cl_currentRoom (handle_server_message C ?e c) =
      (if op_success resp \<and> op_operation resp = JOIN then op_room_name resp
       else if op_operation resp = CREATE then op_room_name resp
       else if op_success resp \<and> op_operation resp = LEAVE then [] else cl_currentRoom c)"
    by (simp add: handle_server_message_def e(1) room_reply_def setCurrentRoom_def client_send_def)
  show ?thesis
  proof (cases "op_success resp")
    case True
    then have "place t = place_step i uid req (place s)"
      using r success by (auto simp: replied_def)
    with e(2) [OF True] c' room assms(6,7) True show ?thesis
      by (cases "oq_operation req"; cases "place s uid") (auto simp: Let_def place_step_def)
  next
    case False
    then have "place t = place s" using r success by auto
    then have "server_room t uid = cl_currentRoom c" using room assms(7) by simp
    with c' False success e(3) show ?thesis by (auto simp: Let_def)
  qed
qed

lemma client_agrees_with_server_witness:
  "(let t = snd (handleRoomOperation ref_env (MySQLRoomRepository ref_env) 1
       \<lparr>oq_operation = JOIN, oq_room_name = ''lobby''\<rparr> ref_service)
    in cl_currentRoom (handle_server_message ref_client_env (last (ss_outbox t 1)) new_client) = server_room t 2)"
proof -
  let ?q = "\<lparr>oq_operation = JOIN, oq_room_name = ''lobby''\<rparr>"
  let ?r = "handleRoomOperation ref_env (MySQLRoomRepository ref_env) 1 ?q ref_service"
  have "fst ?r = Ret ()" by (simp add: room_run repo_run ref_run)
  then have run: "?r = (Ret (), snd ?r)" by (metis prod.collapse)
  have none: "cl_currentRoom new_client = server_room ref_service 2"
    by (simp add: new_client_def server_room_def ref_service_def)
  note p = client_agrees_with_server [OF ref_service_ok [OF ref_db_ok(1)] ref_service_exact
      ref_service_sessions(2,4) _ _ none run, where C = ref_client_env]
  show ?thesis using p by (simp add: Let_def)
qed

text \<open>C37. A refused \<open>CREATE\<close> moves the client. After the refusal (the name is taken by a room the user is
  not in) the client's current room is the refused one, and the user's next \<open>/leave\<close> asks the server
  to leave that room.\<close>

theorem refused_create_moves_client:
  "(let c' = handle_server_message C
        (room_response \<lparr>oq_operation = CREATE, oq_room_name = x # xs\<rparr> False msg) c
    in getCurrentRoom c' = x # xs \<and>
       handle_line (getCurrentRoom c') ''/leave'' = Send_envelope (envelope_with
         (RoomOperationRequest \<lparr>oq_operation = LEAVE, oq_room_name = x # xs\<rparr>)))"
  by (simp add: handle_server_message_def room_response_def room_reply_def setCurrentRoom_def
      getCurrentRoom_def handle_line_def Let_def)

end
