(* ===== verification/Soci_Conversion.thy ===== *)
theory Soci_Conversion
  imports User_Repository Room_Repository Message_Repository Std_Text
begin

text \<open>
  \<open>server/src/data/SociTypeConversion.h\<close>: how SOCI turns a row into an entity and an entity into
  named values. The row (\<open>soci::values\<close>) is a parameter: for each column name the indicator and
  the value \<open>get\<close> returns at each type, or the exception it throws. \<open>from_base\<close> works on the
  caller's entity in place, so the state of the model is a pair, and what was set before an
  exception stays set. The repositories bind columns one by one instead; the properties compare
  the two ways.
\<close>

section \<open>Rows of values\<close>

datatype indicator = I_ok | I_null | I_truncated

record row_values =
  va_indicator :: "string \<Rightarrow> exn + indicator"
  va_int :: "string \<Rightarrow> exn + int32"
  va_long_long :: "string \<Rightarrow> exn + long_long"
  va_string :: "string \<Rightarrow> exn + string"
  va_tm :: "string \<Rightarrow> exn + tm"

definition set_entity :: "('e \<Rightarrow> 'e) \<Rightarrow> ('s \<times> 'e, unit) comp" where
  "set_entity f = cmodify (apsnd f)"

definition on_data :: "('s, 'a) comp \<Rightarrow> ('s \<times> 'e, 'a) comp" where
  "on_data m = (\<lambda>(s, e). (case m s of (out, t) \<Rightarrow> (out, (t, e))))"

section \<open>created_at\<close>

text \<open>
  The text of a \<open>TIMESTAMP\<close>: six numbers; the year counts from 1900 and the month from 0 in a
  \<open>std::tm\<close>. None stands for undefined behaviour (a number, or the difference, that does not fit).
\<close>

definition date_format :: "directive list" where
  "date_format = [Dir_int, Dir_char (CHR ''-''), Dir_int, Dir_char (CHR ''-''), Dir_int, Dir_blank,
     Dir_int, Dir_char (CHR '':''), Dir_int, Dir_char (CHR '':''), Dir_int]"

definition scan_date :: "string \<Rightarrow> tm option option" where
  "scan_date text =
     (case sscanf date_format text of
        None \<Rightarrow> None
      | Some [year, mon, mday, hour, minute, sec] \<Rightarrow>
          (if int_range (year - 1900) \<and> int_range (mon - 1)
           then Some (Some \<lparr>tm_sec = sec, tm_min = minute, tm_hour = hour, tm_mday = mday,
             tm_mon = mon - 1, tm_year = year - 1900\<rparr>) else None)
      | Some _ \<Rightarrow> Some None)"

text \<open>
  The column as a \<open>std::tm\<close>; when \<open>get\<close> throws anything, as text; when the text is no date, the
  current time. \<open>mk\<close> is \<open>mktime\<close> of a \<open>std::tm\<close> that was zero before the text was read into it:
  its \<open>tm_isdst\<close> says standard time, which a \<open>std::tm\<close> of SOCI need not.
\<close>

definition created_from_row ::
    "'db env \<Rightarrow> (tm \<Rightarrow> int) \<Rightarrow> row_values \<Rightarrow> (time_point \<Rightarrow> 'e \<Rightarrow> 'e) \<Rightarrow>
     (('db, 'z) data_state_scheme \<times> 'e, unit) comp" where
  "created_from_row E mk v setCreatedAt =
     ctry
       (cbind (cfrom (va_tm v ''created_at'')) (\<lambda>t.
        set_entity (setCreatedAt (from_time_t (e_tps E) (e_mktime E t)))))
       (\<lambda>_.
        cbind (cfrom (va_string v ''created_at'')) (\<lambda>created_at_str.
        case scan_date created_at_str of
          None \<Rightarrow> cundef
        | Some (Some t) \<Rightarrow> set_entity (setCreatedAt (from_time_t (e_tps E) (mk t)))
        | Some None \<Rightarrow> cbind (on_data (read_clock E)) (\<lambda>now. set_entity (setCreatedAt now))))"

section \<open>Time points\<close>

definition from_base_time_point :: "'db env \<Rightarrow> tm \<Rightarrow> indicator \<Rightarrow> time_point \<Rightarrow> time_point" where
  "from_base_time_point E t ind tp =
     (if ind = I_ok then from_time_t (e_tps E) (e_mktime E t) else tp)"

text \<open>\<open>to_time_t\<close> of libstdc++ truncates towards zero; \<open>localtime\<close> is a parameter.\<close>

definition to_base_time_point :: "'db env \<Rightarrow> (int \<Rightarrow> tm) \<Rightarrow> time_point \<Rightarrow> tm \<times> indicator" where
  "to_base_time_point E localtime tp = (localtime (tp sdiv e_tps E), I_ok)"

section \<open>Entities\<close>

definition from_base_message ::
    "'db env \<Rightarrow> (tm \<Rightarrow> int) \<Rightarrow> row_values \<Rightarrow>
     (('db, 'z) data_state_scheme \<times> message, unit) comp" where
  "from_base_message E mk v =
     cbind (cfrom (va_int v ''id'')) (\<lambda>id_val.
     cbind (cfrom (va_int v ''room_id'')) (\<lambda>room_id_val.
     cbind (cfrom (va_int v ''sender_id'')) (\<lambda>sender_id_val.
     cthen (set_entity (\<lambda>m. m\<lparr>m_id := scast id_val\<rparr>))
     (cthen (set_entity (\<lambda>m. m\<lparr>m_room_id := scast room_id_val\<rparr>))
     (cthen (set_entity (\<lambda>m. m\<lparr>m_sender_id := scast sender_id_val\<rparr>))
     (cbind (cfrom (va_string v ''content'')) (\<lambda>content.
     cthen (set_entity (\<lambda>m. m\<lparr>m_content := content\<rparr>))
     (cbind (cfrom (va_indicator v ''created_at'')) (\<lambda>ind.
     if ind = I_ok then created_from_row E mk v (\<lambda>t m. m\<lparr>m_created_at := t\<rparr>)
     else creturn ())))))))))"

definition to_base_message :: "message \<Rightarrow> (string \<times> sql_value) list \<times> indicator" where
  "to_base_message m =
     ([(''room_id'', V_int (m_room_id m)), (''sender_id'', V_int (m_sender_id m)),
       (''content'', V_text (m_content m))], I_ok)"

text \<open>A column that is checked first: only the indicator \<open>i_ok\<close> is read.\<close>

definition checked_column ::
    "row_values \<Rightarrow> string \<Rightarrow> exn + 'a \<Rightarrow> ('a \<Rightarrow> 'e \<Rightarrow> 'e) \<Rightarrow> ('s \<times> 'e, unit) comp" where
  "checked_column v name val f =
     cbind (cfrom (va_indicator v name)) (\<lambda>ind.
     if ind = I_ok then cbind (cfrom val) (\<lambda>a. set_entity (f a)) else creturn ())"

definition from_base_room ::
    "'db env \<Rightarrow> (tm \<Rightarrow> int) \<Rightarrow> row_values \<Rightarrow> (('db, 'z) data_state_scheme \<times> room, unit) comp" where
  "from_base_room E mk v =
     cthen (checked_column v ''id'' (va_long_long v ''id'') (\<lambda>a r. r\<lparr>r_id := a\<rparr>))
     (cthen (checked_column v ''name'' (va_string v ''name'') (\<lambda>a r. r\<lparr>r_name := a\<rparr>))
     (cthen (checked_column v ''creator_id'' (va_long_long v ''creator_id'')
       (\<lambda>a r. r\<lparr>r_creator_id := a\<rparr>))
     (cbind (cfrom (va_indicator v ''created_at'')) (\<lambda>ind.
     if ind = I_ok then created_from_row E mk v (\<lambda>t r. r\<lparr>r_created_at := t\<rparr>)
     else cbind (on_data (read_clock E)) (\<lambda>now. set_entity (\<lambda>r. r\<lparr>r_created_at := now\<rparr>))))))"

definition to_base_room :: "room \<Rightarrow> (string \<times> sql_value) list \<times> indicator" where
  "to_base_room r =
     ([(''name'', V_text (r_name r)), (''creator_id'', V_int (r_creator_id r))], I_ok)"

definition from_base_user ::
    "'db env \<Rightarrow> (tm \<Rightarrow> int) \<Rightarrow> row_values \<Rightarrow> (('db, 'z) data_state_scheme \<times> user, unit) comp" where
  "from_base_user E mk v =
     cbind (cfrom (va_int v ''id'')) (\<lambda>id_val.
     cthen (set_entity (\<lambda>u. u\<lparr>u_id := scast id_val\<rparr>))
     (cbind (cfrom (va_string v ''username'')) (\<lambda>username.
     cthen (set_entity (\<lambda>u. u\<lparr>u_username := username\<rparr>))
     (cbind (cfrom (va_string v ''hashed_password'')) (\<lambda>hashed_password.
     cthen (set_entity (\<lambda>u. u\<lparr>u_hashed_password := hashed_password\<rparr>))
     (cbind (cfrom (va_string v ''salt'')) (\<lambda>salt.
     cthen (set_entity (\<lambda>u. u\<lparr>u_salt := salt\<rparr>))
     (cbind (cfrom (va_indicator v ''created_at'')) (\<lambda>ind.
     if ind = I_ok then created_from_row E mk v (\<lambda>t u. u\<lparr>u_created_at := t\<rparr>)
     else cbind (on_data (read_clock E)) (\<lambda>now. set_entity (\<lambda>u. u\<lparr>u_created_at := now\<rparr>)))))))))))"

definition to_base_user :: "user \<Rightarrow> (string \<times> sql_value) list \<times> indicator" where
  "to_base_user u =
     ([(''username'', V_text (u_username u)), (''hashed_password'', V_text (u_hashed_password u)),
       (''salt'', V_text (u_salt u))], I_ok)"

section \<open>Running a conversion\<close>

lemma set_entity_run [simp]: "set_entity f (s, e) = (Ret (), (s, f e))"
  by (simp add: set_entity_def cmodify_def)

lemma on_data_clock [simp]:
  "on_data (read_clock E) (s, e) = (Ret (e_now E (ds_clock s)), (s\<lparr>ds_clock := Suc (ds_clock s)\<rparr>, e))"
  by (simp add: on_data_def read_clock_def)

lemma bind_clock:
  "cbind (on_data (read_clock E)) f (s, e) =
     f (e_now E (ds_clock s)) (s\<lparr>ds_clock := Suc (ds_clock s)\<rparr>, e)"
  by (simp add: cbind_def)

lemma then_entity: "cthen (set_entity f) m (s, e) = m (s, f e)"
  by (simp add: cthen_def cbind_def)

lemmas conversion_run = cbind_cfrom bind_clock then_entity

lemma created_from_tm:
  "va_tm v ''created_at'' = Inr t \<Longrightarrow>
   created_from_row E mk v f (s, e) = (Ret (), (s, f (from_time_t (e_tps E) (e_mktime E t)) e))"
  by (simp add: created_from_row_def ctry_def conversion_run)

lemma created_from_text:
  "va_tm v ''created_at'' = Inl x \<Longrightarrow> va_string v ''created_at'' = Inr text \<Longrightarrow>
   created_from_row E mk v f (s, e) =
     (case scan_date text of
        None \<Rightarrow> (Undef, (s, e))
      | Some (Some t) \<Rightarrow> (Ret (), (s, f (from_time_t (e_tps E) (mk t)) e))
      | Some None \<Rightarrow> (Ret (), (s\<lparr>ds_clock := Suc (ds_clock s)\<rparr>, f (e_now E (ds_clock s)) e)))"
  by (simp add: created_from_row_def ctry_def conversion_run split: option.split)

lemma checked_column_run:
  "va_indicator v name = Inr I_ok \<Longrightarrow> checked_column v name (Inr a) f (s, e) = (Ret (), (s, f a e))"
  "va_indicator v name = Inr I_null \<Longrightarrow> checked_column v name val f (s, e) = (Ret (), (s, e))"
  by (simp_all add: checked_column_def conversion_run)

section \<open>Dates as text\<close>

text \<open>The text MySQL gives a \<open>TIMESTAMP\<close>: \<open>YYYY-MM-DD hh:mm:ss\<close>.\<close>

definition date_text :: "tm \<Rightarrow> string" where
  "date_text t =
     padded 4 (nat (tm_year t + 1900)) @ ''-'' @ padded 2 (nat (tm_mon t + 1)) @ ''-'' @
     padded 2 (nat (tm_mday t)) @ '' '' @ padded 2 (nat (tm_hour t)) @ '':'' @
     padded 2 (nat (tm_min t)) @ '':'' @ padded 2 (nat (tm_sec t))"

definition date_ok :: "tm \<Rightarrow> bool" where
  "date_ok t \<longleftrightarrow>
     0 \<le> tm_year t + 1900 \<and> tm_year t + 1900 \<le> 9999 \<and> 0 \<le> tm_mon t \<and> tm_mon t < 12 \<and>
     0 \<le> tm_mday t \<and> tm_mday t \<le> 31 \<and> 0 \<le> tm_hour t \<and> tm_hour t < 24 \<and>
     0 \<le> tm_min t \<and> tm_min t < 60 \<and> 0 \<le> tm_sec t \<and> tm_sec t \<le> 60"

lemma no_digits [simp]: "\<not> is_digit (CHR ''-'')" "\<not> is_digit (CHR '' '')" "\<not> is_digit (CHR '':'')"
  by (simp_all add: is_digit_def)

lemma sscanf_padded:
  assumes "rest \<noteq> [] \<Longrightarrow> \<not> is_digit (hd rest)" "n < 10000"
  shows "sscanf (Dir_int # ds) (padded w n @ rest) = map_option ((#) (int n)) (sscanf ds rest)"
  using assms by (simp add: scan_padded int_range_def)

lemma padded_not_blank [simp]: "dropWhile blank (padded w n @ rest) = padded w n @ rest"
proof -
  have "padded w n \<noteq> []" "list_all is_digit (padded w n)"
    using nat_digits_all [of n] by (auto simp: padded_def list_all_iff is_digit_def)
  then show ?thesis by (cases "padded w n") simp_all
qed

lemma scan_date_text:
  assumes "date_ok t"
  shows "scan_date (date_text t) = Some (Some t)"
proof -
  have p: "sscanf (Dir_int # ds) (padded w n @ x # rest) = map_option ((#) (int n)) (sscanf ds (x # rest))"
    if "\<not> is_digit x" "n < 10000" for ds w n x rest
    using sscanf_padded [of "x # rest"] that by simp
  have e: "sscanf [Dir_int] (padded w n) = Some [int n]" if "n < 10000" for w n
    using sscanf_padded [of "[]" n "[]" w] that by simp
  have b: "blank (CHR '' '')" by (simp add: blank_def)
  have n: "nat (tm_year t + 1900) < 10000" "nat (tm_mon t + 1) < 10000" "nat (tm_mday t) < 10000"
    "nat (tm_hour t) < 10000" "nat (tm_min t) < 10000" "nat (tm_sec t) < 10000"
    using assms by (auto simp: date_ok_def)
  have "sscanf date_format (date_text t) = Some [tm_year t + 1900, tm_mon t + 1, tm_mday t,
      tm_hour t, tm_min t, tm_sec t]"
    unfolding date_format_def date_text_def using assms
    by (simp add: p e n b date_ok_def del: sscanf.simps(2))
  with assms show ?thesis by (simp add: scan_date_def date_ok_def int_range_def)
qed


section \<open>Rows that SOCI delivers\<close>

text \<open>
  A column of a fetched row as \<open>soci::values\<close> presents it: a null has the indicator \<open>i_null\<close>, and
  \<open>get\<close> throws; otherwise the value is there.
\<close>

definition delivers :: "row_values \<Rightarrow> string \<Rightarrow> (row_values \<Rightarrow> string \<Rightarrow> exn + 'a) \<Rightarrow> 'a option \<Rightarrow> bool" where
  "delivers v name get c \<longleftrightarrow>
     (case c of
        None \<Rightarrow> va_indicator v name = Inr I_null \<and> isl (get v name)
      | Some a \<Rightarrow> va_indicator v name = Inr I_ok \<and> get v name = Inr a)"

definition delivers_user :: "row_values \<Rightarrow> user_row \<Rightarrow> bool" where
  "delivers_user v r \<longleftrightarrow>
     delivers v ''id'' va_int (ur_id r) \<and> delivers v ''username'' va_string (ur_username r) \<and>
     delivers v ''hashed_password'' va_string (ur_hashed_password r) \<and>
     delivers v ''salt'' va_string (ur_salt r) \<and> delivers v ''created_at'' va_tm (ur_created_at r)"

definition delivers_room :: "row_values \<Rightarrow> room_row \<Rightarrow> bool" where
  "delivers_room v r \<longleftrightarrow>
     delivers v ''id'' va_long_long (map_option scast (rr_id r)) \<and>
     delivers v ''name'' va_string (rr_name r) \<and>
     delivers v ''creator_id'' va_long_long (map_option scast (rr_creator_id r)) \<and>
     delivers v ''created_at'' va_tm (rr_created_at r)"

text \<open>The id of a message is a \<open>BIGINT\<close>; \<open>get<int>\<close> delivers those that fit an \<open>int\<close>.\<close>

definition delivers_message :: "row_values \<Rightarrow> message_row \<Rightarrow> bool" where
  "delivers_message v r \<longleftrightarrow>
     (\<exists>n. delivers v ''id'' va_int n \<and> mr_id r = map_option scast n) \<and>
     delivers v ''room_id'' va_int (mr_room_id r) \<and>
     delivers v ''sender_id'' va_int (mr_sender_id r) \<and>
     delivers v ''content'' va_string (mr_content r) \<and>
     delivers v ''created_at'' va_tm (mr_created_at r)"

lemma then_checked:
  "delivers v name get c \<Longrightarrow> cthen (checked_column v name (get v name) f) m (s, e) =
     m (s, case c of None \<Rightarrow> e | Some a \<Rightarrow> f a e)"
  by (cases c) (simp_all add: delivers_def checked_column_run cthen_def cbind_def)

lemma user_conversion:
  assumes d: "delivers_user v r" and id: "ur_id r = Some i" and full: "ur_username r = Some n"
      "ur_hashed_password r = Some h" "ur_salt r = Some salt"
  shows "\<exists>u t. from_base_user E mk v (s, u0) = (Ret (), (t, u)) \<and>
    user_of_first_row E (r # rs) s = (Ret (Some u), t)"
proof -
  have c: "delivers v ''created_at'' va_tm (ur_created_at r)" using d by (simp add: delivers_user_def)
  have g: "va_int v ''id'' = Inr i" "va_string v ''username'' = Inr n"
    "va_string v ''hashed_password'' = Inr h" "va_string v ''salt'' = Inr salt"
    using d by (simp_all add: delivers_user_def id full delivers_def)
  show ?thesis
  proof (cases "ur_created_at r")
    case None
    with c have "va_indicator v ''created_at'' = Inr I_null" by (simp add: delivers_def)
    with None g id full show ?thesis
      by (simp add: from_base_user_def conversion_run user_of_first_row_def created_or_now_def
          read_clock_def cbind_def creturn_def)
  next
    case (Some t)
    with c have "va_indicator v ''created_at'' = Inr I_ok" "va_tm v ''created_at'' = Inr t"
      by (simp_all add: delivers_def)
    with Some g id full show ?thesis
      by (simp add: from_base_user_def conversion_run user_of_first_row_def created_or_now_def
          created_from_tm cbind_def creturn_def)
  qed
qed

lemma room_conversion:
  assumes d: "delivers_room v r" and id: "rr_id r = Some i"
  shows "\<exists>u t. from_base_room E mk v (s, new_room (e_junk E)) = (Ret (), (t, u)) \<and>
    room_of_first_row E (r # rs) s = (Ret (Some u), t)"
proof -
  have n: "delivers v ''name'' va_string (rr_name r)"
    "delivers v ''creator_id'' va_long_long (map_option scast (rr_creator_id r))"
    "delivers v ''id'' va_long_long (Some (scast i))"
    using d by (simp_all add: delivers_room_def id)
  note k = then_checked [OF n(1)] then_checked [OF n(2)] then_checked [OF n(3)]
  have c: "delivers v ''created_at'' va_tm (rr_created_at r)" using d by (simp add: delivers_room_def)
  show ?thesis
  proof (cases "rr_created_at r")
    case None
    with c have "va_indicator v ''created_at'' = Inr I_null" by (simp add: delivers_def)
    with None id show ?thesis
      by (simp add: from_base_room_def k conversion_run room_of_first_row_def created_or_now_def
          read_clock_def cbind_def creturn_def new_room_def fetch_into_def split: option.split)
  next
    case (Some t)
    with c have "va_indicator v ''created_at'' = Inr I_ok" "va_tm v ''created_at'' = Inr t"
      by (simp_all add: delivers_def)
    with Some id show ?thesis
      by (simp add: from_base_room_def k conversion_run room_of_first_row_def created_or_now_def
          created_from_tm new_room_def fetch_into_def split: option.split)
  qed
qed

lemma message_conversion:
  assumes d: "delivers_message v r" and id: "mr_id r = Some i" and full: "mr_room_id r = Some rid"
      "mr_sender_id r = Some sid" "mr_content r = Some text"
  shows "mr_created_at r \<noteq> None \<Longrightarrow> \<exists>m t. from_base_message E mk v (s, m0) = (Ret (), (t, m)) \<and>
      message_of_first_row E (r # rs) s = (Ret (Some m), t)"
    and "mr_created_at r = None \<Longrightarrow> from_base_message E mk v (s, m0) = (Ret (), (s,
      \<lparr>m_id = i, m_room_id = scast rid, m_sender_id = scast sid, m_content = text,
       m_created_at = m_created_at m0\<rparr>))"
proof -
  obtain n where g: "va_int v ''id'' = Inr n" "i = scast n" "va_int v ''room_id'' = Inr rid"
    "va_int v ''sender_id'' = Inr sid" "va_string v ''content'' = Inr text"
    using d by (auto simp: delivers_message_def id full delivers_def split: option.splits)
  have c: "delivers v ''created_at'' va_tm (mr_created_at r)" using d by (simp add: delivers_message_def)
  show "\<exists>m t. from_base_message E mk v (s, m0) = (Ret (), (t, m)) \<and>
      message_of_first_row E (r # rs) s = (Ret (Some m), t)" if "mr_created_at r \<noteq> None"
  proof -
    from that obtain t where t: "mr_created_at r = Some t" by blast
    with c have "va_indicator v ''created_at'' = Inr I_ok" "va_tm v ''created_at'' = Inr t"
      by (simp_all add: delivers_def)
    with t g id full show ?thesis
      by (simp add: from_base_message_def conversion_run message_of_first_row_def created_or_now_def
          created_from_tm cbind_def creturn_def)
  qed
  show "from_base_message E mk v (s, m0) = (Ret (), (s,
      \<lparr>m_id = i, m_room_id = scast rid, m_sender_id = scast sid, m_content = text,
       m_created_at = m_created_at m0\<rparr>))" if "mr_created_at r = None"
  proof -
    from c that have "va_indicator v ''created_at'' = Inr I_null" by (simp add: delivers_def)
    with g show ?thesis by (simp add: from_base_message_def conversion_run creturn_def)
  qed
qed


section \<open>Properties\<close>

text \<open>C39. The two ways to read a row agree. For a row whose columns SOCI delivers, \<open>from_base\<close> of a
  user (no text of which is null), of a room (with an id), and of a message (with its creation
  time) gives the entity the repositories build column by column, reading the clock as often. A
  message without a creation time differs: the conversion leaves the time the object had, where
  the repository, and the conversions of users and rooms, take the current time.\<close>

theorem conversions_agree:
  fixes s :: "('db, 'z) data_state_scheme"
  shows "(delivers_user v ur \<and> ur_id ur = Some i \<and> ur_username ur \<noteq> None \<and>
      ur_hashed_password ur \<noteq> None \<and> ur_salt ur \<noteq> None \<longrightarrow>
      (\<exists>u t. from_base_user E mk v (s, u0) = (Ret (), (t, u)) \<and>
        user_of_first_row E (ur # urs) s = (Ret (Some u), t))) \<and>
    (delivers_room v rr \<and> rr_id rr = Some i \<longrightarrow>
      (\<exists>r t. from_base_room E mk v (s, new_room (e_junk E)) = (Ret (), (t, r)) \<and>
        room_of_first_row E (rr # rrs) s = (Ret (Some r), t))) \<and>
    (delivers_message v mr \<and> mr_id mr = Some j \<and> mr_room_id mr \<noteq> None \<and>
      mr_sender_id mr \<noteq> None \<and> mr_content mr \<noteq> None \<longrightarrow>
      (if mr_created_at mr \<noteq> None then
         (\<exists>m t. from_base_message E mk v (s, m0) = (Ret (), (t, m)) \<and>
           message_of_first_row E (mr # mrs) s = (Ret (Some m), t))
       else \<exists>m. from_base_message E mk v (s, m0) = (Ret (), (s, m)) \<and>
           m_created_at m = m_created_at m0))"
proof (intro conjI impI)
  assume "delivers_message v mr \<and> mr_id mr = Some j \<and> mr_room_id mr \<noteq> None \<and>
      mr_sender_id mr \<noteq> None \<and> mr_content mr \<noteq> None"
  then obtain rid sid body where m: "delivers_message v mr" "mr_id mr = Some j"
    "mr_room_id mr = Some rid" "mr_sender_id mr = Some sid" "mr_content mr = Some body" by blast
  show "if mr_created_at mr \<noteq> None then
         (\<exists>m t. from_base_message E mk v (s, m0) = (Ret (), (t, m)) \<and>
           message_of_first_row E (mr # mrs) s = (Ret (Some m), t))
       else \<exists>m. from_base_message E mk v (s, m0) = (Ret (), (s, m)) \<and>
           m_created_at m = m_created_at m0"
    using message_conversion [OF m, of E mk s m0] by auto
qed (use user_conversion [of v ur i _ _ _ E mk s u0 urs] room_conversion [of v rr i E mk s rrs] in auto)

definition ref_values :: row_values where
  "ref_values =
     \<lparr>va_indicator = (\<lambda>name. Inr (if name = ''created_at'' then I_null else I_ok)),
      va_int = (\<lambda>_. Inr 3), va_long_long = (\<lambda>_. Inr 3), va_string = (\<lambda>name. Inr name),
      va_tm = (\<lambda>_. Inl (Soci_error (Other_category 0)))\<rparr>"

lemma conversions_agree_witness:
  "\<forall>E s mk. \<exists>u t. from_base_user E mk ref_values (s :: nat data_state, new_user 0) = (Ret (), (t, u)) \<and>
    u_username u = ''username'' \<and> user_of_first_row E [\<lparr>ur_id = Some 3, ur_username = Some ''username'',
      ur_hashed_password = Some ''hashed_password'', ur_salt = Some ''salt'', ur_created_at = None\<rparr>] s
      = (Ret (Some u), t)"
proof (intro allI)
  fix E :: "nat env" and s :: "nat data_state" and mk
  let ?r = "\<lparr>ur_id = Some 3, ur_username = Some ''username'',
      ur_hashed_password = Some ''hashed_password'', ur_salt = Some ''salt'', ur_created_at = None\<rparr>"
  have "delivers_user ref_values ?r" by (simp add: delivers_user_def delivers_def ref_values_def)
  with conversions_agree [of ref_values ?r 3 E mk s "new_user 0" "[]", THEN conjunct1]
  obtain u t where "from_base_user E mk ref_values (s, new_user 0) = (Ret (), (t, u))"
    "user_of_first_row E [?r] s = (Ret (Some u), t)" by auto
  moreover from this(2) have "u_username u = ''username''"
    by (auto simp: user_of_first_row_def created_or_now_def read_clock_def cbind_def creturn_def)
  ultimately show "\<exists>u t. from_base_user E mk ref_values (s, new_user 0) = (Ret (), (t, u)) \<and>
    u_username u = ''username'' \<and> user_of_first_row E [?r] s = (Ret (Some u), t)" by blast
qed

text \<open>C40. A creation time delivered as text. When the column cannot be read as a \<open>std::tm\<close> and comes as
  the text of a date, exactly the fields of the date are read back out of the text, the conversion
  returns without reading the clock, and the entity gets what \<open>mktime\<close> makes of these fields as
  standard time (\<open>mk\<close>: the \<open>tm\<close> filled from text has \<open>tm_isdst\<close> 0); nothing else changes. The same date
  delivered as a \<open>std::tm\<close> gives what \<open>mktime\<close> makes of the \<open>tm\<close> that SOCI filled, so the two agree on a
  date for which the two calls do, and only then up to the resolution of \<open>from_time_t\<close>.\<close>

theorem text_timestamp_read:
  assumes "date_ok t"
    and "va_tm v ''created_at'' = Inl x" "va_string v ''created_at'' = Inr (date_text t)"
    and "va_tm v' ''created_at'' = Inr t"
  shows "scan_date (date_text t) = Some (Some t) \<and>
    created_from_row E mk v f (s, e) = (Ret (), (s, f (from_time_t (e_tps E) (mk t)) e)) \<and>
    created_from_row E mk v' f (s, e) = (Ret (), (s, f (from_time_t (e_tps E) (e_mktime E t)) e))"
  using created_from_text [OF assms(2,3), of E mk f s e] scan_date_text [OF assms(1)]
    created_from_tm [OF assms(4), of E mk f s e] by simp

definition ref_date :: tm where
  "ref_date = \<lparr>tm_sec = 7, tm_min = 5, tm_hour = 13, tm_mday = 9, tm_mon = 1, tm_year = 124\<rparr>"

text \<open>Where the clocks are an hour ahead in February, the text gives an hour later than the \<open>std::tm\<close>.\<close>

lemma text_timestamp_read_witness:
  "\<exists>v v'. va_string v ''created_at'' = Inr ''2024-02-09 13:05:07'' \<and> va_tm v' ''created_at'' = Inr ref_date \<and>
     (\<forall>E f s e. created_from_row (E :: nat env) (\<lambda>t. e_mktime E t + 3600) v f (s :: nat data_state, e :: user) =
        (Ret (), (s, f (from_time_t (e_tps E) (e_mktime E ref_date + 3600)) e)) \<and>
      created_from_row E (\<lambda>t. e_mktime E t + 3600) v' f (s, e) =
        (Ret (), (s, f (from_time_t (e_tps E) (e_mktime E ref_date)) e)))"
proof -
  let ?v = "ref_values\<lparr>va_string := \<lambda>_. Inr (date_text ref_date)\<rparr>"
  let ?w = "ref_values\<lparr>va_tm := \<lambda>_. Inr ref_date\<rparr>"
  have shown: "date_text ref_date = ''2024-02-09 13:05:07''"
    by code_simp
  have ok: "date_ok ref_date" by (simp add: date_ok_def ref_date_def)
  have v: "va_string ?v ''created_at'' = Inr ''2024-02-09 13:05:07''" by (simp add: shown)
  have w: "va_tm ?w ''created_at'' = Inr ref_date" by simp
  have x: "va_tm ?v ''created_at'' = Inl (Soci_error (Other_category 0))" by (simp add: ref_values_def)
  have "created_from_row (E :: nat env) (\<lambda>t. e_mktime E t + 3600) ?v f (s :: nat data_state, e :: user) =
        (Ret (), (s, f (from_time_t (e_tps E) (e_mktime E ref_date + 3600)) e)) \<and>
      created_from_row E (\<lambda>t. e_mktime E t + 3600) ?w f (s, e) =
        (Ret (), (s, f (from_time_t (e_tps E) (e_mktime E ref_date)) e))" for E f s e
    using text_timestamp_read [OF ok x _ w, of E "\<lambda>t. e_mktime E t + 3600" f s e] by simp
  with v w show ?thesis by blast
qed

end
