(* ===== verification/Pool_Threads.thy ===== *)
theory Pool_Threads
  imports Connection_Pool
begin

text \<open>
  The connection pool under the threads of the \<open>io_context\<close>. \<open>main\<close> runs the loop on a fixed number
  of threads. A thread is idle, runs a handler, waits in \<open>getConnection\<close>, or holds the connection of
  a scope; the replenishing handler is one more handler that an idle thread has to take. A waiting
  thread goes on as soon as the pool has a connection (the predicate of \<open>cv.wait\<close>). The operations
  on the pool are those of \<open>Connection_Pool\<close>, each of which holds the pool's lock; what handlers do
  between their scopes does not matter here.
\<close>

datatype worker = Idle | Working | Waits | is_Holds: Holds conn

datatype crew_event =
    Take nat
  | Finish nat
  | Ask nat
  | Wake nat
  | Release nat bool
  | Replenish_by nat bool

type_synonym crew = "pool \<times> worker list"

inductive crew_step :: "connector \<Rightarrow> crew_event \<Rightarrow> crew \<Rightarrow> crew \<Rightarrow> bool" for connect where
  crew_take:
    "i < length ws \<Longrightarrow> ws ! i = Idle \<Longrightarrow> crew_step connect (Take i) (p, ws) (p, ws[i := Working])"
| crew_finish:
    "i < length ws \<Longrightarrow> ws ! i = Working \<Longrightarrow> crew_step connect (Finish i) (p, ws) (p, ws[i := Idle])"
| crew_ask_free:
    "i < length ws \<Longrightarrow> ws ! i = Working \<Longrightarrow> getConnection p = (Ret c, p') \<Longrightarrow>
     crew_step connect (Ask i) (p, ws) (p', ws[i := Holds c])"
| crew_ask_empty:
    "i < length ws \<Longrightarrow> ws ! i = Working \<Longrightarrow> getConnection p = (Block, p') \<Longrightarrow>
     crew_step connect (Ask i) (p, ws) (p', ws[i := Waits])"
| crew_wake:
    "i < length ws \<Longrightarrow> ws ! i = Waits \<Longrightarrow> getConnection p = (Ret c, p') \<Longrightarrow>
     crew_step connect (Wake i) (p, ws) (p', ws[i := Holds c])"
| crew_release:
    "i < length ws \<Longrightarrow> ws ! i = Holds c \<Longrightarrow>
     crew_step connect (Release i is_valid) (p, ws) (wrapper_destroy c is_valid p, ws[i := Working])"
| crew_replenish:
    "i < length ws \<Longrightarrow> ws ! i = Idle \<Longrightarrow> 0 < cp_pending p \<Longrightarrow>
     replenish_task connect p = (p', ok) \<Longrightarrow>
     crew_step connect (Replenish_by i ok) (p, ws) (p', ws)"

inductive crew_run :: "connector \<Rightarrow> crew_event list \<Rightarrow> crew \<Rightarrow> crew \<Rightarrow> bool" for connect where
  run_none: "crew_run connect [] c c"
| run_more: "crew_step connect ev c c' \<Longrightarrow> crew_run connect evs c' c'' \<Longrightarrow> crew_run connect (ev # evs) c c''"

inductive_cases crew_stepE: "crew_step connect ev (p, ws) c"
inductive_cases crew_run_NilE: "crew_run connect [] c c'"
inductive_cases crew_run_ConsE: "crew_run connect (ev # evs) c c'"

lemma crew_run_append:
  "crew_run connect evs c c' \<Longrightarrow> crew_run connect evs' c' c'' \<Longrightarrow> crew_run connect (evs @ evs') c c''"
  by (induction rule: crew_run.induct) (auto intro: run_more)

lemma crew_run_one: "crew_step connect ev c c' \<Longrightarrow> crew_run connect [ev] c c'"
  by (rule run_more [OF _ run_none])

section \<open>Accounts\<close>

definition holders :: "worker list \<Rightarrow> nat" where
  "holders ws = length (filter is_Holds ws)"

definition failed :: "crew_event list \<Rightarrow> nat" where
  "failed evs = length (filter (\<lambda>ev. \<exists>i. ev = Replenish_by i False) evs)"

lemma failed_simps [simp]:
  "failed [] = 0" "failed (evs @ evs') = failed evs + failed evs'"
  "failed (Take i # evs) = failed evs" "failed (Finish i # evs) = failed evs"
  "failed (Ask i # evs) = failed evs" "failed (Wake i # evs) = failed evs"
  "failed (Release i v # evs) = failed evs"
  "failed (Replenish_by i ok # evs) = (if ok then failed evs else Suc (failed evs))"
  by (simp_all add: failed_def)

lemma holders_update:
  "i < length ws \<Longrightarrow>
   holders (ws[i := w]) + (if is_Holds (ws ! i) then 1 else 0) = holders ws + (if is_Holds w then 1 else 0)"
proof -
  assume i: "i < length ws"
  have "ws = take i ws @ ws ! i # drop (Suc i) ws" using i by (rule id_take_nth_drop)
  then have "holders ws = holders (take i ws) + holders [ws ! i] + holders (drop (Suc i) ws)"
    by (metis (no_types, lifting) add.assoc append.left_neutral append_Cons filter_append holders_def length_append)
  moreover have "holders (ws[i := w]) = holders (take i ws) + holders [w] + holders (drop (Suc i) ws)"
    using i by (simp add: upd_conv_take_nth_drop holders_def)
  ultimately show ?thesis by (simp add: holders_def)
qed

lemma getConnection_Block: "getConnection p = (Block, p') \<longleftrightarrow> cp_free p = [] \<and> p' = p"
  by (auto simp: getConnection_def)

lemma crew_step_account:
  assumes "crew_step connect ev (p, ws) (q, us)"
  shows "capacity q + holders us + failed [ev] = capacity p + holders ws \<and> length us = length ws"
  using assms
proof (cases rule: crew_step.cases)
  case (crew_take i)
  then show ?thesis using holders_update [of i ws Working] by simp
next
  case (crew_finish i)
  then show ?thesis using holders_update [of i ws Idle] by simp
next
  case (crew_ask_free i c)
  then show ?thesis using holders_update [of i ws "Holds c"] capacity_getConnection [of p c q] by simp
next
  case (crew_ask_empty i)
  then show ?thesis using holders_update [of i ws Waits] by (simp add: getConnection_Block)
next
  case (crew_wake i c)
  then show ?thesis using holders_update [of i ws "Holds c"] capacity_getConnection [of p c q] by simp
next
  case (crew_release i c v)
  then show ?thesis using holders_update [of i ws Working] by simp
next
  case (crew_replenish i ok)
  then show ?thesis using capacity_replenish [of p connect q ok] by (cases ok) simp_all
qed

lemma crew_run_account:
  "crew_run connect evs c c' \<Longrightarrow>
   capacity (fst c') + holders (snd c') + failed evs = capacity (fst c) + holders (snd c) \<and>
   length (snd c') = length (snd c)"
proof (induction rule: crew_run.induct)
  case (run_more ev c c' evs c'')
  have "failed (ev # evs) = failed [ev] + failed evs" by (cases ev) simp_all
  with run_more crew_step_account [of connect ev "fst c" "snd c" "fst c'" "snd c'"] show ?case by simp
qed simp

text \<open>A crew with nothing left: no connection, none promised, none held.\<close>

lemma spent_step:
  assumes "crew_step connect ev (p, ws) (q, us)" "capacity p + holders ws = 0"
  shows "capacity q + holders us = 0 \<and> (ws ! i = Waits \<longrightarrow> us ! i = Waits)"
proof -
  have none: "cp_free p = []" using assms(2) by (simp add: capacity_def)
  from assms(1) have "ws ! i = Waits \<longrightarrow> us ! i = Waits"
    by (cases rule: crew_step.cases) (auto simp: none getConnection_def nth_list_update)
  with crew_step_account [OF assms(1)] assms(2) show ?thesis by simp
qed

lemma spent_run:
  "crew_run connect evs c c' \<Longrightarrow> capacity (fst c) + holders (snd c) = 0 \<Longrightarrow>
   capacity (fst c') + holders (snd c') = 0 \<and> (snd c ! i = Waits \<longrightarrow> snd c' ! i = Waits)"
proof (induction rule: crew_run.induct)
  case (run_more ev c c' evs c'')
  with spent_step [of connect ev "fst c" "snd c" "fst c'" "snd c'" i] show ?case by simp
qed simp

section \<open>A deadlock\<close>

text \<open>One worker breaks all connections of the pool, one after the other.\<close>

lemma break_all:
  "\<exists>evs q. crew_run connect evs (p, Working # ws) (q, Working # ws) \<and> failed evs = 0 \<and>
     cp_free q = [] \<and> cp_pending q = cp_pending p + length (cp_free p) \<and>
     cp_connectionString q = cp_connectionString p"
proof (induction "length (cp_free p)" arbitrary: p)
  case 0
  then show ?case by (intro exI [of _ "[]"] exI [of _ p]) (auto intro: run_none)
next
  case (Suc k)
  let ?c = "last (cp_free p)"
  let ?p = "p\<lparr>cp_free := butlast (cp_free p)\<rparr>"
  let ?q = "wrapper_destroy ?c False ?p"
  have free: "cp_free p \<noteq> []" using Suc.hyps(2) by auto
  then have got: "getConnection p = (Ret ?c, ?p)" by (simp add: getConnection_def)
  have "crew_step connect (Ask 0) (p, Working # ws) (?p, (Working # ws)[0 := Holds ?c])"
    by (rule crew_ask_free [OF _ _ got]) simp_all
  moreover have "crew_step connect (Release 0 False) (?p, Holds ?c # ws) (?q, (Holds ?c # ws)[0 := Working])"
    by (rule crew_release) simp_all
  ultimately have two: "crew_run connect [Ask 0, Release 0 False] (p, Working # ws) (?q, Working # ws)"
    by (auto intro!: run_more run_none)
  have q: "cp_free ?q = butlast (cp_free p)" "cp_pending ?q = Suc (cp_pending p)"
    "cp_connectionString ?q = cp_connectionString p"
    by (simp_all add: wrapper_destroy_def replenishConnectionAsync_def)
  have "k = length (cp_free ?q)" using Suc.hyps(2) by (simp add: q)
  from Suc.hyps(1) [OF this] obtain evs r where r: "crew_run connect evs (?q, Working # ws) (r, Working # ws)"
    "failed evs = 0" "cp_free r = []" "cp_pending r = cp_pending ?q + length (cp_free ?q)"
    "cp_connectionString r = cp_connectionString ?q" by blast
  have "crew_run connect ([Ask 0, Release 0 False] @ evs) (p, Working # ws) (r, Working # ws)"
    by (rule crew_run_append [OF two r(1)])
  moreover have "cp_pending r = cp_pending p + length (cp_free p)"
    using r(4) q Suc.hyps(2) by simp
  ultimately show ?case using r q by (intro exI conjI) (assumption | simp)+
qed

text \<open>Then every worker asks for one.\<close>

lemma all_wait:
  "cp_free q = [] \<Longrightarrow> \<exists>evs. crew_run connect evs (q, replicate m Waits @ replicate j Idle)
     (q, replicate (m + j) Waits) \<and> failed evs = 0"
proof (induction j arbitrary: m)
  case 0
  then show ?case by (intro exI [of _ "[]"]) (simp add: run_none)
next
  case (Suc j)
  let ?ws = "\<lambda>w. replicate m Waits @ w # replicate j Idle"
  have empty: "getConnection q = (Block, q)" using Suc.prems by (simp add: getConnection_def)
  have "crew_step connect (Take m) (q, ?ws Idle) (q, (?ws Idle)[m := Working])"
    by (rule crew_take) (simp_all add: nth_append)
  moreover have "crew_step connect (Ask m) (q, ?ws Working) (q, (?ws Working)[m := Waits])"
    by (rule crew_ask_empty [OF _ _ empty]) (simp_all add: nth_append)
  moreover have "?ws Waits = replicate (Suc m) Waits @ replicate j Idle"
    by (simp add: replicate_append_same [symmetric] flip: append_assoc)
  ultimately have "crew_run connect [Take m, Ask m] (q, ?ws Idle) (q, replicate (Suc m) Waits @ replicate j Idle)"
    by (auto simp: list_update_append intro!: run_more run_none)
  moreover obtain evs where more: "crew_run connect evs (q, replicate (Suc m) Waits @ replicate j Idle)
      (q, replicate (Suc m + j) Waits)" and ok: "failed evs = 0"
    using Suc.IH [OF Suc.prems, of "Suc m"] by blast
  ultimately have "crew_run connect ([Take m, Ask m] @ evs) (q, ?ws Idle) (q, replicate (Suc m + j) Waits)"
    using crew_run_append [OF _ more] by blast
  with ok show ?case by (intro exI [of _ "[Take m, Ask m] @ evs"]) simp
qed

section \<open>Properties\<close>

text \<open>C8. A failed replenishment loses its connection for good. However many threads run, whatever
  their handlers do, and whenever the replenishing handlers run: the connections in the pool, those
  promised to it, those held by threads, and the failed attempts to replenish add up to what the
  pool had at the start. So once as many attempts have failed, no thread ever holds a connection
  again, and a thread that waits for one waits in every later state.\<close>

theorem failed_replenishment_lost:
  assumes "crew_run connect evs (p, replicate n Idle) (q, ws)"
  shows "capacity q + holders ws + failed evs = capacity p \<and>
    (failed evs = capacity p \<longrightarrow>
      (\<forall>evs' q' ws'. crew_run connect evs' (q, ws) (q', ws') \<longrightarrow>
         holders ws' = 0 \<and> cp_free q' = [] \<and> (\<forall>i. ws ! i = Waits \<longrightarrow> ws' ! i = Waits)))"
proof -
  have a: "capacity q + holders ws + failed evs = capacity p"
    using crew_run_account [OF assms] by (simp add: holders_def)
  have "holders ws' = 0 \<and> cp_free q' = [] \<and> (ws ! i = Waits \<longrightarrow> ws' ! i = Waits)"
    if "failed evs = capacity p" "crew_run connect evs' (q, ws) (q', ws')" for evs' q' ws' i
    using spent_run [OF that(2), of i] a that(1) by (auto simp: capacity_def)
  with a show ?thesis by blast
qed

definition connects_once :: connector where
  "connects_once str n = (if n = 0 then Inr 0 else Inl (Soci_error Connection_error))"

lemma failed_replenishment_lost_witness:
  "\<exists>p q. init connects_once ''db'' 1 (initInstance no_pool) = (Ret (), p) \<and>
     crew_run connects_once
       [Take 0, Ask 0, Take 1, Ask 1, Release 0 False, Finish 0, Replenish_by 0 False]
       (p, replicate 2 Idle) (q, [Idle, Waits]) \<and>
     capacity q + holders [Idle, Waits] + 1 = capacity p"
proof -
  let ?p = "\<lparr>cp_instance = True, cp_free = [0], cp_connectionString = ''db'', cp_poolSize = 1,
    cp_pending = 0, cp_attempts = 1\<rparr>"
  let ?q = "?p\<lparr>cp_free := [], cp_attempts := 2\<rparr>"
  let ?evs = "[Take 0, Ask 0, Take 1, Ask 1, Release 0 False, Finish 0, Replenish_by 0 False]"
  have p: "init connects_once ''db'' 1 (initInstance no_pool) = (Ret (), ?p)"
    by (simp add: init_def initInstance_def no_pool_def connect_once_def connects_once_def)
  have run: "crew_run connects_once ?evs (?p, replicate 2 Idle) (?q, [Idle, Waits])"
    by (rule run_more, rule crew_take, simp, simp, rule run_more, rule crew_ask_free, simp, simp,
        simp add: getConnection_def, rule run_more, rule crew_take, simp, simp, rule run_more,
        rule crew_ask_empty, simp, simp, simp add: getConnection_def, rule run_more,
        rule crew_release, simp, simp, rule run_more, rule crew_finish, simp, simp, rule run_more,
        rule crew_replenish, simp, simp, simp add: wrapper_destroy_def replenishConnectionAsync_def,
        simp add: wrapper_destroy_def replenishConnectionAsync_def replenish_task_def
          connect_once_def connects_once_def)
      (simp add: run_none numeral_2_eq_2)
  from failed_replenishment_lost [OF run] have "capacity ?q + holders [Idle, Waits] + 1 = capacity ?p"
    by simp
  with p run show ?thesis by blast
qed

text \<open>C30. All threads can wait for each other. Take any number of threads and any freshly initialised
  pool. There is a run without a single failed replenishment at whose end every thread waits for a
  connection, although a replacement has been promised for each one: the replenishing handlers need
  a thread to run on. In that state nothing can happen any more. It is the threads that are missing:
  with one idle thread more, and a database that can be connected to, a waiting thread gets a
  connection.\<close>

theorem crew_deadlock:
  assumes "init connect str sz (initInstance no_pool) = (Ret (), p)" "0 < sz" "0 < n"
  shows "\<exists>evs q. crew_run connect evs (p, replicate n Idle) (q, replicate n Waits) \<and> failed evs = 0 \<and>
    cp_pending q = nat sz \<and> (\<forall>ev c. \<not> crew_step connect ev (q, replicate n Waits) c) \<and>
    (\<forall>c. connect str (cp_attempts q) = Inr c \<longrightarrow>
       (\<exists>q'. crew_run connect [Replenish_by 0 True, Wake 1] (q, Idle # replicate n Waits)
          (q', Idle # Holds c # replicate (n - 1) Waits)))"
proof -
  obtain m where n: "n = Suc m" using assms(3) by (cases n) auto
  have p: "length (cp_free p) = nat sz" "cp_pending p = 0" "cp_connectionString p = str"
    by (rule init_fresh [OF assms(1)])+
  obtain evs q where run: "crew_run connect evs (p, Working # replicate m Idle) (q, Working # replicate m Idle)"
    and q: "failed evs = 0" "cp_free q = []" "cp_pending q = nat sz" "cp_connectionString q = str"
    using break_all [of connect p "replicate m Idle"] p by auto
  obtain evs' where run': "crew_run connect evs' (q, [Waits] @ replicate m Idle) (q, replicate n Waits)"
    "failed evs' = 0" using all_wait [OF q(2), of connect 1 m] n by auto
  have take: "crew_step connect (Take 0) (p, Idle # replicate m Idle) (p, (Idle # replicate m Idle)[0 := Working])"
    by (rule crew_take) simp_all
  have empty: "getConnection q = (Block, q)" using q(2) by (simp add: getConnection_def)
  have ask: "crew_step connect (Ask 0) (q, Working # replicate m Idle) (q, (Working # replicate m Idle)[0 := Waits])"
    by (rule crew_ask_empty [OF _ _ empty]) simp_all
  have "crew_run connect (Take 0 # evs @ Ask 0 # evs') (p, replicate n Idle) (q, replicate n Waits)"
    using take ask run run' n by (auto intro!: run_more crew_run_append)
  moreover have "failed (Take 0 # evs @ Ask 0 # evs') = 0" using q(1) run'(2) by simp
  moreover have "\<not> crew_step connect ev (q, replicate n Waits) c" for ev c
    using empty by (auto elim: crew_step.cases)
  moreover have "\<exists>q'. crew_run connect [Replenish_by 0 True, Wake 1] (q, Idle # replicate n Waits)
      (q', Idle # Holds c # replicate (n - 1) Waits)" if c: "connect str (cp_attempts q) = Inr c" for c
  proof -
    let ?r = "fst (replenish_task connect q)"
    have r: "replenish_task connect q = (?r, True)" "cp_free ?r = [c]"
      using c q by (simp_all add: replenish_task_def connect_once_def returnConnection_def)
    have "crew_step connect (Replenish_by 0 True) (q, Idle # replicate n Waits) (?r, Idle # replicate n Waits)"
      by (rule crew_replenish [OF _ _ _ r(1)]) (use q assms(2) in simp_all)
    moreover have got: "getConnection ?r = (Ret c, ?r\<lparr>cp_free := []\<rparr>)" using r(2) by (simp add: getConnection_def)
    have "crew_step connect (Wake 1) (?r, Idle # replicate n Waits)
        (?r\<lparr>cp_free := []\<rparr>, (Idle # replicate n Waits)[1 := Holds c])"
      by (rule crew_wake [OF _ _ got]) (simp_all add: n)
    ultimately show ?thesis by (auto simp: n intro!: run_more run_none)
  qed
  ultimately show ?thesis using q(3) by blast
qed

lemma crew_deadlock_witness:
  "\<exists>p evs q. init (\<lambda>s n. Inr n) ''db'' 2 (initInstance no_pool) = (Ret (), p) \<and>
     crew_run (\<lambda>s n. Inr n) evs (p, replicate 4 Idle) (q, replicate 4 Waits) \<and> cp_pending q = 2"
proof -
  let ?c = "\<lambda>s n. Inr n :: exn + conn"
  obtain p where p: "init ?c ''db'' 2 (initInstance no_pool) = (Ret (), p)"
    by (simp add: init_def initInstance_def no_pool_def connect_once_def numeral_2_eq_2)
  from crew_deadlock [OF p, of 4] show ?thesis using p by auto
qed

end
