(* ===== verification/Stale_Logins.thy ===== *)
theory Stale_Logins
  imports Server_Facts
begin

text \<open>
  What a second login on one connection leaves behind. \<open>handleLogin\<close> does not ask whether the session
  is logged in already, and \<open>registerAuthenticatedSession\<close> only adds entries; \<open>remove\<close> and
  \<open>handleDisconnect\<close> look at the session's latest identity alone.
\<close>

section \<open>A second login\<close>

lemma login_adds_entries:
  assumes "server_ok E V s" and "userId (ss_session s i) = Some uid"
    and "handleLogin E (MySQLUserRepository E) i req s = (out, t)"
    and "userId (ss_session t i) = Some uid'" "uid' \<noteq> uid" "username (ss_session t i) = Some n'"
  shows "server_ok E V t \<and> place t = place s \<and> isAuthenticated (ss_session t i) \<and>
    ss_byUserId t = (ss_byUserId s)(uid' \<mapsto> i) \<and> ss_byUsername t = (ss_byUsername s)(n' \<mapsto> i)"
proof -
  have s: "db_ok E V (ds_db s)" using assms(1) by (auto simp: server_ok_def dest: service_okD)
  have "server_ok E V t \<and> place t = place s"
    using mysql_chat.login_ok [OF assms(1) [unfolded server_ok_def] assms(3)] by (simp add: server_ok_def)
  moreover have changed: "\<not> same_login s t" using assms(2,4,5) by (auto simp: same_login_def)
  obtain u :: user where
    u: "ss_session t i = setAuthenticated (u_id u) (u_username u) (ss_session s i)"
    "ss_byUserId t = (ss_byUserId s)(u_id u \<mapsto> i)" "ss_byUsername t = (ss_byUsername s)(u_username u \<mapsto> i)"
    using mysql_users.login_result [OF s assms(3)] changed by blast
  moreover from u(1) assms(4,6) have "u_id u = uid'" "u_username u = n'"
    by (simp_all add: setAuthenticated_def)
  ultimately show ?thesis by simp
qed

lemma disconnect_registry:
  assumes "rooms_wf (rs_activeRooms s)" "isAuthenticated (ss_session s i)"
    "userId (ss_session s i) = Some uid" "username (ss_session s i) = Some n"
  shows "ss_byUserId (snd (handleDisconnect i s)) = ss_byUserId s \<and>
    ss_byUsername (snd (handleDisconnect i s)) = ss_byUsername s"
proof (cases "rs_userToRoom s uid")
  case None
  then show ?thesis
    by (simp add: handleDisconnect_def session_authenticated_bind assms(2)
        session_getter_bind(1) [OF assms(3)])
next
  case (Some r)
  show ?thesis by (simp add: disconnect_run [OF assms Some])
qed

text \<open>The end of a connection takes away the latest identity of its session, and nothing else.\<close>

lemma disconnect_takes_latest:
  assumes "server_ok E V s" "isAuthenticated (ss_session s i)" "userId (ss_session s i) = Some uid"
    "username (ss_session s i) = Some n"
  shows "\<exists>t. cthen (handleDisconnect i) (manager_remove i) s = (Ret (), t) \<and>
    place t = (place s)(uid := None) \<and> ss_byUserId t = (ss_byUserId s)(uid := None) \<and>
    ss_byUsername t = (ss_byUsername s)(n := None)"
proof -
  have wf: "rooms_wf (rs_activeRooms s)" using assms(1) by (simp add: server_ok_def service_okD)
  obtain u where u: "handleDisconnect i s = (Ret (), u)" "server_ok E V u" "ss_session u = ss_session s"
    "place u = (place s)(uid := None)"
    using mysql_chat.disconnect_result [OF assms(1) [unfolded server_ok_def] assms(2-4)]
    by (auto simp: server_ok_def)
  have same: "ss_byUserId u = ss_byUserId s" "ss_byUsername u = ss_byUsername s"
    using disconnect_registry [OF wf assms(2-4)] u(1) by simp_all
  have "registry_ok u" using u(2) by (simp add: server_ok_def service_okD)
  moreover have "place (u\<lparr>ss_byUserId := f, ss_byUsername := g, ss_sessions := js\<rparr>) = place u" for f g js
    by (simp add: place_def [abs_def] cong: option.case_cong)
  ultimately show ?thesis
    using assms(3,4) u(3)
    by (simp add: cthen_apply [of "handleDisconnect i", OF u(1)] remove_run u(4) same)
qed

section \<open>Properties\<close>

text \<open>C25. A second login on one connection leaves the first user's name with the session of the second.
  Take any state that satisfies the invariant, and a session that is registered for a user. If it then
  logs in as another user, then private messages to the first user's name, from any session in a room
  that is not the second user's, are handed to this session, which is now the second user's. And after
  the connection has ended, the name and the id of the first user are still registered for it, and the
  first user's place in a room is still taken.\<close>

theorem relogin_misdelivers:
  assumes "server_ok E V s" and "userId (ss_session s i) = Some uid"
    and "ss_byUserId s uid = Some i" "ss_byUsername s n = Some i"
    and "handleLogin E (MySQLUserRepository E) i req s = (out, t)"
    and "userId (ss_session t i) = Some uid'" "username (ss_session t i) = Some n'" "uid' \<noteq> uid" "n' \<noteq> n"
  shows "(\<forall>k w m r psst. isAuthenticated (ss_session t k) \<and> userId (ss_session t k) = Some w \<and>
      username (ss_session t k) = Some m \<and> w \<noteq> uid' \<and> rs_userToRoom t w = Some r \<and> r \<noteq> [] \<and>
      vq_to_username psst = n \<longrightarrow>
      (\<exists>u. handlePrivateMessage E k psst t = (Ret (), u) \<and>
        ss_outbox u i = ss_outbox t i @
          [chat_envelope w m (vq_content psst) r (e_proto_now E (ds_clock t))])) \<and>
    (\<exists>u. cthen (handleDisconnect i) (manager_remove i) t = (Ret (), u) \<and>
      ss_byUserId u uid = Some i \<and> ss_byUsername u n = Some i \<and> place u uid = place s uid)"
proof -
  from login_adds_entries [OF assms(1,2,5,6,8,7)]
  have t: "server_ok E V t" "place t = place s" "isAuthenticated (ss_session t i)"
    "ss_byUserId t uid = Some i" "ss_byUsername t n = Some i" using assms(3,4,8,9) by simp_all
  have reg: "registry_ok t" using t(1) by (simp add: server_ok_def service_okD)
  have "\<exists>u. handlePrivateMessage E k psst t = (Ret (), u) \<and> ss_outbox u i = ss_outbox t i @
      [chat_envelope w m (vq_content psst) r (e_proto_now E (ds_clock t))]"
    if k: "isAuthenticated (ss_session t k)" "userId (ss_session t k) = Some w"
      "username (ss_session t k) = Some m" and room: "rs_userToRoom t w = Some r" "r \<noteq> []"
      and "w \<noteq> uid'" "vq_to_username psst = n" for k w m r psst
  proof -
    have "k \<noteq> i" using k(2) assms(6) \<open>w \<noteq> uid'\<close> by auto
    with private_message_run [OF reg k room, of E psst] t(5) that(6,7) assms(6)
    show ?thesis by (simp add: Let_def cthen_def cbind_def session_send_apply)
  qed
  moreover have "\<exists>u. cthen (handleDisconnect i) (manager_remove i) t = (Ret (), u) \<and>
      ss_byUserId u uid = Some i \<and> ss_byUsername u n = Some i \<and> place u uid = place s uid"
    using disconnect_takes_latest [OF t(1,3) assms(6,7)] t assms(8,9) by auto
  ultimately show ?thesis by blast
qed

text \<open>Ann's session logs in as bob.\<close>

lemma relogin_misdelivers_witness:
  "\<exists>out t. handleLogin ref_env (MySQLUserRepository ref_env) 0
       \<lparr>lq_username = ''bob'', lq_password = ''hunter''\<rparr> ref_service = (out, t) \<and>
     userId (ss_session t 0) = Some 2 \<and>
     (\<exists>u. cthen (handleDisconnect 0) (manager_remove 0) t = (Ret (), u) \<and>
       ss_byUsername u ''ann'' = Some 0 \<and> place u 1 = Some (''lobby'', 0))"
proof -
  let ?r = "handleLogin ref_env (MySQLUserRepository ref_env) 0
    \<lparr>lq_username = ''bob'', lq_password = ''hunter''\<rparr> ref_service"
  have t: "userId (ss_session (snd ?r) 0) = Some 2" "username (ss_session (snd ?r) 0) = Some ''bob''"
    by (simp_all add: auth_run register_run ref_service_def repo_run ref_run)
  have regs: "ss_byUserId ref_service 1 = Some 0" "ss_byUsername ref_service ''ann'' = Some 0"
    by (simp_all add: ref_service_def)
  note p = relogin_misdelivers [OF ref_service_ok [OF ref_db_ok(1)] ref_service_sessions(3) regs
      prod.collapse [symmetric] t, THEN conjunct2]
  have "\<exists>u. cthen (handleDisconnect 0) (manager_remove 0) (snd ?r) = (Ret (), u) \<and>
      ss_byUsername u ''ann'' = Some 0 \<and> place u 1 = Some (''lobby'', 0)"
    using p by (auto simp: ref_service_place)
  with t(1) show ?thesis by (intro exI [of _ "fst ?r"] exI [of _ "snd ?r"]) simp
qed

end
