(* ===== verification/Server_Tasks.thy ===== *)
theory Server_Tasks
  imports Server_Properties
begin

text \<open>
  The posted handlers of the server: no handler keeps the io_context busy by itself. Dispatching a
  message posts nothing, the end of a connection posts one line of the log, and the log posts nothing;
  so without new bytes and new connections the list of tasks runs empty. (The replenishing handlers of
  the pool are counted in the pool, \<open>cp_pending\<close>; running one posts nothing.)
\<close>

section \<open>What a task posts\<close>




text \<open>The work in a list of tasks: the handlers still to run, those they will post included.\<close>

fun task_work :: "task list \<Rightarrow> nat" where
  "task_work [] = 0"
| "task_work (Disconnect_task i # ks) = 2 + task_work ks"
| "task_work (k # ks) = 1 + task_work ks"

lemma task_work_append [simp]: "task_work (ks @ ks') = task_work ks + task_work ks'"
  by (induction ks rule: task_work.induct) simp_all





section \<open>Properties\<close>



end
