(* ===== verification/Server_Main.thy ===== *)
theory Server_Main
  imports Server_Properties Pool_Threads
begin

text \<open>
  \<open>server/src/main.cpp\<close> and \<open>server/src/util/ConfigManager\<close>: how the server comes up. The configuration
  file is read and parsed, the pool is filled, the acceptor opens its port, and the threads of the
  io_context start; any exception before that ends the process with 1. Parameters are the JSON library
  (what a document, a member and a number of it are), the constructor of \<open>soci::session\<close>, the opening
  of the acceptor and the starting of a thread. Lines for \<open>std::cout\<close> and \<open>std::cerr\<close> are left out.
\<close>

section \<open>The configuration\<close>

text \<open>\<open>nlohmann::json\<close>: \<open>parse\<close> (nothing: a \<open>parse_error\<close>), \<open>at\<close>, \<open>get\<close> at three types, and \<open>value\<close> with a
  default of type \<open>int\<close>.\<close>

record 'j json_api =
  js_null :: 'j
  js_parse :: "string \<Rightarrow> 'j option"
  js_at :: "'j \<Rightarrow> string \<Rightarrow> exn + 'j"
  js_get_string :: "'j \<Rightarrow> exn + string"
  js_get_int :: "'j \<Rightarrow> exn + int32"
  js_get_unsigned_short :: "'j \<Rightarrow> exn + 16 word"
  js_value_int :: "'j \<Rightarrow> string \<Rightarrow> int32 \<Rightarrow> exn + int32"

record 'j config_manager =
  cm_config :: 'j
  cm_isLoaded :: bool

definition new_config_manager :: "'j json_api \<Rightarrow> 'j config_manager" where
  "new_config_manager J = \<lparr>cm_config = js_null J, cm_isLoaded = False\<rparr>"

text \<open>The file is what can be read of it, or nothing when it does not open.\<close>

definition load :: "'j json_api \<Rightarrow> string option \<Rightarrow> 'j config_manager \<Rightarrow> bool \<times> 'j config_manager" where
  "load J file c =
     (case file of
        None \<Rightarrow> (False, c\<lparr>cm_isLoaded := False\<rparr>)
      | Some text \<Rightarrow>
          (case js_parse J text of
             Some config \<Rightarrow> (True, c\<lparr>cm_config := config, cm_isLoaded := True\<rparr>)
           | None \<Rightarrow> (False, c\<lparr>cm_isLoaded := False\<rparr>)))"

definition getConfig :: "'j config_manager \<Rightarrow> exn + 'j" where
  "getConfig c =
     (if \<not> cm_isLoaded c then Inl (Runtime_error ''Configuration has not been loaded.'')
      else Inr (cm_config c))"

section \<open>The main function\<close>

record main_state =
  ms_pool :: pool
  ms_port :: "16 word option"
  ms_threads :: nat

definition main_start :: main_state where
  "main_start = \<lparr>ms_pool = no_pool, ms_port = None, ms_threads = 0\<rparr>"

definition member_string :: "'j json_api \<Rightarrow> 'j \<Rightarrow> string \<Rightarrow> ('s, string) comp" where
  "member_string J db name = cbind (cfrom (js_at J db name)) (\<lambda>x. cfrom (js_get_string J x))"

definition connection_string :: "'j json_api \<Rightarrow> 'j \<Rightarrow> ('s, string) comp" where
  "connection_string J db_config =
     cbind (member_string J db_config ''dbname'') (\<lambda>dbname.
     cbind (member_string J db_config ''user'') (\<lambda>user.
     cbind (member_string J db_config ''password'') (\<lambda>password.
     cbind (member_string J db_config ''host'') (\<lambda>host.
     cbind (cfrom (js_at J db_config ''port'')) (\<lambda>x.
     cbind (cfrom (js_get_int J x)) (\<lambda>port.
     creturn (''db='' @ dbname @ '' '' @ ''user='' @ user @ '' '' @ ''password='' @ password @ '' '' @
       ''host='' @ host @ '' '' @ ''port='' @ to_string (scast port))))))))"

text \<open>A call on the pool, as a part of \<open>main\<close>.\<close>

definition on_pool :: "(pool \<Rightarrow> unit outcome \<times> pool) \<Rightarrow> (main_state, unit) comp" where
  "on_pool f s = (let (out, p) = f (ms_pool s) in (out, s\<lparr>ms_pool := p\<rparr>))"

text \<open>The constructor of \<open>Server\<close> opens the acceptor.\<close>

definition open_server :: "(16 word \<Rightarrow> exn option) \<Rightarrow> 16 word \<Rightarrow> (main_state, unit) comp" where
  "open_server bind port =
     (case bind port of
        Some e \<Rightarrow> cthrow e
      | None \<Rightarrow> cmodify (\<lambda>s. s\<lparr>ms_port := Some port\<rparr>))"

text \<open>
  The loop that starts the threads; \<open>spawn\<close> says whether the k-th start throws. The counter is an \<open>int\<close>
  that is compared with an \<open>unsigned int\<close>: after \<open>2 ^ 31\<close> turns it overflows.
\<close>

fun start_threads :: "(nat \<Rightarrow> exn option) \<Rightarrow> nat \<Rightarrow> nat \<Rightarrow> (main_state, unit) comp" where
  "start_threads spawn i 0 = creturn ()"
| "start_threads spawn i (Suc n) =
     (case spawn i of
        Some e \<Rightarrow> cthrow e
      | None \<Rightarrow>
          cthen (cmodify (\<lambda>s. s\<lparr>ms_threads := Suc (ms_threads s)\<rparr>))
            (if Suc i = 2 ^ 31 then cundef else start_threads spawn (Suc i) n))"

definition main_body ::
    "'j json_api \<Rightarrow> connector \<Rightarrow> (16 word \<Rightarrow> exn option) \<Rightarrow> (nat \<Rightarrow> exn option) \<Rightarrow>
     'j config_manager \<Rightarrow> (main_state, unit) comp" where
  "main_body J connect bind spawn c =
     cbind (cfrom (getConfig c)) (\<lambda>config.
     cbind (cfrom (js_at J config ''database'')) (\<lambda>db_config.
     cbind (connection_string J db_config) (\<lambda>conn_str.
     cthen (on_pool (\<lambda>p. (Ret (), initInstance p)))
     (cthen (on_pool (\<lambda>p. (getInstance p, p)))
     (cthen (on_pool (init connect conn_str 10))
     (cbind (cfrom (js_at J config ''server'')) (\<lambda>server.
     cbind (cfrom (js_at J server ''port'')) (\<lambda>x.
     cbind (cfrom (js_get_unsigned_short J x)) (\<lambda>port.
     cthen (open_server bind port)
     (cbind (cfrom (js_value_int J server ''threads'' 0)) (\<lambda>thread_count.
     start_threads spawn 0 (unat thread_count))))))))))))"

text \<open>
  How \<open>main\<close> ends or goes on. When an exception leaves the block while threads run, their objects are
  destroyed joinable, and the process is terminated before any of the catch clauses runs; all of these
  return 1.
\<close>

datatype main_result = Serves | Returns int | Terminates | Undefined_behaviour

definition server_main ::
    "'j json_api \<Rightarrow> connector \<Rightarrow> (16 word \<Rightarrow> exn option) \<Rightarrow> (nat \<Rightarrow> exn option) \<Rightarrow> string option \<Rightarrow>
     main_result \<times> main_state" where
  "server_main J connect bind spawn file =
     (let (loaded, c) = load J file (new_config_manager J)
      in if \<not> loaded then (Returns 1, main_start)
         else (case main_body J connect bind spawn c main_start of
             (Ret _, s) \<Rightarrow> (Serves, s)
           | (Throw e, s) \<Rightarrow> (if 0 < ms_threads s then Terminates else Returns 1, s)
           | (_, s) \<Rightarrow> (Undefined_behaviour, s)))"

section \<open>Lemmas\<close>

lemma cfrom_Ret_iff: "cfrom v s = (Ret a, t) \<longleftrightarrow> v = Inr a \<and> t = s"
  by (cases v) auto

lemma start_threads_run:
  "start_threads spawn i n s = (Ret (), t) \<Longrightarrow> t = s\<lparr>ms_threads := ms_threads s + n\<rparr>"
proof (induction n arbitrary: i s)
  case (Suc n)
  then have "start_threads spawn (Suc i) n (s\<lparr>ms_threads := Suc (ms_threads s)\<rparr>) = (Ret (), t)"
    by (auto split: option.splits if_splits)
  from Suc.IH [OF this] show ?case by simp
qed simp

text \<open>Reading a member is one library call, so that the connection string only reads.\<close>

lemma member_string_cfrom: "\<exists>v. member_string J db name = (cfrom v :: ('s, string) comp)"
proof (cases "js_at J db name")
  case (Inl e)
  then have "member_string J db name = (cfrom (Inl e) :: ('s, string) comp)"
    by (simp add: member_string_def fun_eq_iff cbind_cfrom)
  then show ?thesis by blast
next
  case (Inr x)
  then have "member_string J db name = (cfrom (js_get_string J x) :: ('s, string) comp)"
    by (simp add: member_string_def fun_eq_iff cbind_cfrom)
  then show ?thesis by blast
qed

lemma connection_string_fails:
  fixes s :: 's
  assumes "js_at J db ''port'' = Inr x" "js_get_int J x = Inl e"
  shows "\<exists>e'. connection_string J db s = (Throw e', s)"
proof -
  obtain v1 v2 v3 v4 where
    "member_string J db ''dbname'' = (cfrom v1 :: ('s, string) comp)"
    "member_string J db ''user'' = (cfrom v2 :: ('s, string) comp)"
    "member_string J db ''password'' = (cfrom v3 :: ('s, string) comp)"
    "member_string J db ''host'' = (cfrom v4 :: ('s, string) comp)"
    using member_string_cfrom by metis
  then show ?thesis
    unfolding connection_string_def
    by (cases v1; cases v2; cases v3; cases v4) (simp_all add: assms cbind_cfrom)
qed

lemma connection_string_Ret:
  assumes "connection_string J db s = (Ret str, t)"
  shows "t = s"
  using assms unfolding connection_string_def member_string_def
  by (auto simp: cbind_Ret_iff cfrom_Ret_iff)

lemma on_pool_Ret_iff:
  "on_pool f s = (Ret (), t) \<longleftrightarrow> (\<exists>p. f (ms_pool s) = (Ret (), p) \<and> t = s\<lparr>ms_pool := p\<rparr>)"
  by (auto simp: on_pool_def split: prod.splits)

lemma open_server_Ret_iff:
  "open_server bind port s = (Ret (), t) \<longleftrightarrow> bind port = None \<and> t = s\<lparr>ms_port := Some port\<rparr>"
  by (auto simp: open_server_def split: option.splits)

lemma serves_body:
  assumes "server_main J connect bind spawn file = (Serves, s)"
  obtains contents config where "file = Some contents" "js_parse J contents = Some config"
    "main_body J connect bind spawn \<lparr>cm_config = config, cm_isLoaded = True\<rparr> main_start = (Ret (), s)"
  using assms
  by (auto simp: server_main_def load_def new_config_manager_def split: option.splits prod.splits
      outcome.splits if_splits)

lemma main_body_Ret:
  assumes "main_body J connect bind spawn \<lparr>cm_config = config, cm_isLoaded = True\<rparr> main_start = (Ret (), s)"
  shows "\<exists>db str p server x port n. js_at J config ''database'' = Inr db \<and>
    connection_string J db main_start = (Ret str, main_start) \<and>
    init connect str 10 (initInstance no_pool) = (Ret (), p) \<and>
    js_at J config ''server'' = Inr server \<and> js_at J server ''port'' = Inr x \<and>
    js_get_unsigned_short J x = Inr port \<and> bind port = None \<and>
    js_value_int J server ''threads'' 0 = Inr n \<and>
    s = \<lparr>ms_pool = p, ms_port = Some port, ms_threads = unat n\<rparr>"
proof -
  obtain db str u p server x port n where r: "js_at J config ''database'' = Inr db"
    "connection_string J db main_start = (Ret str, u)"
    "init connect str 10 (initInstance (ms_pool u)) = (Ret (), p)"
    "js_at J config ''server'' = Inr server" "js_at J server ''port'' = Inr x"
    "js_get_unsigned_short J x = Inr port" "bind port = None"
    "js_value_int J server ''threads'' 0 = Inr n"
    "start_threads spawn 0 (unat n) (u\<lparr>ms_pool := p, ms_port := Some port\<rparr>) = (Ret (), s)"
    using assms
    by (auto simp: main_body_def getConfig_def cthen_def cbind_Ret_iff cfrom_Ret_iff on_pool_Ret_iff
        open_server_Ret_iff)
  have u: "u = main_start" by (rule connection_string_Ret [OF r(2)])
  from start_threads_run [OF r(9)] r(3) have "init connect str 10 (initInstance no_pool) = (Ret (), p)"
    "s = \<lparr>ms_pool = p, ms_port = Some port, ms_threads = unat n\<rparr>" by (simp_all add: u main_start_def)
  with r(1,4-8) r(2) [unfolded u] show ?thesis by blast
qed

section \<open>Properties\<close>

text \<open>C31. How the server comes up. When \<open>main\<close> gets as far as serving, the configuration was read, the pool
  was initialised with exactly ten connections, none of them promised, under the connection string
  made of the members of \<open>database\<close>, the configured port is open, and the configured number of threads
  runs beside the main one. From there on there are never more than ten connections, those that are promised or that
  threads hold included: not in any run of the server, and not in any run of those threads over the
  pool. A configuration whose \<open>database.port\<close> is not a number (as in the example file, where it is
  a text) ends \<open>main\<close> with 1, before any connection is attempted and any port is opened.\<close>

theorem main_serves_ten:
  assumes "server_main J connect bind spawn file = (r, s)"
  shows "(r = Serves \<longrightarrow>
      (\<exists>contents config db server x port n. file = Some contents \<and> js_parse J contents = Some config \<and>
        js_at J config ''database'' = Inr db \<and>
        connection_string J db main_start = (Ret (cp_connectionString (ms_pool s)), main_start) \<and>
        js_at J config ''server'' = Inr server \<and> js_at J server ''port'' = Inr x \<and>
        js_get_unsigned_short J x = Inr port \<and> ms_port s = Some port \<and>
        js_value_int J server ''threads'' 0 = Inr n \<and> ms_threads s = unat n) \<and>
      cp_instance (ms_pool s) \<and> length (cp_free (ms_pool s)) = 10 \<and> cp_pending (ms_pool s) = 0 \<and>
      (\<forall>E V en parse d evs u. db_ok E V d \<and> server_run E en parse (server_start d (ms_pool s)) evs u \<longrightarrow>
        capacity (ds_pool u) \<le> 10) \<and>
      (\<forall>evs q ws. crew_run connect evs (ms_pool s, replicate (Suc (ms_threads s)) Idle) (q, ws) \<longrightarrow>
        length ws = Suc (ms_threads s) \<and> length (cp_free q) + holders ws \<le> 10)) \<and>
    (\<forall>contents config db x e. file = Some contents \<and> js_parse J contents = Some config \<and>
        js_at J config ''database'' = Inr db \<and> js_at J db ''port'' = Inr x \<and> js_get_int J x = Inl e \<longrightarrow>
      r = Returns 1 \<and> s = main_start)"
proof (intro conjI impI allI)
  fix contents config db x e
  assume c: "file = Some contents \<and> js_parse J contents = Some config \<and>
    js_at J config ''database'' = Inr db \<and> js_at J db ''port'' = Inr x \<and> js_get_int J x = Inl e"
  then obtain e' where "connection_string J db main_start = (Throw e', main_start)"
    using connection_string_fails by metis
  with c have "main_body J connect bind spawn \<lparr>cm_config = config, cm_isLoaded = True\<rparr> main_start =
      (Throw e', main_start)"
    by (simp add: main_body_def getConfig_def cbind_cfrom cbind_Throw)
  with c assms show "r = Returns 1" "s = main_start"
    by (auto simp: server_main_def load_def new_config_manager_def main_start_def)
next
  assume serves: "r = Serves"
  then obtain contents config where read: "file = Some contents" "js_parse J contents = Some config"
    and body: "main_body J connect bind spawn \<lparr>cm_config = config, cm_isLoaded = True\<rparr> main_start = (Ret (), s)"
    using serves_body assms by metis
  from main_body_Ret [OF body] obtain db str p server x port n where
    b: "js_at J config ''database'' = Inr db" "connection_string J db main_start = (Ret str, main_start)"
    "init connect str 10 (initInstance no_pool) = (Ret (), p)"
    "js_at J config ''server'' = Inr server" "js_at J server ''port'' = Inr x"
    "js_get_unsigned_short J x = Inr port" "bind port = None" "js_value_int J server ''threads'' 0 = Inr n"
    "s = \<lparr>ms_pool = p, ms_port = Some port, ms_threads = unat n\<rparr>" by blast
  note fresh = init_fresh [OF b(3)]
  show "\<exists>contents config db server x port n. file = Some contents \<and> js_parse J contents = Some config \<and>
        js_at J config ''database'' = Inr db \<and>
        connection_string J db main_start = (Ret (cp_connectionString (ms_pool s)), main_start) \<and>
        js_at J config ''server'' = Inr server \<and> js_at J server ''port'' = Inr x \<and>
        js_get_unsigned_short J x = Inr port \<and> ms_port s = Some port \<and>
        js_value_int J server ''threads'' 0 = Inr n \<and> ms_threads s = unat n"
    using read b fresh(3) by auto
  show inst: "cp_instance (ms_pool s)" using b(9) fresh_instance [OF b(3)] by simp
  show ten: "length (cp_free (ms_pool s)) = 10" "cp_pending (ms_pool s) = 0" using b(9) fresh by simp_all
  then have cap: "capacity (ms_pool s) = 10" by (simp add: capacity_def)
  show "capacity (ds_pool u) \<le> 10"
    if "db_ok E V d \<and> server_run E en parse (server_start d (ms_pool s)) evs u" for E V en parse d evs u
  proof -
    have "sv_status (server_start d (ms_pool s)) \<noteq> Undefined" "ds_pool (server_start d (ms_pool s)) = ms_pool s"
      by (simp_all add: server_start_def)
    with that calm_run [OF conjunct2 [OF that] calm_start [OF conjunct1 [OF that] inst]] cap
    show ?thesis by auto
  qed
  show "length ws = Suc (ms_threads s)" "length (cp_free q) + holders ws \<le> 10"
    if "crew_run connect evs (ms_pool s, replicate (Suc (ms_threads s)) Idle) (q, ws)" for evs q ws
    using crew_run_account [OF that] cap by (simp_all add: capacity_def holders_def)
qed

text \<open>A small JSON library, with a complete configuration and the example file of the repository.\<close>

datatype ref_json = R_null | R_text string | R_number int | R_object "(string \<times> ref_json) list"

fun ref_at :: "ref_json \<Rightarrow> string \<Rightarrow> exn + ref_json" where
  "ref_at (R_object ms) name =
     (case map_of ms name of Some x \<Rightarrow> Inr x | None \<Rightarrow> Inl (Std_exception ''out_of_range''))"
| "ref_at x name = Inl (Std_exception ''type_error'')"

fun ref_text :: "ref_json \<Rightarrow> exn + string" where
  "ref_text (R_text t) = Inr t"
| "ref_text x = Inl (Std_exception ''type_error'')"

fun ref_number :: "ref_json \<Rightarrow> exn + 'a::len word" where
  "ref_number (R_number n) = Inr (word_of_int n)"
| "ref_number x = Inl (Std_exception ''type_error'')"

definition ref_config :: "ref_json \<Rightarrow> ref_json \<Rightarrow> ref_json" where
  "ref_config port threads = R_object
     [(''server'', R_object [(''host'', R_text ''''), (''port'', R_number 12345), (''threads'', threads)]),
      (''database'', R_object [(''type'', R_text ''mysql''), (''host'', R_text ''db''), (''port'', port),
        (''user'', R_text ''chat''), (''password'', R_text ''pw''), (''dbname'', R_text ''chat_server_db'')])]"

definition ref_json_api :: "ref_json json_api" where
  "ref_json_api =
     \<lparr>js_null = R_null,
      js_parse = (\<lambda>t. if t = ''complete'' then Some (ref_config (R_number 3306) (R_number 3))
        else if t = ''example'' then Some (ref_config (R_text '''') (R_number 0)) else None),
      js_at = ref_at, js_get_string = ref_text, js_get_int = ref_number,
      js_get_unsigned_short = ref_number,
      js_value_int = (\<lambda>x name n. case ref_at x name of Inr y \<Rightarrow> ref_number y | Inl e \<Rightarrow> Inr n)\<rparr>"

definition ref_main :: "string \<Rightarrow> main_result \<times> main_state" where
  "ref_main contents = server_main ref_json_api (\<lambda>s n. Inr n) (\<lambda>_. None) (\<lambda>_. None) (Some contents)"

lemma cbind_read: "cbind (cfrom (Inr a)) f = f a"
  by (simp add: fun_eq_iff cbind_cfrom)

lemma cbind_value: "cbind (Pair (Ret a)) f = f a"
  by (simp add: fun_eq_iff cbind_def)

lemma on_pool_then: "f (ms_pool s) = (Ret (), p) \<Longrightarrow> cthen (on_pool f) n s = n (s\<lparr>ms_pool := p\<rparr>)"
  by (simp add: on_pool_def cthen_def cbind_def)

lemma open_server_then:
  "bind port = None \<Longrightarrow> cthen (open_server bind port) n s = n (s\<lparr>ms_port := Some port\<rparr>)"
  by (simp add: open_server_def cthen_def)

lemma init_succeeds: "\<exists>q. init (\<lambda>s n. Inr n) str sz (initInstance no_pool) = (Ret (), q)"
proof -
  have "\<exists>q. init_loop (\<lambda>s n. Inr n) k p = (Ret (), q)" for k p
    by (induction k arbitrary: p) (simp_all add: connect_once_def)
  then show ?thesis by (simp add: init_def initInstance_def no_pool_def)
qed

lemma ref_connection_string:
  "js_at ref_json_api (ref_config (R_number 3306) t) ''database'' = Inr db \<Longrightarrow>
   connection_string ref_json_api db s =
     (Ret ''db=chat_server_db user=chat password=pw host=db port=3306'', s)"
proof -
  have "to_string (scast (word_of_int 3306 :: int32)) = ''3306''" by code_simp
  then show "js_at ref_json_api (ref_config (R_number 3306) t) ''database'' = Inr db \<Longrightarrow>
   connection_string ref_json_api db s =
     (Ret ''db=chat_server_db user=chat password=pw host=db port=3306'', s)"
    by (auto simp: connection_string_def member_string_def ref_json_api_def ref_config_def cbind_read cbind_value)
qed

lemma ref_main_runs: "\<exists>s. ref_main ''complete'' = (Serves, s)"
proof -
  let ?config = "ref_config (R_number 3306) (R_number 3)"
  obtain db where db: "js_at ref_json_api ?config ''database'' = Inr db"
    by (simp add: ref_json_api_def ref_config_def)
  obtain q where q: "init (\<lambda>s n. Inr n) ''db=chat_server_db user=chat password=pw host=db port=3306'' 10
      (initInstance no_pool) = (Ret (), q)" using init_succeeds by blast
  have config: "js_parse ref_json_api ''complete'' = Some ?config" by (simp add: ref_json_api_def)
  have got: "getInstance (initInstance no_pool) = Ret ()"
    by (simp add: getInstance_def initInstance_def no_pool_def)
  have three: "start_threads (\<lambda>_. None) 0 3 s = (Ret (), s\<lparr>ms_threads := Suc (Suc (Suc (ms_threads s)))\<rparr>)" for s
    by (simp add: numeral_3_eq_3)
  have "\<exists>s. main_body ref_json_api (\<lambda>s n. Inr n) (\<lambda>_. None) (\<lambda>_. None)
      \<lparr>cm_config = ?config, cm_isLoaded = True\<rparr> main_start = (Ret (), s)"
    by (simp add: main_body_def getConfig_def cbind_read db on_pool_then main_start_def q got
        cbind_Ret [of "connection_string ref_json_api db", OF ref_connection_string [OF db]])
      (simp add: open_server_then ref_json_api_def ref_config_def cbind_read cbind_value three)
  with config show ?thesis
    by (auto simp: ref_main_def server_main_def load_def new_config_manager_def)
qed

lemma main_serves_ten_witness:
  "(\<exists>s. ref_main ''complete'' = (Serves, s) \<and> length (cp_free (ms_pool s)) = 10 \<and>
     ms_threads s = 3 \<and> cp_connectionString (ms_pool s) =
       ''db=chat_server_db user=chat password=pw host=db port=3306'') \<and>
   ref_main ''example'' = (Returns 1, main_start)"
proof -
  let ?main = "\<lambda>c. server_main ref_json_api (\<lambda>s n. Inr n) (\<lambda>_. None) (\<lambda>_. None) (Some c)"
  let ?config = "ref_config (R_number 3306) (R_number 3)"
  obtain s where s: "?main ''complete'' = (Serves, s)" using ref_main_runs by (auto simp: ref_main_def)
  note law = main_serves_ten [OF s, THEN conjunct1, THEN mp, OF refl]
  from law [THEN conjunct1] obtain contents config db server n where
    c: "Some ''complete'' = Some contents" "js_parse ref_json_api contents = Some config"
    "js_at ref_json_api config ''database'' = Inr db"
    "connection_string ref_json_api db main_start = (Ret (cp_connectionString (ms_pool s)), main_start)"
    "js_at ref_json_api config ''server'' = Inr server"
    "js_value_int ref_json_api server ''threads'' 0 = Inr n" "ms_threads s = unat n"
    by (elim exE conjE)
  have config: "config = ?config" using c(1,2) by (auto simp: ref_json_api_def)
  have "cp_connectionString (ms_pool s) = ''db=chat_server_db user=chat password=pw host=db port=3306''"
    using c(4) ref_connection_string [OF c(3) [unfolded config], of main_start] by simp
  moreover have "ms_threads s = 3"
    using c(5-7) by (auto simp: config ref_json_api_def ref_config_def)
  moreover have "length (cp_free (ms_pool s)) = 10"
    by (rule law [THEN conjunct2, THEN conjunct2, THEN conjunct1])
  moreover obtain db' where "js_parse ref_json_api ''example'' = Some (ref_config (R_text '''') (R_number 0))"
    "js_at ref_json_api (ref_config (R_text '''') (R_number 0)) ''database'' = Inr db'"
    "js_at ref_json_api db' ''port'' = Inr (R_text '''')"
    "js_get_int ref_json_api (R_text '''') = Inl (Std_exception ''type_error'')"
    by (simp add: ref_json_api_def ref_config_def)
  with main_serves_ten [OF prod.collapse [of "?main ''example''", symmetric], THEN conjunct2]
  have "fst (?main ''example'') = Returns 1 \<and> snd (?main ''example'') = main_start" by blast
  ultimately show ?thesis using s by (simp add: ref_main_def prod_eq_iff)
qed

end
