(* ===== verification/Stress_Tester.thy ===== *)
theory Stress_Tester
  imports Client Auth_Service Std_Text
begin

text \<open>
  \<open>tester/src/main.cpp\<close>: the stress tester, a client that registers, logs in and then talks at random
  intervals, and the counters that all of its clients share. \<open>TestClient\<close> derives from \<open>Client\<close>, whose
  part is the field \<open>tc_client\<close>. Parameters are the random delays and the number of hardware threads;
  the lines of the summary and the pauses of \<open>main\<close> are left out, and so is the commented-out \<open>main\<close>.
\<close>

section \<open>State\<close>

text \<open>\<open>tc_this\<close>: the address of the object, which names its user; \<open>tc_timer\<close>: the delay being waited
  for; \<open>tc_draws\<close>: the delays drawn so far.\<close>

record test_client =
  tc_client :: client
  tc_this :: nat
  tc_timer :: "int32 option"
  tc_draws :: nat

record counters =
  connected_clients :: int32
  successful_logins :: int32
  messages_sent :: long_long
  messages_received :: long_long

definition no_counts :: counters where
  "no_counts = \<lparr>connected_clients = 0, successful_logins = 0, messages_sent = 0, messages_received = 0\<rparr>"

definition new_test_client :: "nat \<Rightarrow> test_client" where
  "new_test_client this = \<lparr>tc_client = new_client, tc_this = this, tc_timer = None, tc_draws = 0\<rparr>"

definition on_client :: "(client \<Rightarrow> client) \<Rightarrow> test_client \<Rightarrow> test_client" where
  "on_client f c = c\<lparr>tc_client := f (tc_client c)\<rparr>"

section \<open>The test client\<close>

definition test_username :: "nat \<Rightarrow> string" where
  "test_username this = ''testuser_'' @ nat_digits this"

definition onConnect_register :: "test_client \<times> counters \<Rightarrow> test_client \<times> counters" where
  "onConnect_register = (\<lambda>(c, k).
     (on_client (client_send (envelope_with (RegistrationRequest
        \<lparr>gq_username = test_username (tc_this c), gq_password = ''123456''\<rparr>))) c,
      k\<lparr>connected_clients := connected_clients k + 1\<rparr>))"

definition onConnect_login :: "test_client \<Rightarrow> test_client" where
  "onConnect_login c =
     on_client (client_send (envelope_with (LoginRequest
       \<lparr>lq_username = test_username (tc_this c), lq_password = ''123456''\<rparr>))) c"

definition tester_handle_message ::
    "client_env \<Rightarrow> envelope \<Rightarrow> test_client \<times> counters \<Rightarrow> test_client \<times> counters" where
  "tester_handle_message C e = (\<lambda>(c, k).
     (let c1 = on_client (handle_server_message C e) c;
          k1 = k\<lparr>messages_received := messages_received k + 1\<rparr>
      in case payload e of
           Some (RegistrationResponse reg_resp) \<Rightarrow>
             (if gp_success reg_resp then (onConnect_login c1, k1) else (c1, k1))
         | Some (LoginResponse login_resp) \<Rightarrow>
             (if lp_success login_resp then (c1, k1\<lparr>successful_logins := successful_logins k1 + 1\<rparr>)
              else (c1, k1))
         | _ \<Rightarrow> (c1, k1)))"

definition schedule_send :: "(nat \<Rightarrow> nat \<Rightarrow> int32) \<Rightarrow> test_client \<Rightarrow> test_client" where
  "schedule_send dist c =
     c\<lparr>tc_timer := Some (dist (tc_this c) (tc_draws c)), tc_draws := Suc (tc_draws c)\<rparr>"

definition start_sending :: "(nat \<Rightarrow> nat \<Rightarrow> int32) \<Rightarrow> test_client \<Rightarrow> test_client" where
  "start_sending dist = schedule_send dist"

text \<open>The wait is over; \<open>now\<close> is the count of the system clock.\<close>

definition timer_fired ::
    "(nat \<Rightarrow> nat \<Rightarrow> int32) \<Rightarrow> error_code \<Rightarrow> long_long \<Rightarrow> test_client \<times> counters \<Rightarrow>
     test_client \<times> counters" where
  "timer_fired dist ec now = (\<lambda>(c, k).
     (if ec \<noteq> Ec_ok then (c\<lparr>tc_timer := None\<rparr>, k)
      else
        (schedule_send dist (on_client (client_send (envelope_with (PublicMessage
           \<lparr>pm_content = ''Automatic message, time is '' @ to_string now\<rparr>))) c),
         k\<lparr>messages_sent := messages_sent k + 1\<rparr>)))"

section \<open>The main function\<close>

text \<open>The arguments: nothing when there are too few. The port is cut to 16 bits, as in C++.\<close>

record test_setup =
  su_host :: string
  su_port :: "16 word"
  su_num_clients :: int32
  su_num_threads :: int32

definition tester_arguments :: "int32 \<Rightarrow> string list \<Rightarrow> exn + test_setup option" where
  "tester_arguments hardware_concurrency argv =
     (if length argv < 4 then Inr None
      else case stoi (argv ! 2) of
        Inl e \<Rightarrow> Inl e
      | Inr port \<Rightarrow> (case stoi (argv ! 3) of
          Inl e \<Rightarrow> Inl e
        | Inr num_clients \<Rightarrow>
            (case (if 4 < length argv then stoi (argv ! 4) else Inr hardware_concurrency) of
               Inl e \<Rightarrow> Inl e
             | Inr num_threads \<Rightarrow> Inr (Some \<lparr>su_host = argv ! 1, su_port = ucast port,
                 su_num_clients = num_clients, su_num_threads = num_threads\<rparr>))))"

text \<open>A connection is made, or fails: the handler that \<open>main\<close> passes runs before \<open>connect\<close>'s own lines.\<close>

definition tester_connected ::
    "string \<Rightarrow> error_code \<Rightarrow> test_client \<times> counters \<Rightarrow> test_client \<times> counters" where
  "tester_connected endpoint ec ck =
     (let (c, k) = (if ec = Ec_ok then onConnect_register ck else ck)
      in (on_client (client_connected (\<lambda>_ x. x) endpoint ec) c, k))"

text \<open>After all clients have been created, each joins the room and starts to send.\<close>

definition join_and_start :: "(nat \<Rightarrow> nat \<Rightarrow> int32) \<Rightarrow> test_client \<Rightarrow> test_client" where
  "join_and_start dist c =
     start_sending dist (on_client (client_send (envelope_with (RoomOperationRequest
       \<lparr>oq_operation = JOIN, oq_room_name = ''room1''\<rparr>))) c)"

definition start_all :: "(nat \<Rightarrow> nat \<Rightarrow> int32) \<Rightarrow> test_client list \<Rightarrow> test_client list" where
  "start_all dist clients = map (join_and_start dist) clients"

definition close_all :: "test_client list \<Rightarrow> test_client list" where
  "close_all clients = map (on_client client_close) clients"

section \<open>Lemmas\<close>

lemma on_client_simps [simp]:
  "tc_client (on_client f c) = f (tc_client c)" "tc_this (on_client f c) = tc_this c"
  by (simp_all add: on_client_def)

lemma client_print_sent [simp]: "cl_sent (client_print line c) = cl_sent c"
  by (simp add: client_print_def)

text \<open>What the tester does with the two responses it waits for.\<close>

lemma tester_registered:
  assumes "payload e = Some (RegistrationResponse r)" "gp_success r"
    and "tester_handle_message C e (c, k) = (c', k')"
  shows "tc_this c' = tc_this c \<and> k' = k\<lparr>messages_received := messages_received k + 1\<rparr> \<and>
    cl_sent (tc_client c') = cl_sent (tc_client c) @ [envelope_with (LoginRequest
      \<lparr>lq_username = test_username (tc_this c), lq_password = ''123456''\<rparr>)]"
  using assms by (auto simp: tester_handle_message_def onConnect_login_def handle_server_message_def
      client_send_def)

lemma tester_logged_in:
  assumes "payload e = Some (LoginResponse r)" "lp_success r"
    and "tester_handle_message C e (c, k) = (c', k')"
  shows "cl_sent (tc_client c') = cl_sent (tc_client c) \<and>
    k' = k\<lparr>messages_received := messages_received k + 1, successful_logins := successful_logins k + 1\<rparr>"
  using assms by (auto simp: tester_handle_message_def handle_server_message_def)

text \<open>A successful registration stores the user the request names.\<close>

lemma registered_user:
  assumes "db_ok E V (ds_db s)" "handleRegister E (MySQLUserRepository E) i req s = (Ret (), t)"
    and "ss_outbox t i = ss_outbox s i @ [e]" "payload e = Some (RegistrationResponse resp)" "gp_success resp"
  shows "\<exists>uid salt. (uid, gq_username req, hashPassword (e_sha256 E) (gq_password req) salt, salt)
    \<in> db_users_of V (ds_db t)"
proof -
  have "success_reply e" using assms(4,5) by (simp add: success_reply_def)
  with assms(3) have "\<not> replied i (Ret ()) s (\<lambda>e. \<not> success_reply e) t" by (auto simp: replied_def)
  with mysql_users.register_result [OF assms(1,2)] obtain u :: user where
    "u_username u = gq_username req"
    "u_hashed_password u = hashPassword (e_sha256 E) (gq_password req) (u_salt u)"
    "db_users_of V (ds_db t) = insert (credential_of u) (db_users_of V (ds_db s))" by blast
  then show ?thesis by (intro exI [of _ "u_id u"] exI [of _ "u_salt u"]) (simp add: credential_of_def)
qed

section \<open>Properties\<close>

text \<open>C38. A test client that is registered gets logged in. Suppose the server answers the registration a
  test client sends when its connection is made with a success. Whatever else happens to the server
  before the client's next request, as long as no user is removed or changed: the client's reaction to
  that answer is one login request, for the same name and password; the server, with a free connection
  and an engine that answers queries, accepts it and makes the session that user; and the client's
  reaction to the server's one reply sends nothing and counts one more successful login. Each of the
  two answers is counted as one message.\<close>

theorem tester_logs_in:
  assumes "db_ok E V (ds_db s)"
    and "onConnect_register (c, k) = (c1, k1)"
    and "last (cl_sent (tc_client c1)) = envelope_with (RegistrationRequest req)"
    and "handleRegister E (MySQLUserRepository E) i req s = (Ret (), t)"
    and "ss_outbox t i = ss_outbox s i @ [e]" "payload e = Some (RegistrationResponse resp)" "gp_success resp"
    and "tester_handle_message C e (c1, k1) = (c2, k2)"
    and "db_ok E V (ds_db s')" "engine_up E s'" "db_users_of V (ds_db t) \<subseteq> db_users_of V (ds_db s')"
  shows "\<exists>login. cl_sent (tc_client c2) = cl_sent (tc_client c) @
      [envelope_with (RegistrationRequest req), envelope_with (LoginRequest login)] \<and>
    (\<exists>t' uid e'. handleLogin E (MySQLUserRepository E) j login s' = (Ret (), t') \<and>
      ss_session t' j = setAuthenticated uid (test_username (tc_this c)) (ss_session s' j) \<and>
      ss_outbox t' j = ss_outbox s' j @ [e'] \<and>
      (\<forall>c3 k3. tester_handle_message C e' (c2, k2) = (c3, k3) \<longrightarrow>
        cl_sent (tc_client c3) = cl_sent (tc_client c2) \<and>
        k3 = k\<lparr>connected_clients := connected_clients k + 1,
          successful_logins := successful_logins k + 1, messages_received := messages_received k + 2\<rparr>))"
proof -
  let ?n = "test_username (tc_this c)"
  let ?login = "\<lparr>lq_username = ?n, lq_password = ''123456''\<rparr>"
  have req: "req = \<lparr>gq_username = ?n, gq_password = ''123456''\<rparr>" "tc_this c1 = tc_this c"
    "cl_sent (tc_client c1) = cl_sent (tc_client c) @ [envelope_with (RegistrationRequest req)]"
    "k1 = k\<lparr>connected_clients := connected_clients k + 1\<rparr>"
    using assms(2,3) by (auto simp: onConnect_register_def client_send_def envelope_with_def)
  from tester_registered [OF assms(6-8)] req have sent: "cl_sent (tc_client c2) = cl_sent (tc_client c) @
      [envelope_with (RegistrationRequest req), envelope_with (LoginRequest ?login)]"
    "k2 = k\<lparr>connected_clients := connected_clients k + 1, messages_received := messages_received k + 1\<rparr>"
    by simp_all
  obtain uid salt where "(uid, ?n, hashPassword (e_sha256 E) ''123456'' salt, salt) \<in> db_users_of V (ds_db t)"
    using registered_user [OF assms(1,4-7)] by (auto simp: req(1))
  then have user: "(uid, ?n, hashPassword (e_sha256 E) ''123456'' salt, salt) \<in> db_users_of V (ds_db s')"
    using assms(11) by blast
  have same: "dv_same_text V ?n (lq_username ?login)"
    using mysql_users.same_equiv [OF assms(9)] by (simp add: equivp_reflp)
  from mysql_reliable.login_complete [OF assms(9,10) user same, of E j] obtain t' where
    t': "handleLogin E (MySQLUserRepository E) j ?login s' = (Ret (), t')"
    "ss_session t' j = setAuthenticated uid ?n (ss_session s' j)"
    "ss_outbox t' j = ss_outbox s' j @ [envelope_with (LoginResponse
      \<lparr>lp_success = True, lp_message = ''Login successful. Welcome, '' @ ?n @ ''!'', lp_user_id = to_string uid\<rparr>)]"
    by auto
  let ?r = "\<lparr>lp_success = True, lp_message = ''Login successful. Welcome, '' @ ?n @ ''!'', lp_user_id = to_string uid\<rparr>"
  have "cl_sent (tc_client c3) = cl_sent (tc_client c2) \<and> k3 = k\<lparr>connected_clients := connected_clients k + 1,
      successful_logins := successful_logins k + 1, messages_received := messages_received k + 2\<rparr>"
    if "tester_handle_message C (envelope_with (LoginResponse ?r)) (c2, k2) = (c3, k3)" for c3 k3
  proof -
    have "payload (envelope_with (LoginResponse ?r)) = Some (LoginResponse ?r)" by (simp add: envelope_with_def)
    from tester_logged_in [OF this _ that] show ?thesis by (simp add: sent(2))
  qed
  with sent(1) t' show ?thesis by blast
qed

text \<open>The tester at address 7 of a server with two users.\<close>

lemma tester_logs_in_witness:
  "\<exists>c1 k1 t e c2 k2 login t' uid. onConnect_register (new_test_client 7, no_counts) = (c1, k1) \<and>
     handleRegister ref_env (MySQLUserRepository ref_env) 0
       \<lparr>gq_username = ''testuser_7'', gq_password = ''123456''\<rparr> ref_state = (Ret (), t) \<and>
     ss_outbox t 0 = [e] \<and> tester_handle_message ref_client_env e (c1, k1) = (c2, k2) \<and>
     handleLogin ref_env (MySQLUserRepository ref_env) 0 login t = (Ret (), t') \<and>
     ss_session t' 0 = setAuthenticated uid ''testuser_7'' (ss_session t 0)"
proof -
  let ?req = "\<lparr>gq_username = ''testuser_7'', gq_password = ''123456''\<rparr>"
  let ?r = "handleRegister ref_env (MySQLUserRepository ref_env) 0 ?req ref_state"
  let ?e = "envelope_with (RegistrationResponse
    \<lparr>gp_success = True, gp_message = ''Registration successful. You can now log in, testuser_7!''\<rparr>)"
  let ?c = "onConnect_register (new_test_client 7, no_counts)"
  have n: "test_username 7 = ''testuser_7''" by code_simp
  have run: "?r = (Ret (), snd ?r)" "ss_outbox (snd ?r) 0 = ss_outbox ref_state 0 @ [?e]" "ss_outbox ref_state 0 = []"
    and pool: "ds_pool (snd ?r) = ref_pool"
    by (simp_all add: handleRegister_def register_reply_def draw_salt_def generateSalt_def new_user_def
        session_send_def ref_state_def repo_run ref_run)
  have ok: "db_ok ref_env ref_view (ds_db ref_state)" by (simp add: ref_state_def ref_db_ok)
  from mysql_users.register_result [OF ok run(1)] have ok': "db_ok ref_env ref_view (ds_db (snd ?r))" by blast
  have up: "engine_up ref_env (snd ?r)" by (simp add: engine_up_def pool ref_pool_def ref_users_def)
  have sent: "last (cl_sent (tc_client (fst ?c))) = envelope_with (RegistrationRequest ?req)"
    by (simp add: onConnect_register_def client_send_def new_test_client_def n)
  have e: "payload ?e = Some (RegistrationResponse
    \<lparr>gp_success = True, gp_message = ''Registration successful. You can now log in, testuser_7!''\<rparr>)"
    by (simp add: envelope_with_def)
  have "tc_this (new_test_client 7) = 7" by (simp add: new_test_client_def)
  with tester_logs_in [OF ok prod.collapse [of ?c, symmetric] sent run(1,2) e _
      prod.collapse [of "tester_handle_message ref_client_env ?e (fst ?c, snd ?c)", symmetric] ok' up subset_refl, of 0]
  obtain login t' uid where "handleLogin ref_env (MySQLUserRepository ref_env) 0 login (snd ?r) = (Ret (), t')"
    "ss_session t' 0 = setAuthenticated uid ''testuser_7'' (ss_session (snd ?r) 0)" by (auto simp: n)
  moreover have "?c = (fst ?c, snd ?c)" by simp
  moreover have "tester_handle_message ref_client_env ?e (fst ?c, snd ?c) =
      (fst (tester_handle_message ref_client_env ?e (fst ?c, snd ?c)),
       snd (tester_handle_message ref_client_env ?e (fst ?c, snd ?c)))" by simp
  ultimately show ?thesis using run by (metis append_Nil)
qed

end
