(* ===== verification/Spec2Isabelle.thy ===== *)
theory Spec2Isabelle
  imports Chat_System Soci_Conversion Pool_Threads Stale_Logins Server_Tasks Server_Main Stress_Tester
begin

text \<open>
  A verification library for CppChatServer: a chat server on asio with a MySQL database behind SOCI, the
  chat client, and a stress tester. The theories follow the parts of the program; definitions carry
  the names of the C++ functions. File names below are those of the repository.

  \<^bold>\<open>The program.\<close> Client and server exchange protobuf envelopes in frames: a length of four bytes in
  network order, then the body. Every connection of the server is a \<open>Session\<close> with a read loop and a
  write queue. A received envelope is posted to the io_context; \<open>Server::dispatchMessage\<close> lets logins and
  registrations through and anything else only for sessions that are logged in, and calls one of three
  services. The services share the registry of sessions and the tables of rooms, send envelopes to
  sessions, and keep users, rooms and messages through repositories, each method of which borrows a
  connection of the pool for a scope. A session that fails is closed once, and its end is one more
  posted handler.

  \<^bold>\<open>Computations.\<close> \<open>Chat_Prelude\<close>: a C++ call is a function from the state to an outcome and the state it
  leaves. The outcome is a value, an exception, waiting (\<open>Block\<close>, on the condition variable of the pool)
  or undefined behaviour (\<open>Undef\<close>: an empty optional dereferenced, the front of an empty queue). Nothing
  is undone by an exception. Integers keep their width (\<open>int32\<close>, \<open>long_long\<close>, bytes). The states extend each
  other as records: \<open>data_state\<close> (database, pool, clock), \<open>session_state\<close> (session objects, outboxes,
  registry), \<open>service_state\<close> (rooms), \<open>server_state\<close> (readers, posted handlers, log, status), so that a
  handler's frame is part of its type.

  \<^bold>\<open>Theories and sources.\<close>
  \<^item> \<open>Wire_Format\<close>, \<open>Session\<close>: \<open>server/src/session/Session.cpp\<close>. The read loop as a byte machine, the write
    queue, closing, the login state. Frames survive any cutting of the stream; what is written is in
    order, one write at a time, and drains from the very state reached; a session closes once.
  \<^item> \<open>Domain_Model\<close>: \<open>common/src/domain\<close> and \<open>common/proto/chat.proto\<close>.
  \<^item> \<open>Util_Functions\<close>: \<open>server/src/util/Crypto.cpp\<close>, \<open>TimeConvert.cpp\<close>. \<open>Std_Text\<close>: \<open>std::stoi\<close> and
    \<open>sscanf\<close> as the program uses them.
  \<^item> \<open>Connection_Pool\<close>, \<open>Pool_Threads\<close>: \<open>server/src/data/ConnectionPool.cpp\<close>; the second under any number
    of threads of the io_context: connections are conserved, failed replenishments are lost, and all
    threads can wait for handlers that no thread is left to run.
  \<^item> \<open>Data_Access\<close>, \<open>User_Repository\<close>, \<open>Room_Repository\<close>, \<open>Message_Repository\<close>: the MySQL repositories of
    \<open>server/src/data\<close>, over an abstract engine. \<open>Sql_Semantics\<close> states what is assumed of it (\<open>engine_ok\<close>),
    \<open>Repository_Facts\<close> and \<open>Engine_Answers\<close> what the methods then do, \<open>Reference_Engine\<close> an engine that
    meets the assumptions. \<open>Soci_Conversion\<close>: \<open>SociTypeConversion.h\<close>, against the repositories.
  \<^item> \<open>Session_Manager\<close>: \<open>server/src/core/SessionManager.cpp\<close>, and the state the services share.
  \<^item> \<open>Auth_Service\<close>: \<open>server/src/service/AuthService.cpp\<close>, with the soundness and completeness of logins,
    registrations and changes; \<open>Stale_Logins\<close>: what a second login on one connection leaves behind.
  \<^item> \<open>Room_Service\<close>, \<open>Room_Membership\<close>, \<open>Room_Facts\<close>, \<open>Room_Properties\<close>, \<open>Room_History\<close>:
    \<open>server/src/service/RoomService.cpp\<close>. The two tables refine one map from users to places; who is
    told of a change; the end of a connection; the history a member is shown.
  \<^item> \<open>Message_Service\<close>: \<open>server/src/service/MessageService.cpp\<close>, who receives and what is stored.
  \<^item> \<open>Server\<close>: \<open>server/src/core/Server.cpp\<close> as a transition system over connections, bytes, failures and
    the scheduler's choices. \<open>Server_Discipline\<close>, \<open>Server_Facts\<close>, \<open>Server_Invariant\<close>, \<open>Server_Properties\<close>,
    \<open>Server_Tasks\<close>: its invariant and how it can stop, the gate, where identities come from, and that
    posted handlers run empty. \<open>Server_Main\<close>: \<open>server/src/main.cpp\<close> and \<open>ConfigManager.cpp\<close>, which bring the
    server up and meet the assumptions of those theories.
  \<^item> \<open>Client\<close>, \<open>Client_Input\<close>: \<open>client/src\<close>, the connection, the reaction to each envelope, the typed
    commands. \<open>Chat_System\<close>: client and server together, over both queues and both read loops.
    \<open>Stress_Tester\<close>: \<open>tester/src/main.cpp\<close>, whose registered clients the server logs in.

  \<^bold>\<open>Interfaces.\<close> Locales state what one part relies on in another: \<open>frame_reader\<close> and \<open>frame_writer\<close>
  (interpreted for the session and for the client), \<open>user_store\<close>, \<open>reliable_user_store\<close>, \<open>room_store\<close> and
  \<open>message_store\<close> (interpreted for the MySQL repositories over every engine that obeys \<open>engine_ok\<close>), and
  \<open>chat_store\<close>, which joins them for the services. The services are proved against these contracts; the
  properties are their facts at the interpretations.

  \<^bold>\<open>Parameters.\<close> Code outside the repository is an argument: the database engine (\<open>env\<close>, with \<open>engine_ok\<close> for
  the documented behaviour of MySQL on \<open>schema.sql\<close>), \<open>soci::session\<close>'s constructor, OpenSSL's random bytes
  and SHA-256, the clock, protobuf's parser and serialiser, the JSON library, the byte order of the
  machine. No fuel is used: loops are structural or have a measure, and a wait is an outcome.

  \<^bold>\<open>Not modelled.\<close> The transition system of the server runs one handler at a time, as the example
  configuration does; the locks of the services are therefore left out, and threads are modelled for the
  pool alone. Also left out: asio's own machinery below reads, writes, accepts and posts; the bytes of
  protobuf; lines for \<open>std::cerr\<close> and most for \<open>std::cout\<close>; signal handlers.
\<close>

end
